(* ===== verification/Prelude.thy ===== *)
theory Prelude
  imports Main "HOL-Library.List_Lexorder" "HOL-Library.Word"
begin

text \<open>
  What the components share: Python strings as lists of code points, byte strings, the exceptions
  the program raises or catches, results as a sum (\<open>Inl\<close> an exception, \<open>Inr\<close> a value), the
  combinators that sequence checks in the order of the source, and generic facts about sorted
  lists of distinct keys.
\<close>

section \<open>Strings and bytes\<close>

text \<open>
  A Python \<open>str\<close> is a list of Unicode code points (lone surrogates included, as Python has them),
  so \<open>len\<close> is \<open>length\<close> and Python's ordering of strings is the lexicographic order on lists that
  \<open>HOL-Library.List_Lexorder\<close> provides. A \<open>bytes\<close> object is a list of 8-bit words.
\<close>

type_synonym pystr = "nat list"
type_synonym bytes = "8 word list"

definition str :: "string \<Rightarrow> pystr" where
  "str s = map of_char s"

lemma str_eq_iff [simp]: "str s = str t \<longleftrightarrow> s = t"
proof -
  have "inj (of_char :: char \<Rightarrow> nat)"
    by (rule injI) simp
  then show ?thesis by (simp add: str_def inj_map_eq_map)
qed

lemma length_str [simp]: "length (str s) = length s"
  by (simp add: str_def)

lemma str_Nil [simp]: "str [] = []"
  by (simp add: str_def)

lemma str_Nil_iff [simp]: "str s = [] \<longleftrightarrow> s = []" "[] = str s \<longleftrightarrow> s = []"
  by (auto simp: str_def)

definition ascii_bytes :: "pystr \<Rightarrow> bytes" where
  "ascii_bytes s = map of_nat s"

section \<open>Exceptions and results\<close>

text \<open>
  \<open>Invalid\<close> is a subclass of \<open>ValueError\<close> and \<open>Incomplete\<close> a subclass of \<open>Invalid\<close>;
  \<open>FileExistsError\<close> is a subclass of \<open>OSError\<close>, \<open>IndexError\<close> of \<open>LookupError\<close> and
  \<open>TimeoutExpired\<close> of \<open>SubprocessError\<close>.
\<close>

datatype exn =
    Invalid string
  | Incomplete string
  | ValueError
  | KeyError
  | TypeError
  | AttributeError
  | OSError nat
  | FileExistsError
  | RuntimeError string
  | IndexError
  | TimeoutExpired

fun is_invalid :: "exn \<Rightarrow> bool" where
  "is_invalid (Invalid _) = True"
| "is_invalid (Incomplete _) = True"
| "is_invalid _ = False"

fun is_value_error :: "exn \<Rightarrow> bool" where
  "is_value_error ValueError = True"
| "is_value_error e = is_invalid e"

fun is_os_error :: "exn \<Rightarrow> bool" where
  "is_os_error (OSError _) = True"
| "is_os_error FileExistsError = True"
| "is_os_error _ = False"

type_synonym 'a res = "exn + 'a"

definition rbind :: "'a res \<Rightarrow> ('a \<Rightarrow> 'b res) \<Rightarrow> 'b res" where
  "rbind r f = (case r of Inl e \<Rightarrow> Inl e | Inr x \<Rightarrow> f x)"

text \<open>\<open>ensure b e\<close> is \<open>if not b: raise e\<close>.\<close>

definition ensure :: "bool \<Rightarrow> exn \<Rightarrow> unit res" where
  "ensure b e = (if b then Inr () else Inl e)"

text \<open>\<open>for_each f xs\<close> is \<open>for x in xs: f(x)\<close>, with the results collected.\<close>

fun for_each :: "('a \<Rightarrow> 'b res) \<Rightarrow> 'a list \<Rightarrow> 'b list res" where
  "for_each f [] = Inr []"
| "for_each f (x # xs) = rbind (f x) (\<lambda>y. rbind (for_each f xs) (\<lambda>ys. Inr (y # ys)))"

lemma rbind_Inl [simp]: "rbind (Inl e) f = Inl e"
  by (simp add: rbind_def)

lemma rbind_Inr [simp]: "rbind (Inr x) f = f x"
  by (simp add: rbind_def)

lemma rbind_eq_Inr_iff [simp]: "rbind r f = Inr y \<longleftrightarrow> (\<exists>x. r = Inr x \<and> f x = Inr y)"
  by (cases r) auto

lemma rbind_eq_Inl_iff: "rbind r f = Inl e \<longleftrightarrow> r = Inl e \<or> (\<exists>x. r = Inr x \<and> f x = Inl e)"
  by (cases r) auto

lemma rbind_assoc: "rbind (rbind r f) g = rbind r (\<lambda>x. rbind (f x) g)"
  by (cases r) auto

lemma rbind_cong [fundef_cong]:
  "r = r' \<Longrightarrow> (\<And>x. r' = Inr x \<Longrightarrow> f x = f' x) \<Longrightarrow> rbind r f = rbind r' f'"
  by (cases r') auto

lemma ensure_True [simp]: "ensure True e = Inr ()"
  by (simp add: ensure_def)

lemma ensure_False [simp]: "ensure False e = Inl e"
  by (simp add: ensure_def)

lemma ensure_Inr_iff [simp]: "ensure b e = Inr u \<longleftrightarrow> b"
  by (cases b) auto

lemma ensure_Inl_iff [simp]: "ensure b e = Inl e' \<longleftrightarrow> \<not> b \<and> e = e'"
  by (cases b) auto

lemma for_each_Inr_iff:
  "for_each f xs = Inr ys \<longleftrightarrow> list_all2 (\<lambda>x y. f x = Inr y) xs ys"
proof (induction xs arbitrary: ys)
  case Nil
  then show ?case by (cases ys) auto
next
  case (Cons x xs)
  then show ?case by (cases ys) auto
qed

lemma for_each_InlD: "for_each f xs = Inl e \<Longrightarrow> \<exists>x\<in>set xs. f x = Inl e"
  by (induction xs) (auto simp: rbind_eq_Inl_iff)

lemma for_each_map_Inr: "for_each (\<lambda>x. Inr (g x)) xs = Inr (map g xs)"
  by (induction xs) auto

text \<open>
  \<open>raises P r\<close>: whatever exception \<open>r\<close> ends in satisfies \<open>P\<close>. The rules below reduce the
  question "which exceptions can this code raise" to its parts.
\<close>

definition raises :: "(exn \<Rightarrow> bool) \<Rightarrow> 'a res \<Rightarrow> bool" where
  "raises P r \<longleftrightarrow> (\<forall>e. r = Inl e \<longrightarrow> P e)"

named_theorems raises_rules

lemma raises_Inr [raises_rules]: "raises P (Inr x)"
  by (simp add: raises_def)

lemma raises_Inl [raises_rules]: "P e \<Longrightarrow> raises P (Inl e)"
  by (simp add: raises_def)

lemma raises_ensure [raises_rules]: "P e \<Longrightarrow> raises P (ensure b e)"
  by (simp add: raises_def)

lemma raises_rbind [raises_rules]:
  "raises P r \<Longrightarrow> (\<And>x. r = Inr x \<Longrightarrow> raises P (f x)) \<Longrightarrow> raises P (rbind r f)"
  by (auto simp: raises_def rbind_eq_Inl_iff)

lemma raises_for_each [raises_rules]:
  "(\<And>x. x \<in> set xs \<Longrightarrow> raises P (f x)) \<Longrightarrow> raises P (for_each f xs)"
  by (fastforce simp: raises_def dest: for_each_InlD)

lemma raises_if [raises_rules]:
  "(b \<Longrightarrow> raises P r) \<Longrightarrow> (\<not> b \<Longrightarrow> raises P s) \<Longrightarrow> raises P (if b then r else s)"
  by simp

lemma raises_list_case [raises_rules]:
  "(xs = [] \<Longrightarrow> raises P a) \<Longrightarrow> (\<And>y ys. xs = y # ys \<Longrightarrow> raises P (f y ys)) \<Longrightarrow>
   raises P (case xs of [] \<Rightarrow> a | y # ys \<Rightarrow> f y ys)"
  by (cases xs) auto

lemma raises_option_case [raises_rules]:
  "(x = None \<Longrightarrow> raises P a) \<Longrightarrow> (\<And>y. x = Some y \<Longrightarrow> raises P (f y)) \<Longrightarrow>
   raises P (case x of None \<Rightarrow> a | Some y \<Rightarrow> f y)"
  by (cases x) auto

lemma raises_prod_case [raises_rules]:
  "(\<And>y z. p = (y, z) \<Longrightarrow> raises P (f y z)) \<Longrightarrow> raises P (case p of (y, z) \<Rightarrow> f y z)"
  by (cases p) auto

lemma raises_mono: "raises P r \<Longrightarrow> (\<And>e. P e \<Longrightarrow> Q e) \<Longrightarrow> raises Q r"
  by (auto simp: raises_def)

section \<open>Sorted lists of distinct keys\<close>

text \<open>
  \<open>xs == sorted(set(xs))\<close> is the program's test that a list is strictly increasing.
\<close>

definition sorted_set :: "'a::linorder list \<Rightarrow> 'a list" where
  "sorted_set xs = sort (remdups xs)"

lemma sorted_set_eq_iff: "xs = sorted_set xs \<longleftrightarrow> sorted xs \<and> distinct xs"
proof
  assume *: "xs = sorted_set xs"
  have "sorted (sorted_set xs)" "distinct (sorted_set xs)"
    by (simp_all add: sorted_set_def)
  with * show "sorted xs \<and> distinct xs" by simp
next
  assume "sorted xs \<and> distinct xs"
  then show "xs = sorted_set xs"
    by (simp add: sorted_set_def distinct_remdups_id sorted_sort_id)
qed

lemma set_sorted_set [simp]: "set (sorted_set xs) = set xs"
  by (simp add: sorted_set_def)

lemma distinct_map_sort: "distinct (map f (sort_key g xs)) \<longleftrightarrow> distinct (map f xs)"
  by (simp add: distinct_map)

lemma map_of_eq_Some_distinct:
  "distinct (map fst kvs) \<Longrightarrow> map_of kvs k = Some v \<longleftrightarrow> (k, v) \<in> set kvs"
  by simp

end
