(* ===== verification/Text.thy ===== *)
theory Text
  imports Prelude
begin

text \<open>
  Text operations of the Python standard library that the program uses: \<open>str.split\<close> and
  \<open>str.join\<close> with a one-character separator, the character classes of its regular expressions,
  hexadecimal and decimal numerals, and strict UTF-8 decoding.
\<close>

section \<open>Split and join\<close>

fun split_on :: "nat \<Rightarrow> pystr \<Rightarrow> pystr list" where
  "split_on sep [] = [[]]"
| "split_on sep (c # cs) =
     (if c = sep then [] # split_on sep cs
      else (case split_on sep cs of [] \<Rightarrow> [[c]] | p # ps \<Rightarrow> (c # p) # ps))"

fun join_with :: "nat \<Rightarrow> pystr list \<Rightarrow> pystr" where
  "join_with sep [] = []"
| "join_with sep [p] = p"
| "join_with sep (p # q # ps) = p @ sep # join_with sep (q # ps)"

lemma split_on_not_Nil [simp]: "split_on sep s \<noteq> []"
  by (cases s) (auto split: list.splits)

lemma split_on_Cons:
  obtains p ps where "split_on sep s = p # ps"
  by (cases "split_on sep s") auto

lemma join_split [simp]: "join_with sep (split_on sep s) = s"
proof (induction s)
  case Nil
  then show ?case by simp
next
  case (Cons c cs)
  obtain p ps where *: "split_on sep cs = p # ps" by (rule split_on_Cons)
  with Cons.IH show ?case
    by (cases ps) auto
qed

lemma split_on_append: "sep \<notin> set p \<Longrightarrow> split_on sep (p @ sep # s) = p # split_on sep s"
  by (induction p) auto

lemma split_on_single: "sep \<notin> set p \<Longrightarrow> split_on sep p = [p]"
  by (induction p) auto

lemma split_join:
  "ps \<noteq> [] \<Longrightarrow> (\<And>p. p \<in> set ps \<Longrightarrow> sep \<notin> set p) \<Longrightarrow> split_on sep (join_with sep ps) = ps"
  by (induction sep ps rule: join_with.induct) (auto simp: split_on_append split_on_single)

lemma split_on_parts: "p \<in> set (split_on sep s) \<Longrightarrow> sep \<notin> set p"
proof (induction s arbitrary: p)
  case Nil
  then show ?case by simp
next
  case (Cons c cs)
  obtain q qs where *: "split_on sep cs = q # qs" by (rule split_on_Cons)
  with Cons show ?case by (auto split: if_splits)
qed

lemma split_on_inject: "split_on sep s = split_on sep t \<Longrightarrow> s = t"
  by (metis join_split)

section \<open>Character classes\<close>

definition is_digit :: "nat \<Rightarrow> bool" where
  "is_digit c \<longleftrightarrow> 48 \<le> c \<and> c \<le> 57"

definition is_lower :: "nat \<Rightarrow> bool" where
  "is_lower c \<longleftrightarrow> 97 \<le> c \<and> c \<le> 122"

definition is_upper :: "nat \<Rightarrow> bool" where
  "is_upper c \<longleftrightarrow> 65 \<le> c \<and> c \<le> 90"

text \<open>\<open>[0-9a-f]\<close> and \<open>[a-zA-Z0-9]\<close>.\<close>

definition is_hex :: "nat \<Rightarrow> bool" where
  "is_hex c \<longleftrightarrow> is_digit c \<or> 97 \<le> c \<and> c \<le> 102"

definition is_alnum :: "nat \<Rightarrow> bool" where
  "is_alnum c \<longleftrightarrow> is_lower c \<or> is_upper c \<or> is_digit c"

section \<open>Numerals\<close>

definition hex_digit :: "nat \<Rightarrow> nat" where
  "hex_digit n = (if n < 10 then 48 + n else 87 + n)"

text \<open>The four hexadecimal digits of a JSON escape.\<close>

definition hex4 :: "nat \<Rightarrow> pystr" where
  "hex4 n = [hex_digit (n div 4096 mod 16), hex_digit (n div 256 mod 16),
             hex_digit (n div 16 mod 16), hex_digit (n mod 16)]"

text \<open>\<open>bytes.hex\<close>.\<close>

definition hex_bytes :: "bytes \<Rightarrow> pystr" where
  "hex_bytes b = concat (map (\<lambda>x. [hex_digit (unat x div 16), hex_digit (unat x mod 16)]) b)"

definition unhex_digit :: "nat \<Rightarrow> nat option" where
  "unhex_digit c =
     (if is_digit c then Some (c - 48)
      else if 97 \<le> c \<and> c \<le> 102 then Some (c - 87)
      else if 65 \<le> c \<and> c \<le> 70 then Some (c - 55) else None)"

definition unhex4 :: "nat \<Rightarrow> nat \<Rightarrow> nat \<Rightarrow> nat \<Rightarrow> nat option" where
  "unhex4 a b c d =
     (case (unhex_digit a, unhex_digit b, unhex_digit c, unhex_digit d) of
        (Some w, Some x, Some y, Some z) \<Rightarrow> Some (((w * 16 + x) * 16 + y) * 16 + z)
      | _ \<Rightarrow> None)"

lemma unhex_hex_digit [simp]: "n < 16 \<Longrightarrow> unhex_digit (hex_digit n) = Some n"
  by (auto simp: unhex_digit_def hex_digit_def is_digit_def)

lemma is_hex_hex_digit: "n < 16 \<Longrightarrow> is_hex (hex_digit n)"
  by (auto simp: hex_digit_def is_hex_def is_digit_def)

lemma unhex4_hex4:
  assumes "n < 65536"
  shows "unhex4 (hex_digit (n div 4096 mod 16)) (hex_digit (n div 256 mod 16))
           (hex_digit (n div 16 mod 16)) (hex_digit (n mod 16)) = Some n"
proof -
  have *: "n div 256 = n div 16 div 16" "n div 4096 = n div 16 div 16 div 16"
    by (simp_all add: div_mult2_eq [symmetric])
  have "n div 16 div 16 div 16 < 16"
    using assms by (simp add: less_mult_imp_div_less)
  then have "((n div 4096 mod 16 * 16 + n div 256 mod 16) * 16 + n div 16 mod 16) * 16 + n mod 16 = n"
    by (simp add: *)
  then show ?thesis
    unfolding unhex4_def by (simp only: unhex_hex_digit mod_less_divisor zero_less_numeral
      option.case prod.case)
qed

lemma hex_bytes_is_hex: "c \<in> set (hex_bytes b) \<Longrightarrow> is_hex c"
proof -
  have "unat (x :: 8 word) div 16 < 16" for x
    using unsigned_less [of x, where 'a = nat] by simp
  then show "c \<in> set (hex_bytes b) \<Longrightarrow> is_hex c"
    by (auto simp: hex_bytes_def intro: is_hex_hex_digit)
qed

lemma length_hex_bytes: "length (hex_bytes b) = 2 * length b"
  by (induction b) (auto simp: hex_bytes_def)

text \<open>\<open>str(n)\<close> of a natural number, and the value of a run of decimal digits.\<close>

fun dec_nat :: "nat \<Rightarrow> pystr" where
  "dec_nat n = (if n < 10 then [48 + n] else dec_nat (n div 10) @ [48 + n mod 10])"

declare dec_nat.simps [simp del]

definition dec_int :: "int \<Rightarrow> pystr" where
  "dec_int i = (if i < 0 then 45 # dec_nat (nat (- i)) else dec_nat (nat i))"

definition undec :: "pystr \<Rightarrow> nat" where
  "undec ds = foldl (\<lambda>n d. n * 10 + (d - 48)) 0 ds"

lemma undec_snoc: "undec (ds @ [d]) = undec ds * 10 + (d - 48)"
  by (simp add: undec_def)

lemma undec_dec_nat [simp]: "undec (dec_nat n) = n"
proof (induction n rule: dec_nat.induct)
  case (1 n)
  then show ?case
    by (subst dec_nat.simps) (auto simp: undec_snoc, simp add: undec_def)
qed

lemma dec_nat_digits: "c \<in> set (dec_nat n) \<Longrightarrow> is_digit c"
proof (induction n rule: dec_nat.induct)
  case (1 n)
  then show ?case
    by (subst (asm) (2) dec_nat.simps) (auto simp: is_digit_def split: if_splits)
qed

lemma dec_nat_not_Nil [simp]: "dec_nat n \<noteq> []"
  by (subst dec_nat.simps) simp

lemma hd_dec_nat: "hd (dec_nat n) = 48 \<longleftrightarrow> n = 0"
proof (induction n rule: dec_nat.induct)
  case (1 n)
  show ?case
  proof (cases "n < 10")
    case True
    then show ?thesis by (subst dec_nat.simps) simp
  next
    case False
    with 1 show ?thesis by (subst dec_nat.simps) simp
  qed
qed

lemma dec_nat_0 [simp]: "dec_nat 0 = [48]"
  by (subst dec_nat.simps) simp

lemma length_dec_nat_0: "hd (dec_nat n) = 48 \<Longrightarrow> dec_nat n = [48]"
  by (simp add: hd_dec_nat)

lemma length_dec_nat_le: "n < 10 ^ k \<Longrightarrow> 0 < k \<Longrightarrow> length (dec_nat n) \<le> k"
proof (induction n arbitrary: k rule: dec_nat.induct)
  case (1 n)
  show ?case
  proof (cases "n < 10")
    case True
    then show ?thesis using 1(3) by (subst dec_nat.simps) simp
  next
    case False
    with 1(2) have "k \<noteq> 1" by auto
    with 1(3) obtain j where j: "k = Suc j" "0 < j"
      by (cases k) auto
    with 1(2) have "n div 10 < 10 ^ j" by (simp add: div_less_iff_less_mult)
    with 1(1) False j have "length (dec_nat (n div 10)) \<le> j" by blast
    with False j show ?thesis by (subst dec_nat.simps) simp
  qed
qed

section \<open>UTF-8\<close>

text \<open>
  \<open>bytes.decode('utf-8')\<close>, strict: overlong forms, surrogates and values above U+10FFFF are
  errors (the bytes of a sequence are checked against the ranges of the Unicode standard, table
  3-7); \<open>None\<close> is \<open>UnicodeDecodeError\<close>.
\<close>

definition cont :: "nat \<Rightarrow> bool" where
  "cont b \<longleftrightarrow> 128 \<le> b \<and> b < 192"

fun utf8 :: "nat list \<Rightarrow> pystr option" where
  "utf8 [] = Some []"
| "utf8 (a # r) =
     (if a < 128 then map_option ((#) a) (utf8 r)
      else (case r of
        [] \<Rightarrow> None
      | b # r2 \<Rightarrow>
        if 194 \<le> a \<and> a < 224 then
          (if cont b then map_option ((#) ((a - 192) * 64 + (b - 128))) (utf8 r2) else None)
        else (case r2 of
          [] \<Rightarrow> None
        | c # r3 \<Rightarrow>
          if 224 \<le> a \<and> a < 240 then
            (if cont b \<and> cont c \<and> (a = 224 \<longrightarrow> 160 \<le> b) \<and> (a = 237 \<longrightarrow> b < 160)
             then map_option ((#) (((a - 224) * 64 + (b - 128)) * 64 + (c - 128))) (utf8 r3)
             else None)
          else (case r3 of
            [] \<Rightarrow> None
          | d # r4 \<Rightarrow>
            if 240 \<le> a \<and> a < 245 \<and> cont b \<and> cont c \<and> cont d \<and> (a = 240 \<longrightarrow> 144 \<le> b)
               \<and> (a = 244 \<longrightarrow> b < 144)
            then map_option ((#) ((((a - 240) * 64 + (b - 128)) * 64 + (c - 128)) * 64 + (d - 128)))
                   (utf8 r4)
            else None))))"

definition utf8_decode :: "bytes \<Rightarrow> pystr option" where
  "utf8_decode b = utf8 (map unat b)"

lemma utf8_ascii: "(\<And>c. c \<in> set s \<Longrightarrow> c < 128) \<Longrightarrow> utf8 s = Some s"
  by (induction s) auto

lemma utf8_decode_ascii:
  assumes "\<And>c. c \<in> set s \<Longrightarrow> c < 128"
  shows "utf8_decode (ascii_bytes s) = Some s"
proof -
  have "map unat (ascii_bytes s) = s"
    using assms by (induction s) (force simp: ascii_bytes_def unat_of_nat)+
  with assms show ?thesis by (simp add: utf8_decode_def utf8_ascii)
qed

lemma ascii_bytes_inject:
  assumes "\<And>c. c \<in> set s \<Longrightarrow> c < 128" "\<And>c. c \<in> set t \<Longrightarrow> c < 128"
    and "ascii_bytes s = ascii_bytes t"
  shows "s = t"
  using assms by (metis option.inject utf8_decode_ascii)

section \<open>int on text\<close>

text \<open>
  \<open>int(s)\<close> for ASCII text: an optional sign, digits, single underscores between digits, blanks
  around it, at most 4300 digits. \<open>None\<close> is Python's \<open>ValueError\<close>.
\<close>

definition is_blank :: "nat \<Rightarrow> bool" where
  "is_blank c \<longleftrightarrow> c = 32 \<or> 9 \<le> c \<and> c \<le> 13"

definition py_int :: "pystr \<Rightarrow> int option" where
  "py_int s =
     (let t = rev (dropWhile is_blank (rev (dropWhile is_blank s)));
          neg = (take 1 t = str ''-'');
          u = (if neg \<or> take 1 t = str ''+'' then drop 1 t else t);
          groups = split_on 95 u;
          ds = concat groups
      in if [] \<in> set groups \<or> \<not> list_all is_digit ds \<or> 4300 < length ds then None
         else Some (if neg then - int (undec ds) else int (undec ds)))"

section \<open>White space\<close>

text \<open>\<open>str.split()\<close> and \<open>str.splitlines()\<close>.\<close>

definition is_space :: "nat \<Rightarrow> bool" where
  "is_space c \<longleftrightarrow> 9 \<le> c \<and> c \<le> 13 \<or> 28 \<le> c \<and> c \<le> 32 \<or> c \<in> {133, 160, 5760, 8232, 8233, 8239, 8287, 12288} \<or>
     8192 \<le> c \<and> c \<le> 8202"

fun split_space :: "pystr \<Rightarrow> pystr \<Rightarrow> pystr list" where
  "split_space word [] = (if word = [] then [] else [word])"
| "split_space word (c # cs) =
     (if is_space c then (if word = [] then split_space [] cs else word # split_space [] cs)
      else split_space (word @ [c]) cs)"

definition is_newline :: "nat \<Rightarrow> bool" where
  "is_newline c \<longleftrightarrow> 10 \<le> c \<and> c \<le> 13 \<or> 28 \<le> c \<and> c \<le> 30 \<or> c \<in> {133, 8232, 8233}"

fun split_lines :: "pystr \<Rightarrow> pystr \<Rightarrow> pystr list" where
  "split_lines line [] = (if line = [] then [] else [line])"
| "split_lines line (c # cs) =
     (if c = 13 \<and> take 1 cs = [10] then line # split_lines [] (tl cs)
      else if is_newline c then line # split_lines [] cs
      else split_lines (line @ [c]) cs)"

end
