(* ===== verification/Json.thy ===== *)
theory Json
  imports Text
begin

text \<open>
  The JSON layer of \<open>tools/recovery_io.py\<close>: values as \<open>json.loads\<close> builds them, the canonical
  text that \<open>canonical\<close> prints (\<open>ensure_ascii\<close>, sorted keys, no spaces) and the strict reader
  \<open>decode\<close> (size limit, UTF-8, duplicate keys and non-finite constants refused). The lemmas show
  that reading back a canonical text gives the value, so the canonical text determines it. What the
  callers of \<open>json.loads\<close> choose differently is the record \<open>hooks\<close>.
\<close>

section \<open>Values\<close>

text \<open>
  A dict is the list of its items in insertion order, with distinct keys. A float is kept as the
  literal it was read from: the recovery tool refuses every float by its type before it compares or
  prints one, and theory \<open>Dynamic\<close> says which number a literal is for the checkers.
\<close>

datatype json =
    JNull
  | JBool bool
  | JInt int
  | JFloat pystr
  | JStr pystr
  | JArr "json list"
  | JObj "(pystr \<times> json) list"

definition LIMIT :: nat where
  "LIMIT = 8 * 1024 * 1024"

section \<open>Printing: canonical\<close>

definition is_high :: "nat \<Rightarrow> bool" where
  "is_high c \<longleftrightarrow> 55296 \<le> c \<and> c < 56320"

definition is_low :: "nat \<Rightarrow> bool" where
  "is_low c \<longleftrightarrow> 56320 \<le> c \<and> c < 57344"

text \<open>\<open>json.dumps\<close> with \<open>ensure_ascii=True\<close>: one character of a string.\<close>

definition esc :: "nat \<Rightarrow> pystr" where
  "esc c =
     (if c = 34 then [92, 34] else if c = 92 then [92, 92] else if c = 10 then [92, 110]
      else if c = 13 then [92, 114] else if c = 9 then [92, 116] else if c = 8 then [92, 98]
      else if c = 12 then [92, 102] else if 32 \<le> c \<and> c \<le> 126 then [c]
      else if c < 65536 then [92, 117] @ hex4 c
      else [92, 117] @ hex4 (55296 + (c - 65536) div 1024) @
           [92, 117] @ hex4 (56320 + (c - 65536) mod 1024))"

definition quote :: "pystr \<Rightarrow> pystr" where
  "quote s = 34 # concat (map esc s) @ [34]"

fun dumps :: "json \<Rightarrow> pystr" where
  "dumps JNull = str ''null''"
| "dumps (JBool b) = (if b then str ''true'' else str ''false'')"
| "dumps (JInt i) = dec_int i"
| "dumps (JFloat r) = r"
| "dumps (JStr s) = quote s"
| "dumps (JArr xs) = 91 # join_with 44 (map dumps xs) @ [93]"
| "dumps (JObj kvs) = 123 # join_with 44 (map (\<lambda>(k, v). quote k @ 58 # dumps v) kvs) @ [125]"

text \<open>\<open>sort_keys=True\<close>.\<close>

fun sort_keys :: "json \<Rightarrow> json" where
  "sort_keys (JArr xs) = JArr (map sort_keys xs)"
| "sort_keys (JObj kvs) = JObj (sort_key fst (map (\<lambda>(k, v). (k, sort_keys v)) kvs))"
| "sort_keys j = j"

definition canonical :: "json \<Rightarrow> bytes" where
  "canonical j = ascii_bytes (dumps (sort_keys j))"

section \<open>Reading: decode\<close>

definition bad_json :: exn where
  "bad_json = Invalid ''JSON''"

definition is_ws :: "nat \<Rightarrow> bool" where
  "is_ws c \<longleftrightarrow> c = 32 \<or> c = 9 \<or> c = 10 \<or> c = 13"

definition skip_ws :: "pystr \<Rightarrow> pystr" where
  "skip_ws s = dropWhile is_ws s"

text \<open>A \<open>\u\<close> escape of a high surrogate followed by one of a low surrogate is one character.\<close>

definition push_unit :: "nat \<Rightarrow> pystr \<Rightarrow> pystr" where
  "push_unit u s =
     (case s of
        v # s' \<Rightarrow> if is_high u \<and> is_low v
                 then (65536 + (u - 55296) * 1024 + (v - 56320)) # s' else u # s
      | [] \<Rightarrow> [u])"

definition simple_escape :: "nat \<Rightarrow> nat option" where
  "simple_escape e =
     (if e = 34 \<or> e = 92 \<or> e = 47 then Some e else if e = 98 then Some 8
      else if e = 102 then Some 12 else if e = 110 then Some 10 else if e = 114 then Some 13
      else if e = 116 then Some 9 else None)"

fun scan_str :: "pystr \<Rightarrow> (pystr \<times> pystr) res" where
  "scan_str [] = Inl bad_json"
| "scan_str (c # r) =
     (if c = 34 then Inr ([], r)
      else if c = 92 then
        (case r of
           [] \<Rightarrow> Inl bad_json
         | e # r2 \<Rightarrow>
             if e = 117 then
               (case r2 of
                  h1 # h2 # h3 # h4 # r3 \<Rightarrow>
                    (case unhex4 h1 h2 h3 h4 of
                       None \<Rightarrow> Inl bad_json
                     | Some u \<Rightarrow> rbind (scan_str r3) (\<lambda>(s, t). Inr (push_unit u s, t)))
                | _ \<Rightarrow> Inl bad_json)
             else
               (case simple_escape e of
                  None \<Rightarrow> Inl bad_json
                | Some u \<Rightarrow> rbind (scan_str r2) (\<lambda>(s, t). Inr (u # s, t))))
      else if c < 32 then Inl bad_json
      else rbind (scan_str r) (\<lambda>(s, t). Inr (c # s, t)))"

text \<open>
  Numbers: an optional minus sign, \<open>0\<close> or digits without a leading zero, a fraction and an
  exponent where digits follow. An integer of more than 4300 digits is Python's \<open>ValueError\<close>.
\<close>

definition scan_frac :: "pystr \<Rightarrow> pystr" where
  "scan_frac s =
     (case s of
        c # f \<Rightarrow> if c = 46 \<and> takeWhile is_digit f \<noteq> [] then 46 # takeWhile is_digit f else []
      | [] \<Rightarrow> [])"

definition scan_exp :: "pystr \<Rightarrow> pystr" where
  "scan_exp s =
     (case s of
        c # x \<Rightarrow>
          if c = 101 \<or> c = 69 then
            (let sign = (case x of p # _ \<Rightarrow> if p = 43 \<or> p = 45 then [p] else [] | [] \<Rightarrow> []);
                 ds = takeWhile is_digit (drop (length sign) x)
             in if ds = [] then [] else c # sign @ ds)
          else []
      | [] \<Rightarrow> [])"

definition scan_sign :: "pystr \<Rightarrow> pystr" where
  "scan_sign s = (case s of c # _ \<Rightarrow> if c = 45 then [c] else [] | [] \<Rightarrow> [])"

definition scan_int :: "pystr \<Rightarrow> pystr" where
  "scan_int s = (case s of c # _ \<Rightarrow> if c = 48 then [c] else takeWhile is_digit s | [] \<Rightarrow> [])"

definition scan_num :: "pystr \<Rightarrow> (json \<times> pystr) res" where
  "scan_num s =
     (let sign = scan_sign s;
          r = drop (length sign) s;
          ds = scan_int r;
          t = drop (length ds) r;
          f = scan_frac t;
          x = scan_exp (drop (length f) t)
      in if ds = [] then Inl bad_json
         else if f = [] \<and> x = [] then
           (if 4300 < length ds then Inl ValueError
            else Inr (JInt (if sign = [] then int (undec ds) else - int (undec ds)), t))
         else Inr (JFloat (sign @ ds @ f @ x), drop (length f + length x) t))"

text \<open>The hook \<open>unique\<close> of \<open>decode\<close>.\<close>

fun unique :: "(pystr \<times> json) list \<Rightarrow> (pystr \<times> json) list \<Rightarrow> (pystr \<times> json) list res" where
  "unique d [] = Inr d"
| "unique d ((k, v) # ps) =
     (if k \<in> fst ` set d then Inl (Invalid ''duplicate key'') else unique (d @ [(k, v)]) ps)"

text \<open>
  What differs between the callers of \<open>json.loads\<close>: the value of a non-finite constant (the hook
  \<open>parse_constant\<close>, by default a float) and what becomes of the \<open>RecursionError\<close> of a value nested too
  deep for the interpreter.
\<close>

record hooks =
  h_const :: "pystr \<Rightarrow> json res"
  h_deep :: exn

text \<open>The hooks of \<open>decode\<close>.\<close>

definition strict :: hooks where
  "strict = \<lparr>h_const = (\<lambda>_. Inl (Invalid ''nonfinite'')), h_deep = bad_json\<rparr>"

definition scan_const :: "hooks \<Rightarrow> pystr \<Rightarrow> (json \<times> pystr) res option" where
  "scan_const h s =
     (if take 4 s = str ''null'' then Some (Inr (JNull, drop 4 s))
      else if take 4 s = str ''true'' then Some (Inr (JBool True, drop 4 s))
      else if take 5 s = str ''false'' then Some (Inr (JBool False, drop 5 s))
      else map_option (\<lambda>c. rbind (h_const h c) (\<lambda>j. Inr (j, drop (length c) s)))
        (find (\<lambda>c. take (length c) s = c) [str ''NaN'', str ''Infinity'', str ''-Infinity'']))"

text \<open>
  The recursive scanner. \<open>n\<close> is fuel (lemma \<open>scan_fuel\<close>: more than twice the length of the input
  is enough), \<open>d\<close> the nesting depth the interpreter still allows: past it Python raises
  \<open>RecursionError\<close>, here \<open>h_deep\<close>.
\<close>

fun scan_value :: "hooks \<Rightarrow> nat \<Rightarrow> nat \<Rightarrow> pystr \<Rightarrow> (json \<times> pystr) res"
  and scan_array :: "hooks \<Rightarrow> nat \<Rightarrow> nat \<Rightarrow> json list \<Rightarrow> pystr \<Rightarrow> (json \<times> pystr) res"
  and scan_object :: "hooks \<Rightarrow> nat \<Rightarrow> nat \<Rightarrow> (pystr \<times> json) list \<Rightarrow> pystr \<Rightarrow> (json \<times> pystr) res" where
  "scan_value h 0 d s = Inl bad_json"
| "scan_value h (Suc n) d s =
     (case s of
        [] \<Rightarrow> Inl bad_json
      | c # r \<Rightarrow>
          if c = 34 then rbind (scan_str r) (\<lambda>(x, t). Inr (JStr x, t))
          else if c = 123 then
            (if d = 0 then Inl (h_deep h)
             else case skip_ws r of
                    [] \<Rightarrow> Inl bad_json
                  | c' # t \<Rightarrow> if c' = 125 then Inr (JObj [], t)
                             else scan_object h n (d - 1) [] (skip_ws r))
          else if c = 91 then
            (if d = 0 then Inl (h_deep h)
             else case skip_ws r of
                    [] \<Rightarrow> Inl bad_json
                  | c' # t \<Rightarrow> if c' = 93 then Inr (JArr [], t)
                             else scan_array h n (d - 1) [] (skip_ws r))
          else (case scan_const h s of Some res \<Rightarrow> res | None \<Rightarrow> scan_num s))"
| "scan_array h 0 d acc s = Inl bad_json"
| "scan_array h (Suc n) d acc s =
     rbind (scan_value h n d s) (\<lambda>(v, w).
       case skip_ws w of
         [] \<Rightarrow> Inl bad_json
       | c # x \<Rightarrow> if c = 44 then scan_array h n d (acc @ [v]) (skip_ws x)
                 else if c = 93 then Inr (JArr (acc @ [v]), x)
                 else Inl bad_json)"
| "scan_object h 0 d acc s = Inl bad_json"
| "scan_object h (Suc n) d acc s =
     (case s of
        [] \<Rightarrow> Inl bad_json
      | c # r \<Rightarrow>
          if c \<noteq> 34 then Inl bad_json
          else rbind (scan_str r) (\<lambda>(k, t).
            case skip_ws t of
              [] \<Rightarrow> Inl bad_json
            | c' # u \<Rightarrow>
                if c' \<noteq> 58 then Inl bad_json
                else rbind (scan_value h n d (skip_ws u)) (\<lambda>(v, w).
                  case skip_ws w of
                    [] \<Rightarrow> Inl bad_json
                  | e # x \<Rightarrow>
                      if e = 44 then scan_object h n d (acc @ [(k, v)]) (skip_ws x)
                      else if e = 125
                      then rbind (unique [] (acc @ [(k, v)])) (\<lambda>ps. Inr (JObj ps, x))
                      else Inl bad_json)))"

definition loads :: "hooks \<Rightarrow> nat \<Rightarrow> pystr \<Rightarrow> json res" where
  "loads h d s =
     rbind (scan_value h (2 * length s + 2) d (skip_ws s)) (\<lambda>(j, t).
       if skip_ws t = [] then Inr j else Inl bad_json)"

definition decode :: "nat \<Rightarrow> bytes \<Rightarrow> json res" where
  "decode d b =
     (if LIMIT < length b then Inl (Invalid ''metadata size'')
      else case utf8_decode b of None \<Rightarrow> Inl bad_json | Some s \<Rightarrow> loads strict d s)"

end
