(* ===== verification/Json_Scan.thy ===== *)
theory Json_Scan
  imports Json
begin

text \<open>
  The scanner of the JSON layer: every successful scan consumes input, the fuel \<open>loads\<close> gives it
  is enough (more never changes the result), and scanning the printed text of a value, followed
  by a text that can follow a value, gives the value and that text.
\<close>

section \<open>Scans consume input; fuel\<close>

lemma length_skip_ws: "length (skip_ws s) \<le> length s"
  by (simp add: skip_ws_def length_dropWhile_le)

lemma scan_str_length: "scan_str s = Inr (x, t) \<Longrightarrow> length t < length s"
proof (induction s arbitrary: x t rule: scan_str.induct)
  case 1
  then show ?case by simp
next
  case (2 c r)
  from "2.prems" "2.IH" show ?case
    by (auto split: if_splits list.splits option.splits intro!: less_SucI)
qed

lemma take_str_length: "take n s = str k \<Longrightarrow> length k = n \<Longrightarrow> n \<le> length s"
  by (metis length_str length_take min.cobounded1 min_def)

lemma scan_const_length: "scan_const h s = Some (Inr (j, t)) \<Longrightarrow> length t < length s"
  by (auto simp: scan_const_def split: if_splits dest!: take_str_length)

lemma scan_int_length: "length (scan_int s) \<le> length s"
  by (auto simp: scan_int_def length_takeWhile_le split: list.splits)

lemma scan_num_length:
  assumes "scan_num s = Inr (j, t)"
  shows "length t < length s"
proof -
  define r where "r = drop (length (scan_sign s)) s"
  from assms have ds: "scan_int r \<noteq> []" and t: "length t \<le> length r - length (scan_int r)"
    by (auto simp: scan_num_def Let_def r_def [symmetric] split: if_splits)
  from ds have "0 < length (scan_int r)" by simp
  with t scan_int_length [of r] have "length t < length r" by linarith
  then show ?thesis by (simp add: r_def)
qed

lemma scan_length:
  shows "scan_value h n d s = Inr (j, w) \<Longrightarrow> length w < length s"
    and "scan_array h n d xs s = Inr (j, w) \<Longrightarrow> length w < length s"
    and "scan_object h n d kvs s = Inr (j, w) \<Longrightarrow> length w < length s"
proof (induction h n d s and h n d xs s and h n d kvs s arbitrary: j w and j w and j w
    rule: scan_value_scan_array_scan_object.induct)
  case (2 h n d s)
  show ?case
  proof (cases s)
    case Nil
    with "2.prems" show ?thesis by simp
  next
    case (Cons c r)
    have skip: "skip_ws r = y # ys \<Longrightarrow> length ys < length r" for y ys
      using length_skip_ws [of r] by simp
    have ob: "scan_object h n (d - Suc 0) [] (c' # t) = Inr (j, w) \<Longrightarrow> 0 < d \<Longrightarrow> c = 123 \<Longrightarrow>
        skip_ws r = c' # t \<Longrightarrow> c' \<noteq> 125 \<Longrightarrow> length w < length r" for c' t
      using "2.IH"(1) [of c r c' t j w] Cons length_skip_ws [of r] by simp
    have ar: "scan_array h n (d - Suc 0) [] (c' # t) = Inr (j, w) \<Longrightarrow> 0 < d \<Longrightarrow> c = 91 \<Longrightarrow>
        skip_ws r = c' # t \<Longrightarrow> c' \<noteq> 93 \<Longrightarrow> length w < length r" for c' t
      using "2.IH"(2) [of c r c' t j w] Cons length_skip_ws [of r] by simp
    show ?thesis
      using "2.prems" Cons
      by (auto split: if_splits list.splits option.splits
          dest: scan_str_length scan_const_length scan_num_length skip ob ar intro: less_SucI)
  qed
next
  case (4 h n d acc s)
  from "4.prems" obtain v w' where v: "scan_value h n d s = Inr (v, w')"
    by auto
  then have l: "length w' < length s" using "4.IH"(1) by blast
  have skip: "skip_ws w' = c # x \<Longrightarrow> length x < length w'" for c x
    using length_skip_ws [of w'] by simp
  have rec: "scan_array h n d (acc @ [v]) (skip_ws x) = Inr (j, w) \<Longrightarrow> skip_ws w' = 44 # x \<Longrightarrow>
      length w < length x" for x
    using "4.IH"(2) [of "(v, w')" v w' 44 x j w] v length_skip_ws [of x] by simp
  obtain c x where c: "skip_ws w' = c # x"
    using "4.prems" v by (auto split: list.splits)
  show ?case
    using "4.prems" v l c rec [of x] skip [OF c] by (auto split: if_splits)
next
  case (6 h n d acc s)
  show ?case
  proof (cases s)
    case Nil
    with "6.prems" show ?thesis by simp
  next
    case (Cons c r)
    with "6.prems" have c: "c = 34" by (simp split: if_splits)
    with "6.prems" Cons obtain k t where k: "scan_str r = Inr (k, t)" by auto
    with "6.prems" Cons c obtain u where u: "skip_ws t = 58 # u"
      by (auto split: list.splits if_splits)
    with "6.prems" Cons c k obtain v w' where v: "scan_value h n d (skip_ws u) = Inr (v, w')"
      by auto
    from k have "length t < length r" by (rule scan_str_length)
    moreover have "length u < length t" using u length_skip_ws [of t] by simp
    moreover have "length w' < length (skip_ws u)"
      using "6.IH"(1) [of c r "(k, t)" k t 58 u v w'] Cons c k u v by simp
    moreover have "length (skip_ws u) \<le> length u" by (rule length_skip_ws)
    ultimately have l: "length w' < length r" by simp
    have skip: "skip_ws w' = e # x \<Longrightarrow> length x < length w'" for e x
      using length_skip_ws [of w'] by simp
    have rec: "scan_object h n d (acc @ [(k, v)]) (skip_ws x) = Inr (j, w) \<Longrightarrow> skip_ws w' = 44 # x
        \<Longrightarrow> length w < length x" for x
      using "6.IH"(2) [of c r "(k, t)" k t 58 u "(v, w')" v w' 44 x j w] Cons c k u v
        length_skip_ws [of x] by simp
    obtain e x where e: "skip_ws w' = e # x"
      using "6.prems" Cons c k u v by (auto split: list.splits)
    show ?thesis
      using "6.prems" Cons c k u v l e rec [of x] skip [OF e] by (auto split: if_splits)
  qed
qed simp_all

text \<open>
  Enough fuel: one more unit never changes a scan whose fuel exceeds twice the length of its input.
\<close>

lemma scan_fuel_Suc:
  shows "2 * length s < n \<Longrightarrow> scan_value h (Suc n) d s = scan_value h n d s"
    and "2 * length s + 1 < n \<Longrightarrow> scan_array h (Suc n) d xs s = scan_array h n d xs s"
    and "2 * length s + 1 < n \<Longrightarrow> scan_object h (Suc n) d kvs s = scan_object h n d kvs s"
proof (induction h n d s and h n d xs s and h n d kvs s rule: scan_value_scan_array_scan_object.induct)
  case (2 h n d s)
  show ?case
  proof (cases s)
    case Nil
    then show ?thesis by simp
  next
    case (Cons c r)
    have l: "2 * length (skip_ws r) + 1 < n"
      using "2.prems" Cons length_skip_ws [of r] by simp
    have ob: "scan_object h (Suc n) (d - 1) [] (skip_ws r) = scan_object h n (d - 1) [] (skip_ws r)"
      if "d \<noteq> 0" "c = 123" "skip_ws r = c' # t" "c' \<noteq> 125" for c' t
      using "2.IH"(1) [of c r c' t] Cons that l by simp
    have ar: "scan_array h (Suc n) (d - 1) [] (skip_ws r) = scan_array h n (d - 1) [] (skip_ws r)"
      if "d \<noteq> 0" "c = 91" "skip_ws r = c' # t" "c' \<noteq> 93" for c' t
      using "2.IH"(2) [of c r c' t] Cons that l by simp
    show ?thesis
      unfolding scan_value.simps(2) Cons list.case
      by (intro if_cong refl; cases "skip_ws r") (use ob ar in simp_all)
  qed
next
  case (4 h n d acc s)
  have v: "scan_value h (Suc n) d s = scan_value h n d s"
    using "4.prems" by (intro "4.IH"(1)) simp
  have rec: "scan_array h (Suc n) d (acc @ [v]) (skip_ws x) = scan_array h n d (acc @ [v]) (skip_ws x)"
    if "scan_value h n d s = Inr (v, w)" "skip_ws w = 44 # x" for v w x
    using "4.IH"(2) [of "(v, w)" v w 44 x] that "4.prems" scan_length(1) [OF that(1)]
      length_skip_ws [of w] length_skip_ws [of x] by simp
  show ?case
    unfolding scan_array.simps(2) [of h "Suc n" d acc s] scan_array.simps(2) [of h n d acc s] v
    by (intro rbind_cong refl) (auto simp del: scan_array.simps simp: rec split: list.split)
next
  case (6 h n d acc s)
  show ?case
  proof (cases s)
    case Nil
    then show ?thesis by simp
  next
    case (Cons c r)
    have val: "scan_value h (Suc n) d (skip_ws u) = scan_value h n d (skip_ws u)"
      if "c = 34" "scan_str r = Inr (k, t)" "skip_ws t = 58 # u" for k t u
      using "6.IH"(1) [of c r "(k, t)" k t 58 u] Cons that "6.prems" scan_str_length [OF that(2)]
        length_skip_ws [of t] length_skip_ws [of u] by simp
    have rec: "scan_object h (Suc n) d (acc @ [(k, v)]) (skip_ws x)
        = scan_object h n d (acc @ [(k, v)]) (skip_ws x)"
      if "c = 34" "scan_str r = Inr (k, t)" "skip_ws t = 58 # u"
        "scan_value h n d (skip_ws u) = Inr (v, w)" "skip_ws w = 44 # x" for k t u v w x
      using "6.IH"(2) [of c r "(k, t)" k t 58 u "(v, w)" v w 44 x] Cons that "6.prems"
        scan_str_length [OF that(2)] scan_length(1) [OF that(4)]
        length_skip_ws [of t] length_skip_ws [of u] length_skip_ws [of w] length_skip_ws [of x]
      by simp
    show ?thesis
      unfolding Cons scan_object.simps(2) [of h "Suc n" d acc "c # r"] scan_object.simps(2) [of h n d acc "c # r"]
        list.case
      by (intro if_cong refl rbind_cong)
        (auto simp del: scan_object.simps scan_value.simps simp: val rec split: list.split
          intro!: rbind_cong)
  qed
qed simp_all

lemma scan_fuel:
  assumes "2 * length s < n" "2 * length s < m"
  shows "scan_value h n d s = scan_value h m d s"
proof -
  have "scan_value h (2 * length s + 1 + k) d s = scan_value h (2 * length s + 1) d s" for k
  proof (induction k)
    case (Suc k)
    have "scan_value h (Suc (2 * length s + 1 + k)) d s = scan_value h (2 * length s + 1 + k) d s"
      by (rule scan_fuel_Suc(1)) simp
    with Suc show ?case by (simp only: add_Suc_right)
  qed (simp only: add_0_right)
  from this [of "n - (2 * length s + 1)"] this [of "m - (2 * length s + 1)"] assms
  show ?thesis by simp
qed

section \<open>Values whose text reads back\<close>

text \<open>
  A string that \<open>decode\<close> can produce: code points of Unicode, and no high surrogate directly
  before a low one (two escapes would have been read as one character).
\<close>

fun no_pair :: "pystr \<Rightarrow> bool" where
  "no_pair (a # b # r) \<longleftrightarrow> \<not> (is_high a \<and> is_low b) \<and> no_pair (b # r)"
| "no_pair _ \<longleftrightarrow> True"

definition str_ok :: "pystr \<Rightarrow> bool" where
  "str_ok s \<longleftrightarrow> (\<forall>c\<in>set s. c < 1114112) \<and> no_pair s"

fun json_ok :: "json \<Rightarrow> bool" where
  "json_ok (JInt i) \<longleftrightarrow> length (dec_nat (nat \<bar>i\<bar>)) \<le> 4300"
| "json_ok (JFloat r) \<longleftrightarrow> False"
| "json_ok (JStr s) \<longleftrightarrow> str_ok s"
| "json_ok (JArr xs) \<longleftrightarrow> (\<forall>x\<in>set xs. json_ok x)"
| "json_ok (JObj kvs) \<longleftrightarrow> distinct (map fst kvs) \<and> (\<forall>(k, v)\<in>set kvs. str_ok k \<and> json_ok v)"
| "json_ok _ \<longleftrightarrow> True"

fun json_depth :: "json \<Rightarrow> nat" where
  "json_depth (JArr xs) = Suc (foldr max (map json_depth xs) 0)"
| "json_depth (JObj kvs) = Suc (foldr max (map (\<lambda>(k, v). json_depth v) kvs) 0)"
| "json_depth _ = 0"

lemma foldr_max_le: "foldr max ns (0::nat) \<le> d \<longleftrightarrow> (\<forall>n\<in>set ns. n \<le> d)"
  by (induction ns) auto

lemma no_pair_Cons: "no_pair (a # s) \<longleftrightarrow> no_pair s \<and> \<not> (s \<noteq> [] \<and> is_high a \<and> is_low (hd s))"
  by (cases s) auto

lemma str_ok_Cons: "str_ok (c # s) \<longleftrightarrow>
    c < 1114112 \<and> str_ok s \<and> \<not> (s \<noteq> [] \<and> is_high c \<and> is_low (hd s))"
  by (auto simp: str_ok_def no_pair_Cons)

lemma push_unit_other: "\<not> (s \<noteq> [] \<and> is_high u \<and> is_low (hd s)) \<Longrightarrow> push_unit u s = u # s"
  by (cases s) (auto simp: push_unit_def)

section \<open>Strings\<close>

lemma scan_str_unit:
  assumes "u < 65536"
  shows "scan_str (92 # 117 # hex4 u @ r) = rbind (scan_str r) (\<lambda>(s, t). Inr (push_unit u s, t))"
  using unhex4_hex4 [OF assms] by (simp add: hex4_def)

lemma scan_str_esc:
  assumes r: "scan_str r = Inr (s, t)" and ok: "str_ok (c # s)"
  shows "scan_str (esc c @ r) = Inr (c # s, t)"
proof (cases "c < 65536")
  case True
  have "push_unit c s = c # s"
    using ok by (intro push_unit_other) (simp add: str_ok_Cons)
  moreover have "scan_str (92 # 117 # hex4 c @ r) = rbind (scan_str r) (\<lambda>(s, t). Inr (push_unit c s, t))"
    using True by (rule scan_str_unit)
  ultimately have "scan_str (92 # 117 # hex4 c @ r) = Inr (c # s, t)"
    using r by (simp del: scan_str.simps)
  with True r show ?thesis
    by (auto simp: esc_def simple_escape_def simp del: scan_str.simps(2))
      (auto simp: simple_escape_def)
next
  case False
  define v where "v = c - 65536"
  have v: "v < 1048576" and c: "c = v + 65536"
    using False ok by (auto simp: v_def str_ok_Cons)
  define hi lo where "hi = 55296 + v div 1024" and "lo = 56320 + v mod 1024"
  have hi: "is_high hi" "hi < 65536"
    using v by (auto simp: hi_def is_high_def div_less_iff_less_mult)
  have lo: "is_low lo" "lo < 65536" "\<not> is_high lo"
    by (auto simp: lo_def is_low_def is_high_def)
  have "esc c = 92 # 117 # hex4 hi @ 92 # 117 # hex4 lo"
    using False by (simp add: esc_def hi_def lo_def v_def)
  moreover have "push_unit lo s = lo # s"
    using lo by (intro push_unit_other) simp
  moreover have "push_unit hi (lo # s) = c # s"
    using hi lo by (simp add: push_unit_def c) (simp add: hi_def lo_def)
  ultimately show ?thesis
    using r hi lo by (simp add: scan_str_unit del: scan_str.simps)
qed

lemma scan_str_quote: "str_ok s \<Longrightarrow> scan_str (concat (map esc s) @ 34 # t) = Inr (s, t)"
proof (induction s)
  case Nil
  then show ?case by simp
next
  case (Cons c s)
  then have "str_ok s" by (simp add: str_ok_Cons)
  with Cons.IH have "scan_str (concat (map esc s) @ 34 # t) = Inr (s, t)" by blast
  from scan_str_esc [OF this Cons.prems] show ?case by simp
qed

section \<open>Numbers\<close>

text \<open>What may follow a value in canonical text.\<close>

definition stops :: "pystr \<Rightarrow> bool" where
  "stops t \<longleftrightarrow> t = [] \<or> hd t = 44 \<or> hd t = 93 \<or> hd t = 125"

lemma stops_simps [simp]: "stops []" "stops (44 # t)" "stops (93 # t)" "stops (125 # t)"
  by (simp_all add: stops_def)

lemma stops_number:
  assumes "stops t"
  shows "takeWhile is_digit t = []" "scan_frac t = []" "scan_exp t = []"
  using assms
  by (cases t; auto simp: stops_def is_digit_def scan_frac_def scan_exp_def)+

lemma scan_int_dec:
  assumes "stops t"
  shows "scan_int (dec_nat n @ t) = dec_nat n"
proof (cases "n = 0")
  case True
  then show ?thesis by (simp add: scan_int_def)
next
  case False
  then obtain d ds where d: "dec_nat n = d # ds" "d \<noteq> 48"
    using hd_dec_nat [of n] by (cases "dec_nat n") auto
  have all: "x \<in> set (d # ds) \<Longrightarrow> is_digit x" for x
    using dec_nat_digits [of x n] d by simp
  have "takeWhile is_digit ((d # ds) @ t) = d # ds"
    using all stops_number(1) [OF assms] by (subst takeWhile_append2) auto
  with d show ?thesis by (simp add: scan_int_def)
qed

lemma scan_num_dec:
  assumes t: "stops t" and l: "length (dec_nat (nat \<bar>i\<bar>)) \<le> 4300"
  shows "scan_num (dec_int i @ t) = Inr (JInt i, t)"
proof -
  define n where "n = nat \<bar>i\<bar>"
  define sign :: pystr where "sign = (if i < 0 then [45] else [])"
  have eq: "dec_int i @ t = sign @ dec_nat n @ t"
    by (auto simp: dec_int_def sign_def n_def)
  have hd: "hd (dec_nat n) \<noteq> 45"
    using dec_nat_digits [of "hd (dec_nat n)" n] by (auto simp: is_digit_def)
  have sg: "scan_sign (dec_int i @ t) = sign"
    unfolding eq using hd by (cases "dec_nat n") (auto simp: scan_sign_def sign_def)
  have "sign = [] \<longleftrightarrow> 0 \<le> i" by (auto simp: sign_def)
  moreover have "drop (length sign) (dec_int i @ t) = dec_nat n @ t"
    unfolding eq by simp
  ultimately show ?thesis
    using l unfolding scan_num_def sg Let_def
    by (simp add: scan_int_dec [OF t] stops_number [OF t] n_def)
qed

section \<open>The round trip\<close>

lemma hd_dec_int: "\<exists>c r. dec_int i = c # r \<and> (c = 45 \<and> r \<noteq> [] \<and> is_digit (hd r) \<or> is_digit c)"
proof (cases "i < 0")
  case True
  then show ?thesis
    using dec_nat_digits [of "hd (dec_nat (nat (- i)))" "nat (- i)"] by (simp add: dec_int_def)
next
  case False
  then show ?thesis
    using dec_nat_digits [of "hd (dec_nat (nat i))" "nat i"]
    by (cases "dec_nat (nat i)") (auto simp: dec_int_def)
qed

lemma scan_const_dec: "scan_const h (dec_int i @ t) = None"
proof -
  obtain c r where i: "dec_int i = c # r" "c = 45 \<and> r \<noteq> [] \<and> is_digit (hd r) \<or> is_digit c"
    using hd_dec_int by blast
  then show ?thesis
    by (cases r) (auto simp: scan_const_def str_def is_digit_def numeral_eq_Suc)
qed

lemma dumps_Cons:
  assumes "json_ok j"
  obtains c r where "dumps j = c # r" "\<not> is_ws c" "c \<noteq> 93" "c \<noteq> 125"
proof -
  have "\<exists>c r. dumps j = c # r \<and> \<not> is_ws c \<and> c \<noteq> 93 \<and> c \<noteq> 125"
  proof (cases j)
    case (JInt i)
    then show ?thesis
      using hd_dec_int [of i] by (auto simp: is_ws_def is_digit_def)
  qed (use assms in \<open>auto simp: str_def is_ws_def quote_def\<close>)
  then show ?thesis using that by blast
qed

lemma skip_ws_dumps: "json_ok j \<Longrightarrow> skip_ws (dumps j @ t) = dumps j @ t"
  by (rule dumps_Cons [of j]) (auto simp: skip_ws_def)

lemma skip_ws_Cons [simp]: "\<not> is_ws c \<Longrightarrow> skip_ws (c # s) = c # s"
  by (simp add: skip_ws_def)

lemma is_ws_punct [simp]: "\<not> is_ws 34" "\<not> is_ws 44" "\<not> is_ws 58" "\<not> is_ws 91" "\<not> is_ws 93"
  "\<not> is_ws 123" "\<not> is_ws 125"
  by (simp_all add: is_ws_def)

definition reads :: "hooks \<Rightarrow> nat \<Rightarrow> json \<Rightarrow> bool" where
  "reads h d j \<longleftrightarrow> (\<forall>n t. 2 * length (dumps j @ t) < n \<longrightarrow> stops t \<longrightarrow>
     scan_value h n d (dumps j @ t) = Inr (j, t))"

lemma readsD:
  "reads h d j \<Longrightarrow> 2 * length (dumps j @ t) < n \<Longrightarrow> stops t \<Longrightarrow> scan_value h n d (dumps j @ t) = Inr (j, t)"
  by (simp add: reads_def)

lemma scan_array_dumps:
  assumes "xs \<noteq> []" and "\<And>x. x \<in> set xs \<Longrightarrow> reads h d x \<and> json_ok x"
    and "2 * length (join_with 44 (map dumps xs) @ 93 # t) + 1 < n"
  shows "scan_array h n d acc (join_with 44 (map dumps xs) @ 93 # t) = Inr (JArr (acc @ xs), t)"
  using assms
proof (induction xs arbitrary: acc n)
  case Nil
  then show ?case by simp
next
  case (Cons x ys)
  then obtain m where n: "n = Suc m" by (cases n) auto
  show ?case
  proof (cases ys)
    case Nil
    have "scan_value h m d (dumps x @ 93 # t) = Inr (x, 93 # t)"
      using Cons.prems n Nil by (auto simp: reads_def)
    then show ?thesis using n Nil by simp
  next
    case (Cons y zs)
    define u where "u = join_with 44 (map dumps ys) @ 93 # t"
    have "scan_value h m d (dumps x @ 44 # u) = Inr (x, 44 # u)"
      using Cons.prems n Cons by (auto simp: reads_def u_def)
    moreover have "skip_ws u = u"
      using skip_ws_dumps [of y] Cons.prems(2) [of y] Cons
      by (cases zs) (auto simp: u_def)
    moreover have "scan_array h m d (acc @ [x]) u = Inr (JArr ((acc @ [x]) @ ys), t)"
      unfolding u_def using Cons.prems n Cons by (intro Cons.IH) auto
    ultimately show ?thesis
      using n Cons by (simp add: u_def)
  qed
qed

lemma unique_distinct:
  "distinct (map fst (d @ kvs)) \<Longrightarrow> unique d kvs = Inr (d @ kvs)"
  by (induction d kvs rule: unique.induct) auto

definition member :: "pystr \<times> json \<Rightarrow> pystr" where
  "member kv = quote (fst kv) @ 58 # dumps (snd kv)"

lemma scan_object_dumps:
  assumes "kvs \<noteq> []"
    and "\<And>kv. kv \<in> set kvs \<Longrightarrow> reads h d (snd kv) \<and> json_ok (snd kv) \<and> str_ok (fst kv)"
    and "distinct (map fst (acc @ kvs))"
    and "2 * length (join_with 44 (map member kvs) @ 125 # t) + 1 < n"
  shows "scan_object h n d acc (join_with 44 (map member kvs) @ 125 # t) = Inr (JObj (acc @ kvs), t)"
  using assms
proof (induction kvs arbitrary: acc n)
  case Nil
  then show ?case by simp
next
  case (Cons kv ys)
  then obtain m where n: "n = Suc m" by (cases n) auto
  obtain k v where kv: "kv = (k, v)" by fastforce
  have k: "scan_str (concat (map esc k) @ 34 # r) = Inr (k, r)" for r
    using Cons.prems(2) [of kv] kv by (intro scan_str_quote) simp
  have ws: "skip_ws (dumps v @ r) = dumps v @ r" for r
    using Cons.prems(2) [of kv] kv by (intro skip_ws_dumps) simp
  show ?case
  proof (cases ys)
    case Nil
    have "scan_value h m d (dumps v @ 125 # t) = Inr (v, 125 # t)"
      using Cons.prems(2) [of kv] Cons.prems(4) n Nil kv by (intro readsD) (simp_all add: member_def)
    moreover have "unique [] (acc @ [(k, v)]) = Inr (acc @ [(k, v)])"
      using Cons.prems(3) Nil kv by (subst unique_distinct) auto
    ultimately show ?thesis
      using n Nil kv k ws by (simp add: member_def quote_def)
  next
    case (Cons y zs)
    define u where "u = join_with 44 (map member ys) @ 125 # t"
    have eq: "join_with 44 (map member (kv # ys)) @ 125 # t = member kv @ 44 # u"
      using Cons by (simp add: u_def)
    have "scan_value h m d (dumps v @ 44 # u) = Inr (v, 44 # u)"
      using Cons.prems(2) [of kv] Cons.prems(4) n kv unfolding eq
      by (intro readsD) (simp_all add: member_def)
    moreover have "skip_ws u = u"
      using Cons by (cases zs) (auto simp: u_def member_def quote_def)
    moreover have "scan_object h m d (acc @ [(k, v)]) u = Inr (JObj ((acc @ [(k, v)]) @ ys), t)"
      unfolding u_def using Cons.prems n kv Cons
      by (intro Cons.IH) (simp_all add: eq [unfolded Cons, simplified])
    ultimately show ?thesis
      using n kv k ws unfolding eq by (simp add: member_def quote_def)
  qed
qed

lemma reads_dumps: "json_ok j \<Longrightarrow> json_depth j \<le> d \<Longrightarrow> reads h d j"
proof (induction j arbitrary: d)
  case (JArr xs)
  then obtain e where d: "d = Suc e" by (cases d) auto
  have el: "x \<in> set xs \<Longrightarrow> reads h e x \<and> json_ok x" for x
    using JArr d by (auto simp: foldr_max_le)
  show ?case unfolding reads_def
  proof (intro allI impI)
    fix n t assume n: "2 * length (dumps (JArr xs) @ t) < n"
    then obtain m where m: "n = Suc m" by (cases n) auto
    show "scan_value h n d (dumps (JArr xs) @ t) = Inr (JArr xs, t)"
    proof (cases xs)
      case Nil
      then show ?thesis using m d by simp
    next
      case (Cons y ys)
      define u where "u = join_with 44 (map dumps xs) @ 93 # t"
      obtain c r where y: "dumps y = c # r" "\<not> is_ws c" "c \<noteq> 93"
        using dumps_Cons [of y thesis] el [of y] Cons by auto
      then obtain r' where u: "u = c # r'"
        using Cons by (cases ys) (auto simp: u_def)
      have eq: "dumps (JArr xs) @ t = 91 # u" by (simp add: u_def)
      have "2 * length u + 1 < m" using n m unfolding eq by simp
      then have "scan_array h m e [] u = Inr (JArr ([] @ xs), t)"
        unfolding u_def using el Cons by (intro scan_array_dumps) simp_all
      with eq show ?thesis
        using m d u y by simp
    qed
  qed
next
  case (JObj kvs)
  then obtain e where d: "d = Suc e" by (cases d) auto
  have el: "kv \<in> set kvs \<Longrightarrow> reads h e (snd kv) \<and> json_ok (snd kv) \<and> str_ok (fst kv)" for kv
    using JObj.prems d JObj.IH [of kv "snd kv" e] by (force simp: foldr_max_le snds.simps)
  have member: "map (\<lambda>(k, v). quote k @ 58 # dumps v) kvs = map member kvs"
    by (auto simp: member_def)
  show ?case unfolding reads_def
  proof (intro allI impI)
    fix n t assume n: "2 * length (dumps (JObj kvs) @ t) < n"
    then obtain m where m: "n = Suc m" by (cases n) auto
    show "scan_value h n d (dumps (JObj kvs) @ t) = Inr (JObj kvs, t)"
    proof (cases kvs)
      case Nil
      then show ?thesis using m d by simp
    next
      case (Cons y ys)
      define u where "u = join_with 44 (map member kvs) @ 125 # t"
      obtain r where u: "u = 34 # r"
        using Cons by (cases ys) (auto simp: u_def member_def quote_def)
      have eq: "dumps (JObj kvs) @ t = 123 # u" by (simp add: u_def member)
      have "2 * length u + 1 < m" using n m unfolding eq by simp
      then have "scan_object h m e [] u = Inr (JObj ([] @ kvs), t)"
        unfolding u_def using el Cons JObj.prems by (intro scan_object_dumps) simp_all
      with eq show ?thesis
        using m d u by simp
    qed
  qed
next
  case (JInt i)
  show ?case unfolding reads_def
  proof (intro allI impI)
    fix n t assume n: "2 * length (dumps (JInt i) @ t) < n" and t: "stops t"
    then obtain m where m: "n = Suc m" by (cases n) auto
    obtain c r where c: "dec_int i = c # r" "c = 45 \<or> is_digit c"
      using hd_dec_int [of i] by blast
    have "scan_num (dec_int i @ t) = Inr (JInt i, t)"
      using JInt.prems t by (intro scan_num_dec) simp_all
    with c scan_const_dec [of h i t] m show "scan_value h n d (dumps (JInt i) @ t) = Inr (JInt i, t)"
      by (auto simp: is_digit_def)
  qed
next
  case (JStr s)
  show ?case unfolding reads_def
  proof (intro allI impI)
    fix n t assume n: "2 * length (dumps (JStr s) @ t) < n"
    then obtain m where "n = Suc m" by (cases n) auto
    with JStr.prems show "scan_value h n d (dumps (JStr s) @ t) = Inr (JStr s, t)"
      by (simp add: quote_def scan_str_quote)
  qed
next
  case JNull
  show ?case unfolding reads_def
    by (intro allI impI, rename_tac n t, case_tac n) (auto simp: scan_const_def str_def)
next
  case (JBool b)
  show ?case unfolding reads_def
    by (intro allI impI, rename_tac n t, case_tac n) (auto simp: scan_const_def str_def)
next
  case (JFloat r)
  then show ?case by simp
qed

end
