(* ===== verification/Json_Roundtrip.thy ===== *)
theory Json_Roundtrip
  imports Json_Scan
begin

text \<open>
  The JSON layer as its callers see it: reading the canonical text of a value gives the value
  with its keys sorted, so the canonical text determines the value; and the exceptions \<open>decode\<close>
  can raise.
\<close>

lemma sort_keys_ok: "json_ok j \<Longrightarrow> json_ok (sort_keys j)"
proof (induction j)
  case (JObj kvs)
  have "map fst (map (\<lambda>(k, v). (k, sort_keys v)) kvs) = map fst kvs" by auto
  with JObj.prems have "distinct (map fst (map (\<lambda>(k, v). (k, sort_keys v)) kvs))"
    by (simp only: json_ok.simps)
  then have "distinct (map fst (sort_key fst (map (\<lambda>(k, v). (k, sort_keys v)) kvs)))"
    by (simp only: distinct_map_sort)
  then show ?case using JObj by (force simp: snds.simps)
qed auto

lemma sort_keys_depth: "json_depth (sort_keys j) = json_depth j"
proof -
  have "json_depth (sort_keys j) \<le> d \<longleftrightarrow> json_depth j \<le> d" for d
  proof (induction j arbitrary: d)
    case (JArr xs)
    then show ?case by (cases d) (auto simp: foldr_max_le)
  next
    case (JObj kvs)
    then show ?case by (cases d) (force simp: foldr_max_le snds.simps)+
  qed auto
  then show ?thesis by (metis le_antisym order_refl)
qed

section \<open>Canonical text is ASCII\<close>

lemma set_join_withD: "c \<in> set (join_with sep ps) \<Longrightarrow> c = sep \<or> (\<exists>p\<in>set ps. c \<in> set p)"
  by (induction sep ps rule: join_with.induct) auto

lemma hex_digit_ascii: "n < 16 \<Longrightarrow> hex_digit n < 128"
  by (simp add: hex_digit_def)

lemma hex4_ascii: "c \<in> set (hex4 n) \<Longrightarrow> c < 128"
  unfolding hex4_def by (elim insertE emptyE | simp only: list.set | simp add: hex_digit_ascii)+

lemma esc_ascii: "c \<in> set (esc d) \<Longrightarrow> c < 128"
  by (auto simp: esc_def dest: hex4_ascii split: if_splits)

lemma quote_ascii: "c \<in> set (quote s) \<Longrightarrow> c < 128"
  by (auto simp: quote_def dest: esc_ascii)

lemma dec_int_ascii: "c \<in> set (dec_int i) \<Longrightarrow> c < 128"
  by (auto simp: dec_int_def is_digit_def dest!: dec_nat_digits split: if_splits)

lemma dumps_ascii: "json_ok j \<Longrightarrow> c \<in> set (dumps j) \<Longrightarrow> c < 128"
proof (induction j arbitrary: c)
  case (JArr xs)
  then show ?case
    by (auto dest!: set_join_withD)
next
  case (JObj kvs)
  have "c < 128" if "kv \<in> set kvs" "c \<in> set (quote (fst kv) @ 58 # dumps (snd kv))" for kv
    using that JObj.prems JObj.IH [of kv "snd kv" c] quote_ascii by (force simp: snds.simps)
  moreover have "c = 123 \<or> c = 125 \<or> c = 44 \<or>
      (\<exists>kv\<in>set kvs. c \<in> set (quote (fst kv) @ 58 # dumps (snd kv)))"
    using JObj.prems(2) by (force simp: case_prod_beta dest!: set_join_withD)
  ultimately show ?case by auto
qed (auto simp: str_def dest: quote_ascii dec_int_ascii split: if_splits)

section \<open>Reading canonical text\<close>

theorem loads_dumps: "json_ok j \<Longrightarrow> json_depth j \<le> d \<Longrightarrow> loads h d (dumps j) = Inr j"
proof -
  assume j: "json_ok j" "json_depth j \<le> d"
  have "scan_value h (2 * length (dumps j) + 2) d (dumps j @ []) = Inr (j, [])"
    using reads_dumps [OF j] by (rule readsD) simp_all
  then show ?thesis
    using skip_ws_dumps [OF j(1), of "[]"] by (simp add: loads_def skip_ws_def)
qed

lemma utf8_canonical: "json_ok j \<Longrightarrow> utf8_decode (canonical j) = Some (dumps (sort_keys j))"
  unfolding canonical_def by (rule utf8_decode_ascii) (rule dumps_ascii, rule sort_keys_ok)

theorem decode_canonical:
  assumes "json_ok j" "json_depth j \<le> d" "length (canonical j) \<le> LIMIT"
  shows "decode d (canonical j) = Inr (sort_keys j)"
  using assms utf8_canonical [OF assms(1)]
  by (simp add: decode_def loads_dumps sort_keys_ok sort_keys_depth)

theorem canonical_inject:
  assumes "json_ok i" "json_ok j" "canonical i = canonical j"
  shows "sort_keys i = sort_keys j"
proof -
  have eq: "dumps (sort_keys i) = dumps (sort_keys j)"
    using utf8_canonical [OF assms(1)] utf8_canonical [OF assms(2)] assms(3) by simp
  define d where "d = max (json_depth i) (json_depth j)"
  have "loads strict d (dumps (sort_keys i)) = Inr (sort_keys i)"
    using assms(1) by (intro loads_dumps) (auto simp: sort_keys_ok sort_keys_depth d_def)
  moreover have "loads strict d (dumps (sort_keys j)) = Inr (sort_keys j)"
    using assms(2) by (intro loads_dumps) (auto simp: sort_keys_ok sort_keys_depth d_def)
  ultimately show ?thesis unfolding eq by simp
qed

section \<open>What decode can raise\<close>

lemma raises_scan_str: "raises is_invalid (scan_str s)"
proof (induction s rule: scan_str.induct)
  case 1
  show ?case by (simp add: bad_json_def raises_rules)
next
  case (2 c r)
  show ?case
    unfolding scan_str.simps by (intro raises_rules "2.IH") (simp_all add: bad_json_def)
qed

lemma raises_unique: "raises is_invalid (unique d ps)"
  by (induction d ps rule: unique.induct) (auto intro!: raises_rules)

lemma is_value_error_invalid: "is_invalid e \<Longrightarrow> is_value_error e"
  by (cases e) auto

lemma raises_scan_leaf [raises_rules]:
  "raises is_value_error (scan_str s)" "raises is_value_error (unique d ps)"
  "raises is_value_error (scan_num s)"
  using raises_mono [OF raises_scan_str is_value_error_invalid]
    raises_mono [OF raises_unique is_value_error_invalid]
  by (auto simp: scan_num_def Let_def bad_json_def intro!: raises_rules)

text \<open>What the hooks may raise besides.\<close>

definition hooks_raise :: "hooks \<Rightarrow> (exn \<Rightarrow> bool) \<Rightarrow> bool" where
  "hooks_raise h P \<longleftrightarrow> (\<forall>e. is_value_error e \<longrightarrow> P e) \<and> P (h_deep h) \<and> (\<forall>c. raises P (h_const h c))"

lemma hooks_raise_strict: "hooks_raise strict is_value_error"
  by (simp add: hooks_raise_def strict_def bad_json_def raises_def)

lemma raises_scan_const: "hooks_raise h P \<Longrightarrow> scan_const h s = Some r \<Longrightarrow> raises P r"
  by (auto simp: scan_const_def hooks_raise_def raises_def rbind_eq_Inl_iff split: if_splits)

lemma raises_scan_parts:
  "hooks_raise h P \<Longrightarrow> raises P (scan_str s)" "hooks_raise h P \<Longrightarrow> raises P (unique d ps)"
  "hooks_raise h P \<Longrightarrow> raises P (scan_num s)"
  using raises_mono [OF raises_scan_leaf(1)] raises_mono [OF raises_scan_leaf(2)] raises_mono [OF raises_scan_leaf(3)]
  unfolding hooks_raise_def by blast+

lemma hooks_raise_simps: "hooks_raise h P \<Longrightarrow> P bad_json" "hooks_raise h P \<Longrightarrow> P (h_deep h)"
  by (simp_all add: hooks_raise_def bad_json_def)

lemma raises_scan:
  shows "hooks_raise h P \<Longrightarrow> raises P (scan_value h n d s)"
    and "hooks_raise h P \<Longrightarrow> raises P (scan_array h n d xs s)"
    and "hooks_raise h P \<Longrightarrow> raises P (scan_object h n d kvs s)"
proof (induction h n d s and h n d xs s and h n d kvs s rule: scan_value_scan_array_scan_object.induct)
  case (2 h n d s)
  show ?case
    unfolding scan_value.simps
    by (intro raises_rules "2.IH"; (assumption | rule raises_scan_parts [OF "2.prems"] hooks_raise_simps [OF "2.prems"] "2.prems"
      | erule raises_scan_const [OF "2.prems"] | simp))
next
  case (4 h n d acc s)
  show ?case
    unfolding scan_array.simps
    by (intro raises_rules "4.IH"; (assumption | rule hooks_raise_simps [OF "4.prems"] "4.prems" | simp))
next
  case (6 h n d acc s)
  show ?case
    unfolding scan_object.simps
    by (intro raises_rules "6.IH"; (assumption | rule raises_scan_parts [OF "6.prems"] hooks_raise_simps [OF "6.prems"] "6.prems" | simp))
qed (auto intro: raises_rules hooks_raise_simps)

lemma raises_loads: "hooks_raise h P \<Longrightarrow> raises P (loads h d s)"
  unfolding loads_def
  by (intro raises_rules raises_scan; (assumption | erule hooks_raise_simps))

theorem raises_decode: "raises is_value_error (decode d b)"
  unfolding decode_def
  by (intro raises_rules raises_loads hooks_raise_strict) (simp_all add: bad_json_def)

end
