(* ===== verification/Checks.thy ===== *)
theory Checks
  imports Json_Roundtrip
begin

text \<open>
  The field checks of \<open>tools/recovery_io.py\<close>: \<open>fields\<close>, \<open>integer\<close>, \<open>digest\<close>, \<open>ident\<close> and
  \<open>relative\<close>, on JSON values of any type. A check returns the value it has accepted, as the source
  does, at its Python type (an \<open>int\<close>, a \<open>str\<close>). Subscripting a dict can raise \<open>KeyError\<close>, and
  subscripting anything else by a string raises \<open>TypeError\<close>; the lemmas on \<open>raises\<close> show where
  neither can happen.
\<close>

section \<open>Dict access\<close>

definition getitem :: "json \<Rightarrow> string \<Rightarrow> json res" where
  "getitem d k =
     (case d of
        JObj kvs \<Rightarrow> (case map_of kvs (str k) of None \<Rightarrow> Inl KeyError | Some v \<Rightarrow> Inr v)
      | _ \<Rightarrow> Inl TypeError)"

definition item :: "json \<Rightarrow> string \<Rightarrow> (json \<Rightarrow> 'a res) \<Rightarrow> 'a res" where
  "item d k f = rbind (getitem d k) f"

definition dict_fields :: "json \<Rightarrow> string list \<Rightarrow> unit res" where
  "dict_fields d ks =
     ensure (case d of JObj kvs \<Rightarrow> fst ` set kvs = str ` set ks | _ \<Rightarrow> False) (Invalid ''schema'')"

lemma dict_fields_getitem:
  "dict_fields d ks = Inr u \<Longrightarrow> k \<in> set ks \<Longrightarrow> \<exists>v. getitem d k = Inr v"
proof -
  assume "dict_fields d ks = Inr u" and k: "k \<in> set ks"
  then obtain kvs where d: "d = JObj kvs" and eq: "fst ` set kvs = str ` set ks"
    by (auto simp: dict_fields_def split: json.splits)
  from eq k have "str k \<in> fst ` set kvs" by simp
  then obtain v where "map_of kvs (str k) = Some v"
    by (metis domIff dom_map_of_conv_image_fst not_Some_eq)
  with d show ?thesis by (simp add: getitem_def)
qed

lemma item_eq_Inr [simp]: "item d k f = Inr x \<longleftrightarrow> (\<exists>v. getitem d k = Inr v \<and> f v = Inr x)"
  by (simp add: item_def)

text \<open>Subscripting after a schema check cannot fail, so only what follows can raise.\<close>

lemma raises_item:
  "dict_fields d ks = Inr u \<Longrightarrow> k \<in> set ks \<Longrightarrow> (\<And>v. getitem d k = Inr v \<Longrightarrow> raises P (f v)) \<Longrightarrow>
   raises P (item d k f)"
  using dict_fields_getitem [of d ks u k] by (auto simp: item_def)

section \<open>integer, digest, ident\<close>

definition integer :: "json \<Rightarrow> int \<Rightarrow> int \<Rightarrow> int res" where
  "integer n low high =
     (case n of
        JInt i \<Rightarrow> if low \<le> i \<and> i \<le> high then Inr i else Inl (Invalid ''integer'')
      | _ \<Rightarrow> Inl (Invalid ''integer''))"

definition INT_MAX :: int where
  "INT_MAX = 2 ^ 63 - 1"

definition is_digest :: "pystr \<Rightarrow> bool" where
  "is_digest s \<longleftrightarrow> length s = 64 \<and> list_all is_hex s"

definition digest :: "json \<Rightarrow> pystr res" where
  "digest j = (case j of JStr s \<Rightarrow> if is_digest s then Inr s else Inl (Invalid ''digest'')
                       | _ \<Rightarrow> Inl (Invalid ''digest''))"

definition is_ident :: "pystr \<Rightarrow> bool" where
  "is_ident s \<longleftrightarrow>
     (case s of
        [] \<Rightarrow> False
      | c # r \<Rightarrow> is_alnum c \<and> length r \<le> 95 \<and>
                 list_all (\<lambda>x. is_alnum x \<or> x = 46 \<or> x = 95 \<or> x = 45) r)"

definition ident :: "json \<Rightarrow> pystr res" where
  "ident j = (case j of JStr s \<Rightarrow> if is_ident s then Inr s else Inl (Invalid ''identifier'')
                      | _ \<Rightarrow> Inl (Invalid ''identifier''))"

lemma integer_eq_Inr [simp]: "integer n low high = Inr i \<longleftrightarrow> n = JInt i \<and> low \<le> i \<and> i \<le> high"
  by (auto simp: integer_def split: json.splits)

lemma digest_eq_Inr [simp]: "digest j = Inr s \<longleftrightarrow> j = JStr s \<and> is_digest s"
  by (auto simp: digest_def split: json.splits)

lemma ident_eq_Inr [simp]: "ident j = Inr s \<longleftrightarrow> j = JStr s \<and> is_ident s"
  by (auto simp: ident_def split: json.splits)

section \<open>relative\<close>

definition is_component :: "pystr \<Rightarrow> bool" where
  "is_component p \<longleftrightarrow> p \<noteq> str ''.'' \<and> p \<noteq> str ''..'' \<and> 1 \<le> length p \<and> length p \<le> 160 \<and>
     list_all (\<lambda>c. is_alnum c \<or> c = 95 \<or> c = 46 \<or> c = 43 \<or> c = 64 \<or> c = 45) p"

definition is_relative :: "pystr \<Rightarrow> bool" where
  "is_relative s \<longleftrightarrow> s \<noteq> [] \<and> length s \<le> 1024 \<and> 92 \<notin> set s \<and> 0 \<notin> set s \<and>
     length (split_on 47 s) \<le> 32 \<and> list_all is_component (split_on 47 s)"

definition relative :: "json \<Rightarrow> pystr res" where
  "relative j =
     (case j of
        JStr s \<Rightarrow>
          if s = [] \<or> 1024 < length s \<or> 92 \<in> set s \<or> 0 \<in> set s then Inl (Invalid ''path'')
          else if 32 < length (split_on 47 s) \<or> \<not> list_all is_component (split_on 47 s)
            then Inl (Invalid ''path traversal/encoding'')
          else Inr s
      | _ \<Rightarrow> Inl (Invalid ''path''))"

lemma relative_eq_Inr [simp]: "relative j = Inr s \<longleftrightarrow> j = JStr s \<and> is_relative s"
  by (auto simp: relative_def is_relative_def split: json.splits)

section \<open>Exceptions of the checks\<close>

lemma raises_dict_fields [raises_rules]: "raises is_invalid (dict_fields d ks)"
  by (simp add: dict_fields_def raises_ensure)

lemma raises_integer [raises_rules]: "raises is_invalid (integer n low high)"
  by (auto simp: integer_def raises_def split: json.splits)

lemma raises_digest [raises_rules]: "raises is_invalid (digest j)"
  by (auto simp: digest_def raises_def split: json.splits)

lemma raises_ident [raises_rules]: "raises is_invalid (ident j)"
  by (auto simp: ident_def raises_def split: json.splits)

lemma raises_relative [raises_rules]: "raises is_invalid (relative j)"
  by (auto simp: relative_def raises_def split: json.splits)

section \<open>What accepted paths look like\<close>

text \<open>
  The path a caller resolves component by component: no component is empty, \<open>.\<close> or \<open>..\<close>, none
  contains a slash, a backslash or a NUL, and the path does not start with a slash.
\<close>

definition confined :: "pystr \<Rightarrow> bool" where
  "confined p \<longleftrightarrow> p \<noteq> [] \<and> hd p \<noteq> 47 \<and>
     (\<forall>c\<in>set (split_on 47 p). c \<noteq> [] \<and> c \<noteq> str ''.'' \<and> c \<noteq> str ''..'' \<and>
        47 \<notin> set c \<and> 92 \<notin> set c \<and> 0 \<notin> set c)"

lemma component_chars: "is_component p \<Longrightarrow> c \<in> set p \<Longrightarrow> 43 \<le> c \<and> c < 128 \<and> c \<noteq> 47 \<and> c \<noteq> 92"
  by (auto simp: is_component_def list_all_iff is_alnum_def is_lower_def is_upper_def is_digit_def)

lemma relative_ascii:
  assumes "is_relative p" "c \<in> set p"
  shows "c < 128"
proof -
  have "set p = set (join_with 47 (split_on 47 p))" by simp
  with assms(2) have "c = 47 \<or> (\<exists>q\<in>set (split_on 47 p). c \<in> set q)"
    by (metis set_join_withD)
  then show ?thesis
    using assms(1) by (auto simp: is_relative_def list_all_iff dest: component_chars)
qed

lemma relative_confined: "is_relative p \<Longrightarrow> confined p"
proof -
  assume p: "is_relative p"
  have "hd p \<noteq> 47"
  proof
    assume "hd p = 47"
    with p obtain q where "p = 47 # q" by (cases p) (auto simp: is_relative_def)
    then have "[] \<in> set (split_on 47 p)" by simp
    with p show False by (auto simp: is_relative_def list_all_iff is_component_def)
  qed
  moreover have "c \<noteq> [] \<and> c \<noteq> str ''.'' \<and> c \<noteq> str ''..'' \<and> 47 \<notin> set c \<and> 92 \<notin> set c \<and> 0 \<notin> set c"
    if "c \<in> set (split_on 47 p)" for c
  proof -
    from p that have c: "is_component c" by (auto simp: is_relative_def list_all_iff)
    then have "c \<noteq> [] \<and> c \<noteq> str ''.'' \<and> c \<noteq> str ''..''" by (auto simp: is_component_def)
    with component_chars [OF c] show ?thesis by fastforce
  qed
  ultimately show ?thesis using p by (simp add: confined_def is_relative_def)
qed

end
