(* ===== verification/Manifest.thy ===== *)
theory Manifest
  imports Checks
begin

text \<open>
  The recovery manifest of \<open>tools/nia_recovery.py\<close>: extended attributes, directory attributes,
  objects and the manifest itself, with \<open>validate_xattrs\<close>, \<open>validate_directory_attributes\<close> and
  \<open>validate_manifest\<close>. The checks run on JSON values; each returns the typed value it has
  accepted (where the source's check returns \<open>None\<close>, or for \<open>validate_manifest\<close> the total size,
  the typed value is what later code reads from the same dict).
\<close>

section \<open>Constants and data\<close>

definition CHUNK :: int where "CHUNK = 65536"
definition MAX_CHUNKS :: int where "MAX_CHUNKS = 65536"
definition MAX_OBJECTS :: nat where "MAX_OBJECTS = 16384"
definition MAX_TOTAL :: int where "MAX_TOTAL = CHUNK * MAX_CHUNKS"

definition KINDS :: "pystr list" where
  "KINDS = map str [''managed-file'', ''catalog'', ''checkpoint'', ''journal'', ''audit'']"

record attributes =
  a_mode :: int
  a_uid :: int
  a_gid :: int
  a_xattrs :: "(pystr \<times> pystr) list"

record entry =
  e_path :: pystr
  e_kind :: pystr
  e_mode :: int
  e_uid :: int
  e_gid :: int
  e_xattrs :: "(pystr \<times> pystr) list"
  e_size :: int
  e_sha256 :: pystr
  e_chunks :: "pystr list"

record manifest =
  m_node :: pystr
  m_cohort :: pystr
  m_generation :: int
  m_trust_epoch :: int
  m_catalog_path :: pystr
  m_checkpoint_path :: pystr
  m_pending :: "pystr list"
  m_root_attributes :: attributes
  m_directories :: "(pystr \<times> attributes) list"
  m_objects :: "entry list"

section \<open>Extended attributes\<close>

definition is_xattr_name :: "pystr \<Rightarrow> bool" where
  "is_xattr_name s \<longleftrightarrow> 1 \<le> length s \<and> length s \<le> 255 \<and>
     list_all (\<lambda>c. is_alnum c \<or> c = 95 \<or> c = 46 \<or> c = 45) s"

definition is_xattr_value :: "pystr \<Rightarrow> bool" where
  "is_xattr_value s \<longleftrightarrow> even (length s) \<and> list_all is_hex s"

definition xattr_name :: "json \<Rightarrow> pystr res" where
  "xattr_name j = (case j of JStr s \<Rightarrow> if is_xattr_name s then Inr s else Inl (Invalid ''xattr name'')
                           | _ \<Rightarrow> Inl (Invalid ''xattr name''))"

definition xattr_value :: "json \<Rightarrow> pystr res" where
  "xattr_value j = (case j of JStr s \<Rightarrow> if is_xattr_value s then Inr s else Inl (Invalid ''xattr value'')
                            | _ \<Rightarrow> Inl (Invalid ''xattr value''))"

fun xattr_loop :: "nat \<Rightarrow> json list \<Rightarrow> (pystr \<times> pystr) list res" where
  "xattr_loop tot [] = Inr []"
| "xattr_loop tot (a # as) =
     rbind (dict_fields a [''name'', ''value'']) (\<lambda>_.
     item a ''name'' (\<lambda>jn. rbind (xattr_name jn) (\<lambda>n.
     item a ''value'' (\<lambda>jv. rbind (xattr_value jv) (\<lambda>v.
     rbind (ensure (tot + length v div 2 \<le> 131072) (Invalid ''xattr bytes'')) (\<lambda>_.
     rbind (xattr_loop (tot + length v div 2) as) (\<lambda>xs.
     Inr ((n, v) # xs))))))))"

definition validate_xattrs :: "json \<Rightarrow> (pystr \<times> pystr) list res" where
  "validate_xattrs attrs =
     (case attrs of
        JArr as \<Rightarrow>
          if 256 < length as then Inl (Invalid ''xattr count'')
          else rbind (xattr_loop 0 as) (\<lambda>xs.
            rbind (ensure (map fst xs = sorted_set (map fst xs)) (Invalid ''duplicate/unsorted xattrs''))
              (\<lambda>_. Inr xs))
      | _ \<Rightarrow> Inl (Invalid ''xattr count''))"

section \<open>Directory attributes\<close>

definition validate_directory_attributes :: "json \<Rightarrow> attributes res" where
  "validate_directory_attributes d =
     rbind (dict_fields d [''mode'', ''uid'', ''gid'', ''xattrs'']) (\<lambda>_.
     item d ''mode'' (\<lambda>j. rbind (integer j 0 4095) (\<lambda>mode.
     item d ''uid'' (\<lambda>j. rbind (integer j 0 (2 ^ 32 - 1)) (\<lambda>uid.
     item d ''gid'' (\<lambda>j. rbind (integer j 0 (2 ^ 32 - 1)) (\<lambda>gid.
     item d ''xattrs'' (\<lambda>j. rbind (validate_xattrs j) (\<lambda>xs.
     Inr \<lparr>a_mode = mode, a_uid = uid, a_gid = gid, a_xattrs = xs\<rparr>)))))))))"

section \<open>Objects\<close>

text \<open>The part of the object loop that looks at one object only.\<close>

definition object_kind :: "json \<Rightarrow> pystr res" where
  "object_kind j =
     (case j of
        JStr s \<Rightarrow> if s \<in> set KINDS then Inr s else Inl (Invalid ''duplicate path/state class'')
      | _ \<Rightarrow> Inl (Invalid ''duplicate path/state class''))"

definition chunk_list :: "json \<Rightarrow> int \<Rightarrow> pystr list res" where
  "chunk_list j sz =
     (case j of
        JArr cs \<Rightarrow>
          if int (length cs) \<noteq> (sz + CHUNK - 1) div CHUNK then Inl (Invalid ''chunk coverage'')
          else for_each digest cs
      | _ \<Rightarrow> Inl (Invalid ''chunk coverage''))"

definition check_object :: "pystr list \<Rightarrow> json \<Rightarrow> entry res" where
  "check_object seen i =
     rbind (dict_fields i [''path'', ''kind'', ''mode'', ''uid'', ''gid'', ''xattrs'', ''size'',
                      ''sha256'', ''chunks'']) (\<lambda>_.
     item i ''path'' (\<lambda>j. rbind (relative j) (\<lambda>p.
     rbind (ensure (p \<notin> set seen) (Invalid ''duplicate path/state class'')) (\<lambda>_.
     item i ''kind'' (\<lambda>j. rbind (object_kind j) (\<lambda>kind.
     item i ''mode'' (\<lambda>j. rbind (integer j 0 511) (\<lambda>mode.
     item i ''uid'' (\<lambda>j. rbind (integer j 0 (2 ^ 32 - 1)) (\<lambda>uid.
     item i ''gid'' (\<lambda>j. rbind (integer j 0 (2 ^ 32 - 1)) (\<lambda>gid.
     item i ''xattrs'' (\<lambda>j. rbind (validate_xattrs j) (\<lambda>xs.
     item i ''size'' (\<lambda>j. rbind (integer j 0 MAX_TOTAL) (\<lambda>sz.
     item i ''sha256'' (\<lambda>j. rbind (digest j) (\<lambda>h.
     item i ''chunks'' (\<lambda>j. rbind (chunk_list j sz) (\<lambda>cs.
     Inr \<lparr>e_path = p, e_kind = kind, e_mode = mode, e_uid = uid, e_gid = gid, e_xattrs = xs,
          e_size = sz, e_sha256 = h, e_chunks = cs\<rparr>))))))))))))))))))))"

text \<open>
  The object loop: \<open>acc\<close> holds the dict \<open>objects\<close> in insertion order, \<open>tot\<close> and \<open>chunks\<close> the
  running sums, checked after every object.
\<close>

fun object_loop :: "entry list \<Rightarrow> int \<Rightarrow> int \<Rightarrow> json list \<Rightarrow> (entry list \<times> int) res" where
  "object_loop acc tot chunks [] = Inr (acc, tot)"
| "object_loop acc tot chunks (i # is) =
     rbind (check_object (map e_path acc) i) (\<lambda>e.
     let tot' = tot + e_size e; chunks' = chunks + int (length (e_chunks e)) in
     rbind (ensure (tot' \<le> MAX_TOTAL \<and> chunks' \<le> MAX_CHUNKS) (Invalid ''cohort size'')) (\<lambda>_.
     object_loop (acc @ [e]) tot' chunks' is))"

section \<open>The manifest\<close>

definition check_directory :: "json \<Rightarrow> (pystr \<times> attributes) res" where
  "check_directory d =
     rbind (dict_fields d [''path'', ''attributes'']) (\<lambda>_.
     item d ''path'' (\<lambda>j. rbind (relative j) (\<lambda>p.
     item d ''attributes'' (\<lambda>j. rbind (validate_directory_attributes j) (\<lambda>a.
     Inr (p, a))))))"

fun as_str :: "json \<Rightarrow> pystr option" where
  "as_str (JStr s) = Some s"
| "as_str _ = None"

definition check_pending :: "json \<Rightarrow> pystr list res" where
  "check_pending j =
     (case j of
        JArr js \<Rightarrow>
          if 4096 < length js \<or> (\<exists>x\<in>set js. as_str x = None)
             \<or> map (the \<circ> as_str) js \<noteq> sorted_set (map (the \<circ> as_str) js)
          then Inl (Invalid ''pending set'')
          else for_each ident js
      | _ \<Rightarrow> Inl (Invalid ''pending set''))"

definition the_list :: "json \<Rightarrow> (nat \<Rightarrow> bool) \<Rightarrow> string \<Rightarrow> json list res" where
  "the_list j ok msg =
     (case j of JArr js \<Rightarrow> if ok (length js) then Inr js else Inl (Invalid msg)
              | _ \<Rightarrow> Inl (Invalid msg))"

text \<open>\<open>'/'.join(path.split('/')[:n])\<close> for \<open>n\<close> in \<open>range(1, len(path.split('/')))\<close>.\<close>

definition ancestors :: "pystr \<Rightarrow> pystr list" where
  "ancestors p = map (\<lambda>n. join_with 47 (take n (split_on 47 p))) [1..<length (split_on 47 p)]"

definition has_kind :: "entry list \<Rightarrow> pystr \<Rightarrow> string \<Rightarrow> bool" where
  "has_kind es p kind \<longleftrightarrow> (\<exists>e\<in>set es. e_path e = p \<and> e_kind e = str kind)"

text \<open>The checks across objects and directories, after both loops.\<close>

definition check_closure :: "pystr list \<Rightarrow> entry list \<Rightarrow> pystr \<Rightarrow> pystr \<Rightarrow> unit res" where
  "check_closure dirs es catalog checkpoint =
     (let objects = map e_path es in
      rbind (ensure (objects = sort objects) (Invalid ''noncanonical object order'')) (\<lambda>_.
      rbind (ensure (set dirs \<inter> set objects = {}) (Invalid ''file/directory collision'')) (\<lambda>_.
      rbind (ensure (\<forall>p\<in>set (objects @ dirs). \<forall>a\<in>set (ancestors p). a \<in> set dirs)
               (Invalid ''missing ancestor directory'')) (\<lambda>_.
      rbind (ensure (\<forall>p\<in>set objects. \<forall>a\<in>set (ancestors p). a \<notin> set objects)
               (Invalid ''file ancestor collision'')) (\<lambda>_.
      rbind (ensure (has_kind es catalog ''catalog'') (Invalid ''mandatory state absent'')) (\<lambda>_.
      rbind (ensure (has_kind es checkpoint ''checkpoint'') (Invalid ''mandatory state absent'')) (\<lambda>_.
      ensure (\<exists>e\<in>set es. e_kind e = str ''journal'') (Invalid ''journal closure absent''))))))))"

definition check_format :: "json \<Rightarrow> string \<Rightarrow> string \<Rightarrow> unit res" where
  "check_format j v msg = ensure (j = JStr (str v)) (Invalid msg)"

definition validate_manifest :: "json \<Rightarrow> (manifest \<times> int) res" where
  "validate_manifest m =
     rbind (dict_fields m [''format'', ''node'', ''cohort'', ''generation'', ''trust_epoch'',
                      ''catalog_path'', ''checkpoint_path'', ''pending'', ''root_attributes'',
                      ''directories'', ''objects'']) (\<lambda>_.
     item m ''format'' (\<lambda>j. rbind (check_format j ''nia-recovery-manifest-v1'' ''manifest version'') (\<lambda>_.
     item m ''node'' (\<lambda>j. rbind (ident j) (\<lambda>node.
     item m ''cohort'' (\<lambda>j. rbind (digest j) (\<lambda>cohort.
     item m ''generation'' (\<lambda>j. rbind (integer j 1 INT_MAX) (\<lambda>generation.
     item m ''trust_epoch'' (\<lambda>j. rbind (integer j 1 INT_MAX) (\<lambda>trust_epoch.
     item m ''catalog_path'' (\<lambda>j. rbind (relative j) (\<lambda>catalog.
     item m ''checkpoint_path'' (\<lambda>j. rbind (relative j) (\<lambda>checkpoint.
     item m ''pending'' (\<lambda>j. rbind (check_pending j) (\<lambda>pending.
     item m ''objects'' (\<lambda>j. rbind (the_list j (\<lambda>n. 1 \<le> n \<and> n \<le> MAX_OBJECTS) ''object count'') (\<lambda>objs.
     item m ''root_attributes'' (\<lambda>j. rbind (validate_directory_attributes j) (\<lambda>root.
     item m ''directories'' (\<lambda>j. rbind (the_list j (\<lambda>n. n \<le> MAX_OBJECTS) ''directory count'') (\<lambda>ds.
     rbind (for_each check_directory ds) (\<lambda>dirs.
     rbind (ensure (map fst dirs = sorted_set (map fst dirs)) (Invalid ''duplicate/unsorted directories'')) (\<lambda>_.
     rbind (object_loop [] 0 0 objs) (\<lambda>(es, tot).
     rbind (check_closure (map fst dirs) es catalog checkpoint) (\<lambda>_.
     Inr (\<lparr>m_node = node, m_cohort = cohort, m_generation = generation, m_trust_epoch = trust_epoch,
           m_catalog_path = catalog, m_checkpoint_path = checkpoint, m_pending = pending,
           m_root_attributes = root, m_directories = dirs, m_objects = es\<rparr>, tot))))))))))))))))))))))))))))"

section \<open>When the single-value checks succeed\<close>

lemma xattr_name_eq_Inr [simp]: "xattr_name j = Inr s \<longleftrightarrow> j = JStr s \<and> is_xattr_name s"
  by (auto simp: xattr_name_def split: json.splits)

lemma xattr_value_eq_Inr [simp]: "xattr_value j = Inr s \<longleftrightarrow> j = JStr s \<and> is_xattr_value s"
  by (auto simp: xattr_value_def split: json.splits)

lemma object_kind_eq_Inr [simp]: "object_kind j = Inr s \<longleftrightarrow> j = JStr s \<and> s \<in> set KINDS"
  by (auto simp: object_kind_def split: json.splits)

lemma the_list_eq_Inr [simp]: "the_list j ok msg = Inr js \<longleftrightarrow> j = JArr js \<and> ok (length js)"
  by (auto simp: the_list_def split: json.splits)

lemma check_format_eq_Inr [simp]: "check_format j v msg = Inr u \<longleftrightarrow> j = JStr (str v)"
  by (simp add: check_format_def)

lemma for_each_strings:
  assumes f: "\<And>j s. f j = Inr s \<longleftrightarrow> j = JStr s \<and> P s"
  shows "for_each f js = Inr ss \<longleftrightarrow> js = map JStr ss \<and> list_all P ss"
proof (induction js arbitrary: ss)
  case Nil
  then show ?case by (cases ss) simp_all
next
  case (Cons j js)
  show ?case
    by (cases ss) (use Cons.IH f in \<open>auto\<close>)
qed

lemmas for_each_digest [simp] = for_each_strings [of digest is_digest, OF digest_eq_Inr]
  and for_each_ident [simp] = for_each_strings [of ident is_ident, OF ident_eq_Inr]

lemma chunk_list_eq_Inr [simp]:
  "chunk_list j sz = Inr cs \<longleftrightarrow> j = JArr (map JStr cs) \<and> list_all is_digest cs \<and>
     int (length cs) = (sz + CHUNK - 1) div CHUNK"
  by (auto simp: chunk_list_def split: json.splits)

lemma map_the_as_str [simp]: "map (the \<circ> as_str) (map JStr xs) = xs"
  by (induction xs) auto

lemma check_pending_eq_Inr [simp]:
  "check_pending j = Inr ps \<longleftrightarrow> j = JArr (map JStr ps) \<and> length ps \<le> 4096 \<and>
     sorted ps \<and> distinct ps \<and> list_all is_ident ps"
  using map_the_as_str [of ps] sorted_set_eq_iff [of ps]
  by (auto simp: check_pending_def simp del: map_map split: json.splits)

end
