(* ===== verification/Manifest_Spec.thy ===== *)
theory Manifest_Spec
  imports Manifest
begin

text \<open>
  What \<open>validate_manifest\<close> promises: the exceptions it can raise, the specification \<open>manifest_ok\<close>
  of an accepted manifest, that acceptance implies it, and the JSON value a manifest is written as.
  Theory \<open>Manifest_Canonical\<close> shows that acceptance is exactly the specification.
\<close>

section \<open>Exceptions\<close>

lemma raises_xattr_name [raises_rules]: "raises is_invalid (xattr_name j)"
  by (auto simp: xattr_name_def raises_def split: json.splits)

lemma raises_xattr_value [raises_rules]: "raises is_invalid (xattr_value j)"
  by (auto simp: xattr_value_def raises_def split: json.splits)

lemma raises_xattr_loop [raises_rules]: "raises is_invalid (xattr_loop tot as)"
  by (induction tot as rule: xattr_loop.induct; unfold xattr_loop.simps;
      (rule raises_rules | assumption | (rule raises_item, assumption, simp) | simp)+)

lemma raises_validate_xattrs [raises_rules]: "raises is_invalid (validate_xattrs j)"
  unfolding validate_xattrs_def
  by (cases j; simp only: json.case; (rule raises_rules | simp)+)

lemma raises_validate_directory_attributes [raises_rules]:
  "raises is_invalid (validate_directory_attributes d)"
  unfolding validate_directory_attributes_def
  by (rule raises_rules | (rule raises_item, assumption, simp) | simp)+

lemma raises_object_kind [raises_rules]: "raises is_invalid (object_kind j)"
  by (auto simp: object_kind_def raises_def split: json.splits)

lemma raises_chunk_list [raises_rules]: "raises is_invalid (chunk_list j sz)"
  unfolding chunk_list_def by (cases j; simp only: json.case; (rule raises_rules | simp)+)

lemma raises_check_object [raises_rules]: "raises is_invalid (check_object seen i)"
  unfolding check_object_def
  by (rule raises_rules | (rule raises_item, assumption, simp) | simp)+

lemma raises_object_loop [raises_rules]: "raises is_invalid (object_loop acc tot chunks is)"
  by (induction acc tot chunks "is" rule: object_loop.induct; unfold object_loop.simps Let_def;
      (rule raises_rules | assumption | simp)+)

lemma raises_check_directory [raises_rules]: "raises is_invalid (check_directory d)"
  unfolding check_directory_def
  by (rule raises_rules | (rule raises_item, assumption, simp) | simp)+

lemma raises_check_pending [raises_rules]: "raises is_invalid (check_pending j)"
  unfolding check_pending_def by (cases j; simp only: json.case; (rule raises_rules | simp)+)

lemma raises_the_list [raises_rules]: "raises is_invalid (the_list j ok msg)"
  by (auto simp: the_list_def raises_def split: json.splits)

lemma raises_check_closure [raises_rules]: "raises is_invalid (check_closure dirs es c k)"
  unfolding check_closure_def Let_def by (rule raises_rules | simp)+

lemma raises_check_format [raises_rules]: "raises is_invalid (check_format j v msg)"
  unfolding check_format_def by (rule raises_rules | simp)+

lemma raises_validate_manifest [raises_rules]: "raises is_invalid (validate_manifest m)"
  unfolding validate_manifest_def
  by (rule raises_rules | (rule raises_item, assumption, simp) | simp)+

section \<open>The specification of a manifest\<close>

definition xattrs_ok :: "(pystr \<times> pystr) list \<Rightarrow> bool" where
  "xattrs_ok xs \<longleftrightarrow> length xs \<le> 256 \<and> (\<forall>(n, v)\<in>set xs. is_xattr_name n \<and> is_xattr_value v) \<and>
     (\<Sum>(n, v)\<leftarrow>xs. length v div 2) \<le> 131072 \<and> sorted (map fst xs) \<and> distinct (map fst xs)"

definition attributes_ok :: "attributes \<Rightarrow> bool" where
  "attributes_ok a \<longleftrightarrow> 0 \<le> a_mode a \<and> a_mode a \<le> 4095 \<and> 0 \<le> a_uid a \<and> a_uid a \<le> 2 ^ 32 - 1 \<and>
     0 \<le> a_gid a \<and> a_gid a \<le> 2 ^ 32 - 1 \<and> xattrs_ok (a_xattrs a)"

definition entry_ok :: "entry \<Rightarrow> bool" where
  "entry_ok e \<longleftrightarrow> is_relative (e_path e) \<and> e_kind e \<in> set KINDS \<and>
     0 \<le> e_mode e \<and> e_mode e \<le> 511 \<and> 0 \<le> e_uid e \<and> e_uid e \<le> 2 ^ 32 - 1 \<and>
     0 \<le> e_gid e \<and> e_gid e \<le> 2 ^ 32 - 1 \<and> xattrs_ok (e_xattrs e) \<and>
     0 \<le> e_size e \<and> e_size e \<le> MAX_TOTAL \<and> is_digest (e_sha256 e) \<and>
     int (length (e_chunks e)) = (e_size e + CHUNK - 1) div CHUNK \<and> list_all is_digest (e_chunks e)"

definition total_size :: "entry list \<Rightarrow> int" where
  "total_size es = (\<Sum>e\<leftarrow>es. e_size e)"

definition total_chunks :: "entry list \<Rightarrow> int" where
  "total_chunks es = (\<Sum>e\<leftarrow>es. int (length (e_chunks e)))"

text \<open>
  The tree a manifest describes: the listed paths are distinct, every proper ancestor of a listed
  path is a listed directory, and no file is an ancestor of a file.
\<close>

definition tree_ok :: "pystr list \<Rightarrow> pystr list \<Rightarrow> bool" where
  "tree_ok dirs files \<longleftrightarrow> sorted dirs \<and> distinct dirs \<and> sorted files \<and> distinct files \<and>
     set dirs \<inter> set files = {} \<and> (\<forall>p\<in>set files \<union> set dirs. set (ancestors p) \<subseteq> set dirs)"

definition manifest_ok :: "manifest \<Rightarrow> bool" where
  "manifest_ok m \<longleftrightarrow> is_ident (m_node m) \<and> is_digest (m_cohort m) \<and>
     1 \<le> m_generation m \<and> m_generation m \<le> INT_MAX \<and> 1 \<le> m_trust_epoch m \<and> m_trust_epoch m \<le> INT_MAX \<and>
     is_relative (m_catalog_path m) \<and> is_relative (m_checkpoint_path m) \<and>
     length (m_pending m) \<le> 4096 \<and> list_all is_ident (m_pending m) \<and>
     sorted (m_pending m) \<and> distinct (m_pending m) \<and>
     attributes_ok (m_root_attributes m) \<and>
     length (m_directories m) \<le> MAX_OBJECTS \<and>
     (\<forall>(p, a)\<in>set (m_directories m). is_relative p \<and> attributes_ok a) \<and>
     1 \<le> length (m_objects m) \<and> length (m_objects m) \<le> MAX_OBJECTS \<and>
     list_all entry_ok (m_objects m) \<and>
     total_size (m_objects m) \<le> MAX_TOTAL \<and> total_chunks (m_objects m) \<le> MAX_CHUNKS \<and>
     tree_ok (map fst (m_directories m)) (map e_path (m_objects m)) \<and>
     has_kind (m_objects m) (m_catalog_path m) ''catalog'' \<and>
     has_kind (m_objects m) (m_checkpoint_path m) ''checkpoint'' \<and>
     (\<exists>e\<in>set (m_objects m). e_kind e = str ''journal'')"

section \<open>Accepted manifests satisfy the specification\<close>

named_theorems accepts \<open>what a successful check says of its value\<close>

lemma xattr_loop_ok:
  "xattr_loop tot as = Inr xs \<Longrightarrow> length xs = length as \<and>
     (\<forall>(n, v)\<in>set xs. is_xattr_name n \<and> is_xattr_value v) \<and>
     (tot \<le> 131072 \<longrightarrow> tot + (\<Sum>(n, v)\<leftarrow>xs. length v div 2) \<le> 131072)"
proof (induction as arbitrary: tot xs)
  case (Cons a as)
  from Cons.prems obtain n v ys where
    nv: "is_xattr_name n" "is_xattr_value v" and xs: "xs = (n, v) # ys"
    and le: "tot + length v div 2 \<le> 131072"
    and ys: "xattr_loop (tot + length v div 2) as = Inr ys"
    by auto
  from Cons.IH [OF ys] nv le show ?case by (simp add: xs)
qed simp

lemma validate_xattrs_ok [accepts]: "validate_xattrs j = Inr xs \<Longrightarrow> xattrs_ok xs"
  by (auto simp: validate_xattrs_def xattrs_ok_def sorted_set_eq_iff dest!: xattr_loop_ok
      split: json.splits if_splits)

lemma validate_directory_attributes_ok [accepts]:
  "validate_directory_attributes j = Inr a \<Longrightarrow> attributes_ok a"
  by (auto simp: validate_directory_attributes_def attributes_ok_def dest: accepts)

lemma check_object_ok [accepts]:
  "check_object seen j = Inr e \<Longrightarrow> entry_ok e \<and> e_path e \<notin> set seen"
  by (auto simp: check_object_def entry_ok_def dest: accepts)

lemma object_loop_ok:
  "object_loop acc tot chunks js = Inr (es, t) \<Longrightarrow> distinct (map e_path acc) \<Longrightarrow>
   \<exists>new. es = acc @ new \<and> length new = length js \<and> list_all entry_ok new \<and>
     distinct (map e_path (acc @ new)) \<and> t = tot + total_size new \<and>
     (tot \<le> MAX_TOTAL \<longrightarrow> chunks \<le> MAX_CHUNKS \<longrightarrow>
        tot + total_size new \<le> MAX_TOTAL \<and> chunks + total_chunks new \<le> MAX_CHUNKS)"
proof (induction acc tot chunks js rule: object_loop.induct)
  case (1 acc tot chunks)
  then show ?case by (simp add: total_size_def total_chunks_def)
next
  case (2 acc tot chunks j js)
  from "2.prems"(1) obtain e where e: "check_object (map e_path acc) j = Inr e"
    and le: "tot + e_size e \<le> MAX_TOTAL" "chunks + int (length (e_chunks e)) \<le> MAX_CHUNKS"
    and rec: "object_loop (acc @ [e]) (tot + e_size e) (chunks + int (length (e_chunks e))) js = Inr (es, t)"
    by (auto simp: Let_def)
  from check_object_ok [OF e] "2.prems"(2) have d: "distinct (map e_path (acc @ [e]))" by simp
  from "2.IH" [OF e refl refl _ rec d] le obtain new where
    "es = (acc @ [e]) @ new" "length new = length js" "list_all entry_ok new"
    "distinct (map e_path ((acc @ [e]) @ new))" "t = tot + e_size e + total_size new"
    "tot + e_size e + total_size new \<le> MAX_TOTAL"
    "chunks + int (length (e_chunks e)) + total_chunks new \<le> MAX_CHUNKS"
    by auto
  then show ?case
    using check_object_ok [OF e]
    by (intro exI [of _ "e # new"]) (simp add: total_size_def total_chunks_def)
qed

lemma check_directory_ok [accepts]:
  "check_directory d = Inr (p, a) \<Longrightarrow> is_relative p \<and> attributes_ok a"
  by (auto simp: check_directory_def dest: accepts)

lemma check_directories_ok:
  "for_each check_directory ds = Inr dirs \<Longrightarrow>
     length dirs = length ds \<and> (\<forall>(p, a)\<in>set dirs. is_relative p \<and> attributes_ok a)"
proof (induction ds arbitrary: dirs)
  case (Cons d ds)
  from Cons.prems obtain p a ps where "dirs = (p, a) # ps" "is_relative p" "attributes_ok a"
    "for_each check_directory ds = Inr ps"
    by (auto dest: accepts)
  with Cons.IH show ?case by auto
qed simp

lemma check_closure_ok:
  assumes "check_closure dirs es c k = Inr u" "sorted dirs" "distinct dirs" "distinct (map e_path es)"
  shows "tree_ok dirs (map e_path es) \<and> has_kind es c ''catalog'' \<and> has_kind es k ''checkpoint'' \<and>
    (\<exists>e\<in>set es. e_kind e = str ''journal'')"
proof -
  from assms(1) have "map e_path es = sort (map e_path es)"
    by (auto simp: check_closure_def Let_def)
  then have "sorted (map e_path es)" by (metis sorted_sort)
  with assms show ?thesis
    by (auto simp: check_closure_def Let_def tree_ok_def)
qed

theorem validate_manifest_sound:
  assumes "validate_manifest j = Inr (m, t)"
  shows "manifest_ok m \<and> t = total_size (m_objects m)"
proof -
  from assms obtain ds objs u where
    pending: "length (m_pending m) \<le> 4096" "sorted (m_pending m)" "distinct (m_pending m)"
      "list_all is_ident (m_pending m)"
    and ids: "is_ident (m_node m)" "is_digest (m_cohort m)"
      "1 \<le> m_generation m" "m_generation m \<le> INT_MAX" "1 \<le> m_trust_epoch m" "m_trust_epoch m \<le> INT_MAX"
      "is_relative (m_catalog_path m)" "is_relative (m_checkpoint_path m)"
    and root: "attributes_ok (m_root_attributes m)"
    and objs: "1 \<le> length objs" "length objs \<le> MAX_OBJECTS" "length ds \<le> MAX_OBJECTS"
    and dirs: "for_each check_directory ds = Inr (m_directories m)"
      "map fst (m_directories m) = sorted_set (map fst (m_directories m))"
    and loop: "object_loop [] 0 0 objs = Inr (m_objects m, t)"
    and closure: "check_closure (map fst (m_directories m)) (m_objects m) (m_catalog_path m)
      (m_checkpoint_path m) = Inr u"
    by (auto simp: validate_manifest_def dest: validate_directory_attributes_ok)
  from dirs(2) have sd: "sorted (map fst (m_directories m))" "distinct (map fst (m_directories m))"
    by (simp_all add: sorted_set_eq_iff)
  from object_loop_ok [OF loop] have es: "length (m_objects m) = length objs"
    "list_all entry_ok (m_objects m)" "distinct (map e_path (m_objects m))"
    "t = total_size (m_objects m)"
    "total_size (m_objects m) \<le> MAX_TOTAL" "total_chunks (m_objects m) \<le> MAX_CHUNKS"
    by (auto simp: MAX_TOTAL_def MAX_CHUNKS_def CHUNK_def)
  from check_closure_ok [OF closure sd es(3)] pending sd
    check_directories_ok [OF dirs(1)] ids root objs es
  show ?thesis by (simp add: manifest_ok_def)
qed

section \<open>A manifest written out\<close>

text \<open>
  The dicts that \<open>export\<close>, \<open>directory_attributes\<close> and \<open>read_xattrs\<close> build, as JSON values.
\<close>

fun xattr_json :: "pystr \<times> pystr \<Rightarrow> json" where
  "xattr_json (n, v) = JObj [(str ''name'', JStr n), (str ''value'', JStr v)]"

definition attributes_json :: "attributes \<Rightarrow> json" where
  "attributes_json a = JObj [(str ''mode'', JInt (a_mode a)), (str ''uid'', JInt (a_uid a)),
     (str ''gid'', JInt (a_gid a)), (str ''xattrs'', JArr (map xattr_json (a_xattrs a)))]"

definition entry_json :: "entry \<Rightarrow> json" where
  "entry_json e = JObj [(str ''path'', JStr (e_path e)), (str ''kind'', JStr (e_kind e)),
     (str ''mode'', JInt (e_mode e)), (str ''uid'', JInt (e_uid e)), (str ''gid'', JInt (e_gid e)),
     (str ''xattrs'', JArr (map xattr_json (e_xattrs e))), (str ''size'', JInt (e_size e)),
     (str ''sha256'', JStr (e_sha256 e)), (str ''chunks'', JArr (map JStr (e_chunks e)))]"

fun directory_json :: "pystr \<times> attributes \<Rightarrow> json" where
  "directory_json (p, a) = JObj [(str ''path'', JStr p), (str ''attributes'', attributes_json a)]"

definition manifest_json :: "manifest \<Rightarrow> json" where
  "manifest_json m = JObj [(str ''node'', JStr (m_node m)), (str ''cohort'', JStr (m_cohort m)),
     (str ''generation'', JInt (m_generation m)), (str ''trust_epoch'', JInt (m_trust_epoch m)),
     (str ''catalog_path'', JStr (m_catalog_path m)),
     (str ''checkpoint_path'', JStr (m_checkpoint_path m)),
     (str ''pending'', JArr (map JStr (m_pending m))),
     (str ''format'', JStr (str ''nia-recovery-manifest-v1'')),
     (str ''objects'', JArr (map entry_json (m_objects m))),
     (str ''root_attributes'', attributes_json (m_root_attributes m)),
     (str ''directories'', JArr (map directory_json (m_directories m)))]"

lemma total_size_nonneg: "\<forall>e\<in>set es. entry_ok e \<Longrightarrow> 0 \<le> total_size es"
  by (auto simp: total_size_def entry_ok_def intro!: sum_list_nonneg)

lemma total_chunks_nonneg: "0 \<le> total_chunks es"
  by (auto simp: total_chunks_def intro!: sum_list_nonneg)

end
