(* ===== verification/Sha256.thy ===== *)
theory Sha256
  imports Text
begin

unbundle bit_operations_syntax

text \<open>
  SHA-256 as \<open>hashlib.sha256(b).hexdigest()\<close> computes it (FIPS 180-4): padding, the message
  schedule, the compression function on 32-bit words and the lower-case hexadecimal digest. The
  program hashes incrementally with \<open>h.update\<close>; the digest is that of the concatenation.
\<close>

type_synonym w32 = "32 word"
type_synonym chaining = "w32 \<times> w32 \<times> w32 \<times> w32 \<times> w32 \<times> w32 \<times> w32 \<times> w32"

text \<open>
  The constants as the standard defines them: the first 32 bits of the fractional parts of the cube
  roots of the first 64 primes, and of the square roots of the first 8. \<open>root_bits k n b\<close> is the
  largest \<open>x < 2 ^ b\<close> with \<open>x ^ k \<le> n\<close>, found bit by bit; reading it as a 32-bit word drops the
  integer part.
\<close>

fun root_bits :: "nat \<Rightarrow> nat \<Rightarrow> nat \<Rightarrow> nat" where
  "root_bits k n 0 = 0"
| "root_bits k n (Suc b) =
     (let x = 2 * root_bits k (n div 2 ^ k) b in if (x + 1) ^ k \<le> n then x + 1 else x)"

definition small_prime :: "nat \<Rightarrow> bool" where
  "small_prime n \<longleftrightarrow> list_all (\<lambda>d. n mod d \<noteq> 0) [2..<n]"

definition small_primes :: "nat list" where
  "small_primes = filter small_prime [2..<312]"

definition round_constants :: "w32 list" where
  "round_constants = map (\<lambda>p. of_nat (root_bits 3 (p * 2 ^ 96) 40)) small_primes"

definition initial_hash :: chaining where
  "initial_hash =
     (case map (\<lambda>p. of_nat (root_bits 2 (p * 2 ^ 64) 40)) (take 8 small_primes) of
        [a, b, c, d, e, f, g, h] \<Rightarrow> (a, b, c, d, e, f, g, h)
      | _ \<Rightarrow> (0, 0, 0, 0, 0, 0, 0, 0))"

text \<open>The search finds the root: at most \<open>n\<close>, and one more is too much.\<close>

lemma root_bits_lower: "0 < k \<Longrightarrow> root_bits k n b ^ k \<le> n"
proof (induction b arbitrary: n)
  case (Suc b)
  have "(2 * root_bits k (n div 2 ^ k) b) ^ k \<le> 2 ^ k * (n div 2 ^ k)"
    using Suc by (simp add: power_mult_distrib)
  also have "\<dots> \<le> n" by simp
  finally show ?case by (simp add: Let_def)
qed (simp add: power_0_left)

lemma root_bits_upper: "0 < k \<Longrightarrow> n < (2 ^ b) ^ k \<Longrightarrow> n < (root_bits k n b + 1) ^ k"
proof (induction b arbitrary: n)
  case (Suc b)
  let ?r = "root_bits k (n div 2 ^ k) b"
  have "n div 2 ^ k < (2 ^ b) ^ k"
    using Suc.prems(2) by (simp add: less_mult_imp_div_less power_mult_distrib mult.commute)
  with Suc.IH Suc.prems(1) have "n div 2 ^ k < (?r + 1) ^ k" by blast
  then have "n div 2 ^ k + 1 \<le> (?r + 1) ^ k" by simp
  then have "2 ^ k * (n div 2 ^ k + 1) \<le> 2 ^ k * (?r + 1) ^ k" by (rule mult_le_mono2)
  moreover have "n < 2 ^ k * (n div 2 ^ k + 1)"
    using dividend_less_times_div [of "2 ^ k" n] by simp
  ultimately have "n < (2 * ?r + 1 + 1) ^ k"
    by (simp add: power_mult_distrib [symmetric] algebra_simps)
  then show ?case by (auto simp: Let_def)
qed simp

definition small_sigma :: "nat \<Rightarrow> nat \<Rightarrow> nat \<Rightarrow> w32 \<Rightarrow> w32" where
  "small_sigma i j k x = (word_rotr i x XOR word_rotr j x) XOR drop_bit k x"

definition big_sigma :: "nat \<Rightarrow> nat \<Rightarrow> nat \<Rightarrow> w32 \<Rightarrow> w32" where
  "big_sigma i j k x = (word_rotr i x XOR word_rotr j x) XOR word_rotr k x"

text \<open>The last word of the schedule comes first in \<open>w\<close>.\<close>

fun expand :: "nat \<Rightarrow> w32 list \<Rightarrow> w32 list" where
  "expand 0 w = w"
| "expand (Suc n) w =
     expand n ((small_sigma 17 19 10 (w ! 1) + w ! 6 + small_sigma 7 18 3 (w ! 14) + w ! 15) # w)"

definition round_step :: "chaining \<Rightarrow> w32 \<times> w32 \<Rightarrow> chaining" where
  "round_step s kw =
     (case s of (a, b, c, d, e, f, g, h) \<Rightarrow>
      let t1 = h + big_sigma 6 11 25 e + ((e AND f) XOR (NOT e AND g)) + fst kw + snd kw;
          t2 = big_sigma 2 13 22 a + ((a AND b) XOR (a AND c) XOR (b AND c))
      in (t1 + t2, a, b, c, d + t1, e, f, g))"

definition add_chaining :: "chaining \<Rightarrow> chaining \<Rightarrow> chaining" where
  "add_chaining s t =
     (case s of (a, b, c, d, e, f, g, h) \<Rightarrow> case t of (a', b', c', d', e', f', g', h') \<Rightarrow>
      (a + a', b + b', c + c', d + d', e + e', f + f', g + g', h + h'))"

definition compress :: "chaining \<Rightarrow> w32 list \<Rightarrow> chaining" where
  "compress s m = add_chaining s (foldl round_step s (zip round_constants (rev (expand 48 (rev m)))))"

fun be_words :: "bytes \<Rightarrow> w32 list" where
  "be_words (a # b # c # d # r) =
     (push_bit 24 (ucast a) OR push_bit 16 (ucast b) OR push_bit 8 (ucast c) OR ucast d) # be_words r"
| "be_words _ = []"

definition be_bytes :: "w32 \<Rightarrow> bytes" where
  "be_bytes x = [ucast (drop_bit 24 x), ucast (drop_bit 16 x), ucast (drop_bit 8 x), ucast x]"

definition pad_message :: "bytes \<Rightarrow> bytes" where
  "pad_message b =
     b @ 0x80 # replicate ((119 - length b mod 64) mod 64) 0 @
     be_bytes (of_nat (8 * length b div 2 ^ 32)) @ be_bytes (of_nat (8 * length b))"

fun block_loop :: "nat \<Rightarrow> chaining \<Rightarrow> w32 list \<Rightarrow> chaining" where
  "block_loop 0 s ws = s"
| "block_loop (Suc n) s ws = block_loop n (compress s (take 16 ws)) (drop 16 ws)"

definition sha256 :: "bytes \<Rightarrow> bytes" where
  "sha256 b =
     (let ws = be_words (pad_message b) in
      case block_loop (length ws div 16) initial_hash ws of (a, b, c, d, e, f, g, h) \<Rightarrow>
        concat (map be_bytes [a, b, c, d, e, f, g, h]))"

definition sha :: "bytes \<Rightarrow> pystr" where
  "sha b = hex_bytes (sha256 b)"

lemma length_sha256 [simp]: "length (sha256 b) = 32"
  by (simp add: sha256_def Let_def be_bytes_def split: prod.split)

text \<open>The padded message is a whole number of 64-byte blocks, so no byte is left out.\<close>

lemma length_pad_message: "length (pad_message b) mod 64 = 0"
proof -
  have r: "length b mod 64 < 64" by simp
  have "(length b + (1 + (119 - length b mod 64) mod 64 + 8)) mod 64 =
      (length b mod 64 + (1 + (119 - length b mod 64) mod 64 + 8)) mod 64"
    by (simp only: mod_add_left_eq)
  also have "\<dots> = 0"
  proof (cases "length b mod 64 \<le> 55")
    case True
    then have "119 - length b mod 64 = 55 - length b mod 64 + 64" by linarith
    then have "(119 - length b mod 64) mod 64 = 55 - length b mod 64"
      by (simp only: mod_add_self2) simp
    with True show ?thesis by simp
  next
    case False
    with r have "(119 - length b mod 64) mod 64 = 119 - length b mod 64" by simp
    with r have "length b mod 64 + (1 + (119 - length b mod 64) mod 64 + 8) = 128" by linarith
    then show ?thesis by simp
  qed
  finally show ?thesis by (simp add: pad_message_def be_bytes_def ac_simps)
qed

lemma length_sha [simp]: "length (sha b) = 64"
  by (simp add: sha_def length_hex_bytes)

end
