(* ===== verification/Trust.thy ===== *)
theory Trust
  imports Manifest_Spec Sha256
begin

text \<open>
  \<open>validate_trust\<close> and \<open>authenticate\<close> of \<open>tools/nia_recovery.py\<close>: the trust policy, the signed
  anchor and the quorum of independent witnesses. Ed25519 verification belongs to the package
  \<open>cryptography\<close> and is the parameter \<open>verify\<close> (public key, signature, message); \<open>d\<close> is the nesting
  depth the JSON reader has left.
\<close>

section \<open>Data\<close>

record signing_key =
  k_id :: pystr
  k_domain :: pystr
  k_role :: pystr
  k_public :: pystr
  k_revoked :: bool

record trust =
  t_node :: pystr
  t_epoch :: int
  t_min_generation :: int
  t_threshold :: int
  t_lifetime :: int
  t_keys :: "signing_key list"

record anchor =
  an_node :: pystr
  an_generation :: int
  an_trust_epoch :: int
  an_manifest :: pystr
  an_pending :: pystr
  an_issued :: int
  an_expires :: int
  an_nonce :: pystr

type_synonym verifier = "bytes \<Rightarrow> bytes \<Rightarrow> bytes \<Rightarrow> bool"

definition ROLES :: "pystr list" where
  "ROLES = map str [''recovery'', ''witness'']"

definition DOMAIN :: bytes where
  "DOMAIN = ascii_bytes (str ''NIA-RECOVERY-ANCHOR-v1'' @ [0])"

section \<open>The trust policy\<close>

definition key_role :: "json \<Rightarrow> json \<Rightarrow> (pystr \<times> bool) res" where
  "key_role role revoked =
     (case (role, revoked) of
        (JStr r, JBool b) \<Rightarrow> if r \<in> set ROLES then Inr (r, b) else Inl (Invalid ''key role'')
      | _ \<Rightarrow> Inl (Invalid ''key role''))"

definition check_key :: "signing_key list \<Rightarrow> json \<Rightarrow> signing_key res" where
  "check_key acc k =
     rbind (dict_fields k [''id'', ''domain'', ''role'', ''public_key'', ''revoked'']) (\<lambda>_.
     item k ''id'' (\<lambda>j. rbind (ident j) (\<lambda>id.
     item k ''domain'' (\<lambda>j. rbind (ident j) (\<lambda>domain.
     item k ''public_key'' (\<lambda>j. rbind (digest j) (\<lambda>pub.
     item k ''role'' (\<lambda>jr. item k ''revoked'' (\<lambda>jb. rbind (key_role jr jb) (\<lambda>(role, revoked).
     rbind (ensure (id \<notin> set (map k_id acc) \<and> pub \<notin> set (map k_public acc))
              (Invalid ''duplicate signing identity'')) (\<lambda>_.
     Inr \<lparr>k_id = id, k_domain = domain, k_role = role, k_public = pub, k_revoked = revoked\<rparr>)))))))))))"

fun key_loop :: "signing_key list \<Rightarrow> json list \<Rightarrow> signing_key list res" where
  "key_loop acc [] = Inr acc"
| "key_loop acc (k # ks) = rbind (check_key acc k) (\<lambda>x. key_loop (acc @ [x]) ks)"

definition validate_trust :: "json \<Rightarrow> trust res" where
  "validate_trust t =
     rbind (dict_fields t [''format'', ''node'', ''trust_epoch'', ''min_generation'', ''threshold'',
                      ''max_anchor_lifetime'', ''keys'']) (\<lambda>_.
     item t ''format'' (\<lambda>j. rbind (check_format j ''nia-recovery-trust-v1'' ''trust version'') (\<lambda>_.
     item t ''node'' (\<lambda>j. rbind (ident j) (\<lambda>node.
     item t ''trust_epoch'' (\<lambda>j. rbind (integer j 1 INT_MAX) (\<lambda>epoch.
     item t ''min_generation'' (\<lambda>j. rbind (integer j 1 INT_MAX) (\<lambda>floor.
     item t ''threshold'' (\<lambda>j. rbind (integer j 2 32) (\<lambda>threshold.
     item t ''max_anchor_lifetime'' (\<lambda>j. rbind (integer j 1 86400) (\<lambda>lifetime.
     item t ''keys'' (\<lambda>j. rbind (the_list j (\<lambda>n. threshold \<le> int n \<and> n \<le> 32) ''key count'') (\<lambda>ks.
     rbind (key_loop [] ks) (\<lambda>keys.
     Inr \<lparr>t_node = node, t_epoch = epoch, t_min_generation = floor, t_threshold = threshold,
          t_lifetime = lifetime, t_keys = keys\<rparr>))))))))))))))))"

section \<open>The anchor\<close>

definition check_anchor :: "json \<Rightarrow> anchor res" where
  "check_anchor a =
     rbind (dict_fields a [''format'', ''node'', ''generation'', ''trust_epoch'', ''manifest_sha256'',
                      ''pending_sha256'', ''issued'', ''expires'', ''nonce'']) (\<lambda>_.
     item a ''format'' (\<lambda>j. rbind (check_format j ''nia-recovery-anchor-v1'' ''anchor version'') (\<lambda>_.
     item a ''node'' (\<lambda>j. rbind (ident j) (\<lambda>node.
     item a ''nonce'' (\<lambda>j. rbind (ident j) (\<lambda>nonce.
     item a ''generation'' (\<lambda>j. rbind (integer j 0 INT_MAX) (\<lambda>generation.
     item a ''trust_epoch'' (\<lambda>j. rbind (integer j 0 INT_MAX) (\<lambda>epoch.
     item a ''issued'' (\<lambda>j. rbind (integer j 0 INT_MAX) (\<lambda>issued.
     item a ''expires'' (\<lambda>j. rbind (integer j 0 INT_MAX) (\<lambda>expires.
     item a ''manifest_sha256'' (\<lambda>j. rbind (digest j) (\<lambda>hm.
     item a ''pending_sha256'' (\<lambda>j. rbind (digest j) (\<lambda>hp.
     Inr \<lparr>an_node = node, an_generation = generation, an_trust_epoch = epoch, an_manifest = hm,
          an_pending = hp, an_issued = issued, an_expires = expires, an_nonce = nonce\<rparr>)))))))))))))))))))"

section \<open>The signatures\<close>

fun fromhex :: "pystr \<Rightarrow> bytes option" where
  "fromhex [] = Some []"
| "fromhex (a # b # r) =
     (case (unhex_digit a, unhex_digit b, fromhex r) of
        (Some x, Some y, Some z) \<Rightarrow> Some (of_nat (16 * x + y) # z)
      | _ \<Rightarrow> None)"
| "fromhex [a] = None"

definition is_signature :: "pystr \<Rightarrow> bool" where
  "is_signature s \<longleftrightarrow> length s = 128 \<and> list_all is_hex s"

definition key_verifies :: "verifier \<Rightarrow> signing_key \<Rightarrow> pystr \<Rightarrow> bytes \<Rightarrow> bool" where
  "key_verifies verify k s msg =
     (case (fromhex (k_public k), fromhex s) of
        (Some pk, Some sg) \<Rightarrow> verify pk sg msg
      | _ \<Rightarrow> False)"

definition signature_text :: "json \<Rightarrow> pystr res" where
  "signature_text j =
     (case j of
        JStr sg \<Rightarrow> if is_signature sg then Inr sg else Inl (Invalid ''revoked/dependent/invalid witness'')
      | _ \<Rightarrow> Inl (Invalid ''revoked/dependent/invalid witness''))"

definition lookup_key :: "signing_key list \<Rightarrow> signing_key list \<Rightarrow> pystr \<Rightarrow> signing_key res" where
  "lookup_key keys used key =
     (case map_of (map (\<lambda>k. (k_id k, k)) keys) key of
        None \<Rightarrow> Inl (Invalid ''unknown/duplicate witness'')
      | Some k \<Rightarrow> if key \<in> set (map k_id used) then Inl (Invalid ''unknown/duplicate witness'')
                  else Inr k)"

text \<open>
  One turn of the loop: \<open>used\<close> lists the keys accepted so far, so \<open>seen\<close>, \<open>domains\<close> and \<open>roles\<close>
  of the source are their identifiers, domains and roles.
\<close>

definition check_signature ::
  "verifier \<Rightarrow> signing_key list \<Rightarrow> bytes \<Rightarrow> signing_key list \<Rightarrow> json \<Rightarrow> signing_key res" where
  "check_signature verify keys msg used s =
     rbind (dict_fields s [''key'', ''signature'']) (\<lambda>_.
     item s ''key'' (\<lambda>j. rbind (ident j) (\<lambda>key.
     rbind (lookup_key keys used key) (\<lambda>k.
     item s ''signature'' (\<lambda>j.
     rbind (ensure (\<not> k_revoked k \<and> k_domain k \<notin> set (map k_domain used))
              (Invalid ''revoked/dependent/invalid witness'')) (\<lambda>_.
     rbind (signature_text j) (\<lambda>sg.
     rbind (ensure (key_verifies verify k sg msg) (Invalid ''bad signature'')) (\<lambda>_.
     Inr k))))))))"

fun signature_loop ::
  "verifier \<Rightarrow> signing_key list \<Rightarrow> bytes \<Rightarrow> signing_key list \<Rightarrow> json list \<Rightarrow> signing_key list res" where
  "signature_loop verify keys msg used [] = Inr used"
| "signature_loop verify keys msg used (s # ss) =
     rbind (check_signature verify keys msg used s) (\<lambda>k.
     signature_loop verify keys msg (used @ [k]) ss)"

section \<open>authenticate\<close>

definition authenticate ::
  "verifier \<Rightarrow> nat \<Rightarrow> bytes \<Rightarrow> bytes \<Rightarrow> json \<Rightarrow> pystr \<Rightarrow> int \<Rightarrow> (manifest \<times> anchor) res" where
  "authenticate verify d mraw eraw trust expected now =
     rbind (validate_trust trust) (\<lambda>t.
     rbind (digest (JStr expected)) (\<lambda>_.
     rbind (integer (JInt now) 0 INT_MAX) (\<lambda>_.
     rbind (decode d mraw) (\<lambda>mj.
     rbind (validate_manifest mj) (\<lambda>(m, _).
     rbind (ensure (canonical mj = mraw) (Invalid ''noncanonical manifest'')) (\<lambda>_.
     rbind (decode d eraw) (\<lambda>e.
     rbind (dict_fields e [''anchor'', ''signatures'']) (\<lambda>_.
     item e ''anchor'' (\<lambda>aj.
     rbind (check_anchor aj) (\<lambda>a.
     let raw = canonical aj in
     rbind (ensure (sha raw = expected) (Invalid ''not independently pinned committed anchor'')) (\<lambda>_.
     rbind (ensure (an_node a = t_node t \<and> an_node a = m_node m \<and>
                    an_generation a = m_generation m \<and> t_min_generation t \<le> an_generation a \<and>
                    an_trust_epoch a = t_epoch t \<and> an_trust_epoch a = m_trust_epoch m)
              (Invalid ''node/generation/trust floor'')) (\<lambda>_.
     rbind (ensure (an_issued a \<le> now \<and> now < an_expires a \<and>
                    an_expires a - an_issued a \<le> t_lifetime t) (Invalid ''anchor freshness'')) (\<lambda>_.
     rbind (ensure (an_manifest a = sha mraw \<and>
                    an_pending a = sha (canonical (JArr (map JStr (m_pending m)))))
              (Invalid ''manifest/pending changed'')) (\<lambda>_.
     item e ''signatures'' (\<lambda>js.
     rbind (the_list js (\<lambda>n. t_threshold t \<le> int n \<and> n \<le> 32) ''signature count'') (\<lambda>sigs.
     rbind (signature_loop verify (t_keys t) (DOMAIN @ raw) [] sigs) (\<lambda>used.
     rbind (ensure (set (map k_role used) = set ROLES)
              (Invalid ''recovery and witness roles required'')) (\<lambda>_.
     Inr (m, a)))))))))))))))))))"

end
