(* ===== verification/Json_Dict.thy ===== *)
theory Json_Dict
  imports Checks
begin

text \<open>
  Dicts as \<open>decode\<close> delivers them: keys are distinct at every level, so a dict is determined, up to
  the order of its keys, by its key set and its items, and so is its canonical text.
\<close>

fun json_distinct :: "json \<Rightarrow> bool" where
  "json_distinct (JArr xs) = list_all json_distinct xs"
| "json_distinct (JObj kvs) =
     (distinct (map fst kvs) \<and> list_all (\<lambda>(k, v). json_distinct v) kvs)"
| "json_distinct j = True"

section \<open>decode\<close>

lemma unique_ok:
  "unique d ps = Inr q \<Longrightarrow> distinct (map fst d) \<Longrightarrow> distinct (map fst q) \<and> q = d @ ps"
proof (induction d ps rule: unique.induct)
  case (2 d k v ps)
  from "2.prems" have k: "k \<notin> fst ` set d" and "unique (d @ [(k, v)]) ps = Inr q"
    by (auto split: if_splits)
  then have "distinct (map fst q) \<and> q = (d @ [(k, v)]) @ ps"
    using "2.prems"(2) by (intro "2.IH") auto
  then show ?case unfolding append.assoc append_Cons append_Nil .
qed simp

lemma scan_num_distinct: "scan_num s = Inr (j, t) \<Longrightarrow> json_distinct j"
  by (auto simp: scan_num_def Let_def split: if_splits)

definition constants_distinct :: "hooks \<Rightarrow> bool" where
  "constants_distinct h \<longleftrightarrow> (\<forall>c j. h_const h c = Inr j \<longrightarrow> json_distinct j)"

lemma constants_distinct_strict [simp]: "constants_distinct strict"
  by (simp add: constants_distinct_def strict_def)

lemma scan_const_distinct: "constants_distinct h \<Longrightarrow> scan_const h s = Some (Inr (j, t)) \<Longrightarrow> json_distinct j"
  by (auto simp: scan_const_def constants_distinct_def split: if_splits)

lemma scan_distinct:
  shows "constants_distinct h \<Longrightarrow> scan_value h n d s = Inr (j, t) \<Longrightarrow> json_distinct j"
    and "constants_distinct h \<Longrightarrow> scan_array h n d xs s = Inr (j, t) \<Longrightarrow> list_all json_distinct xs \<Longrightarrow> json_distinct j"
    and "constants_distinct h \<Longrightarrow> scan_object h n d kvs s = Inr (j, t) \<Longrightarrow> list_all (\<lambda>(k, v). json_distinct v) kvs \<Longrightarrow>
           json_distinct j"
proof (induction h n d s and h n d xs s and h n d kvs s arbitrary: j t and j t and j t
    rule: scan_value_scan_array_scan_object.induct)
  case (2 h n d s)
  then show ?case
    by (auto split: list.splits if_splits option.splits
        dest: scan_num_distinct scan_const_distinct)
next
  case (4 h n d acc s)
  from "4.prems"(2) obtain v w where v: "scan_value h n d s = Inr (v, w)" by auto
  with "4.prems"(2) obtain c x where c: "skip_ws w = c # x" by (auto split: list.splits)
  have "json_distinct v" by (rule "4.IH"(1) [OF "4.prems"(1) v])
  with "4.prems" v c show ?case
    using "4.IH"(2) [OF v refl c _ "4.prems"(1)] by (auto split: if_splits)
next
  case (6 h n d acc s)
  obtain r where s: "s = 34 # r"
    using "6.prems"(2) by (cases s) (auto split: if_splits)
  from "6.prems"(2) s obtain k tk where k: "scan_str r = Inr (k, tk)" by auto
  from "6.prems"(2) s k obtain u where u: "skip_ws tk = 58 # u"
    by (cases "skip_ws tk") (auto split: if_splits)
  from "6.prems"(2) s k u obtain v w where v: "scan_value h n d (skip_ws u) = Inr (v, w)" by auto
  from "6.prems"(2) s k u v obtain e x where e: "skip_ws w = e # x"
    by (cases "skip_ws w") auto
  have dv: "json_distinct v" by (rule "6.IH"(1) [OF s _ k refl u _ "6.prems"(1) v]) simp_all
  show ?case
  proof (cases "e = 44")
    case True
    then show ?thesis
      using "6.IH"(2) [OF s _ k refl u _ v refl e True] "6.prems" s k u v e dv by simp
  next
    case False
    with "6.prems"(2) s k u v e have "json_distinct j \<or> (e = 125 \<and>
        (\<exists>ps. unique [] (acc @ [(k, v)]) = Inr ps \<and> j = JObj ps))"
      by (auto split: if_splits)
    then show ?thesis using "6.prems"(3) dv by (auto dest!: unique_ok)
  qed
qed simp_all

lemma loads_distinct: "loads h d s = Inr j \<Longrightarrow> constants_distinct h \<Longrightarrow> json_distinct j"
  by (auto simp: loads_def simp del: scan_value.simps split: if_splits dest: scan_distinct(1))

lemma decode_distinct: "decode d b = Inr j \<Longrightarrow> json_distinct j"
  by (auto simp: decode_def split: if_splits option.splits dest: loads_distinct)

section \<open>Equal dicts\<close>

lemma getitem_distinct: "getitem j k = Inr v \<Longrightarrow> json_distinct j \<Longrightarrow> json_distinct v"
  by (fastforce simp: getitem_def list_all_iff split: json.splits option.splits dest: map_of_SomeD)

lemma sort_keys_dict:
  assumes "distinct (map fst kvs)" "distinct (map fst kvs')" "fst ` set kvs = fst ` set kvs'"
    and "\<And>k v v'. (k, v) \<in> set kvs \<Longrightarrow> (k, v') \<in> set kvs' \<Longrightarrow> sort_keys v = sort_keys v'"
  shows "sort_keys (JObj kvs) = sort_keys (JObj kvs')"
proof -
  let ?f = "\<lambda>(k, v). (k, sort_keys v)"
  have fst: "map fst (map ?f xs) = map fst xs" for xs by auto
  have "set (map ?f xs) \<subseteq> set (map ?f ys)"
    if "fst ` set xs = fst ` set ys"
      and "\<And>k v v'. (k, v) \<in> set xs \<Longrightarrow> (k, v') \<in> set ys \<Longrightarrow> sort_keys v = sort_keys v'" for xs ys
  proof
    fix z assume "z \<in> set (map ?f xs)"
    then obtain k v where z: "z = (k, sort_keys v)" and kv: "(k, v) \<in> set xs" by auto
    then have "k \<in> fst ` set ys" using that(1) by force
    then obtain v' where "(k, v') \<in> set ys" by auto
    with that(2) [OF kv] z show "z \<in> set (map ?f ys)" by force
  qed
  from this [of kvs kvs'] this [of kvs' kvs] assms(3,4)
  have set: "set (map ?f kvs) = set (map ?f kvs')" by (metis subset_antisym)
  have "distinct (map fst (sort_key fst (map ?f xs)))" if "distinct (map fst xs)" for xs
    using that by (simp only: distinct_map_sort fst)
  with assms(1,2) have "sort_key fst (map ?f kvs) = sort_key fst (map ?f kvs')"
    by (intro map_sorted_distinct_set_unique [of fst])
      (auto simp: set [simplified] distinct_map)
  then show ?thesis by simp
qed

lemma sort_keys_record:
  assumes "dict_fields j (map fst kvs) = Inr u" "json_distinct j" "distinct (map fst kvs)"
    and vs: "list_all (\<lambda>(k, v'). \<exists>v. getitem j k = Inr v \<and> sort_keys v = sort_keys v') kvs"
  shows "sort_keys j = sort_keys (JObj (map (\<lambda>(k, v). (str k, v)) kvs))"
proof -
  from assms(1) obtain ps where j: "j = JObj ps" and ks: "fst ` set ps = str ` set (map fst kvs)"
    by (auto simp: dict_fields_def split: json.splits)
  have d: "distinct (map fst ps)" using assms(2) j by simp
  have inj: "inj_on str A" for A by (rule inj_onI) simp
  show ?thesis
    unfolding j
  proof (rule sort_keys_dict)
    show "distinct (map fst ps)" by fact
    have "map fst (map (\<lambda>(k, v). (str k, v)) kvs) = map str (map fst kvs)" by auto
    then show "distinct (map fst (map (\<lambda>(k, v). (str k, v)) kvs))"
      using assms(3) inj by (simp only: distinct_map [of str])
    show "fst ` set ps = fst ` set (map (\<lambda>(k, v). (str k, v)) kvs)"
      unfolding ks by force
  next
    fix k v v' assume kv: "(k, v) \<in> set ps" and "(k, v') \<in> set (map (\<lambda>(k, v). (str k, v)) kvs)"
    then obtain k0 where k: "k = str k0" and "(k0, v') \<in> set kvs" by auto
    with vs obtain w where w: "getitem j k0 = Inr w" "sort_keys w = sort_keys v'"
      by (auto simp: list_all_iff)
    have "map_of ps k = Some v" using d kv by simp
    with w j k show "sort_keys v = sort_keys v'" by (simp add: getitem_def)
  qed
qed

text \<open>The converse: equal canonical text makes the schema check and every subscript succeed.\<close>

lemma sort_keys_recordD:
  assumes "sort_keys j = sort_keys (JObj (map (\<lambda>(k, v). (str k, v)) kvs))" "json_distinct j"
    and "distinct (map fst kvs)"
  shows "dict_fields j (map fst kvs) = Inr ()"
    and "list_all (\<lambda>(k, v'). \<exists>v. getitem j k = Inr v \<and> sort_keys v = sort_keys v') kvs"
proof -
  let ?f = "\<lambda>(k, v). (k, sort_keys v)" and ?s = "\<lambda>(k, v). (str k, v)"
  from assms(1) obtain ps where j: "j = JObj ps"
    and eq: "sort_key fst (map ?f ps) = sort_key fst (map ?f (map ?s kvs))"
    by (cases j) auto
  have "set (sort_key fst (map ?f ps)) = set (sort_key fst (map ?f (map ?s kvs)))"
    by (simp only: eq)
  then have set: "?f ` set ps = ?f ` ?s ` set kvs" by (simp only: set_sort set_map)
  have d: "distinct (map fst ps)" using assms(2) j by simp
  have "fst ` ?f ` set ps = fst ` ?f ` ?s ` set kvs" by (simp only: set)
  then have "fst ` set ps = str ` fst ` set kvs"
    by (simp add: image_image case_prod_beta)
  then show "dict_fields j (map fst kvs) = Inr ()" by (simp add: j dict_fields_def)
  have "\<exists>v. getitem j k = Inr v \<and> sort_keys v = sort_keys v'" if "(k, v') \<in> set kvs" for k v'
  proof -
    have "(str k, sort_keys v') \<in> ?f ` ?s ` set kvs" using that by force
    then obtain v where "(str k, v) \<in> set ps" "sort_keys v = sort_keys v'"
      unfolding set [symmetric] by auto
    with d j show ?thesis by (simp add: getitem_def)
  qed
  then show "list_all (\<lambda>(k, v'). \<exists>v. getitem j k = Inr v \<and> sort_keys v = sort_keys v') kvs"
    by (auto simp: list_all_iff)
qed

lemma sort_keys_record_iff:
  "json_distinct j \<Longrightarrow> distinct (map fst kvs) \<Longrightarrow>
   sort_keys j = sort_keys (JObj (map (\<lambda>(k, v). (str k, v)) kvs)) \<longleftrightarrow>
   dict_fields j (map fst kvs) = Inr () \<and>
   list_all (\<lambda>(k, v'). \<exists>v. getitem j k = Inr v \<and> sort_keys v = sort_keys v') kvs"
  using sort_keys_record [of j kvs] sort_keys_recordD [of j kvs] by blast

lemma sort_keys_eq_leaf [simp]:
  "sort_keys j = JInt i \<longleftrightarrow> j = JInt i"
  "sort_keys j = JStr s \<longleftrightarrow> j = JStr s"
  "sort_keys j = JBool b \<longleftrightarrow> j = JBool b"
  "sort_keys j = JNull \<longleftrightarrow> j = JNull"
  by (cases j; simp)+

lemma sort_keys_eq_JArr: "sort_keys j = JArr xs \<longleftrightarrow> (\<exists>ys. j = JArr ys \<and> map sort_keys ys = xs)"
  by (cases j) auto

lemma sort_keys_eq_strings [simp]: "sort_keys j = JArr (map JStr ss) \<longleftrightarrow> j = JArr (map JStr ss)"
proof -
  have "map sort_keys ys = map JStr ss \<longleftrightarrow> ys = map JStr ss" for ys
  proof (induction ys arbitrary: ss)
    case (Cons y ys)
    then show ?case by (cases ss) simp_all
  qed simp
  then show ?thesis by (simp add: sort_keys_eq_JArr)
qed

lemma canonical_sort_keys: "sort_keys i = sort_keys j \<Longrightarrow> canonical i = canonical j"
  by (simp add: canonical_def)

end
