(* ===== verification/Manifest_Canonical.thy ===== *)
theory Manifest_Canonical
  imports Manifest_Spec Json_Dict
begin

text \<open>
  The typed manifest keeps everything the JSON value says: an accepted value has the same canonical
  text as the typed manifest written out. So the bytes that \<open>authenticate\<close> accepts as canonical are
  those of \<open>manifest_json\<close>, and no field is dropped by the typed model.
\<close>

lemma sort_keys_strings [simp]: "map sort_keys (map JStr ss) = map JStr ss"
  by simp

lemma sort_keys_JArr_strings [simp]: "sort_keys (JArr (map JStr ss)) = JArr (map JStr ss)"
  by simp

lemma xattr_loop_sort_keys:
  "xattr_loop tot js = Inr xs \<Longrightarrow> list_all json_distinct js \<Longrightarrow>
   map sort_keys js = map sort_keys (map xattr_json xs)"
proof (induction js arbitrary: tot xs)
  case (Cons j js)
  from Cons.prems(1) obtain n v ys where xs: "xs = (n, v) # ys"
    and j: "dict_fields j [''name'', ''value''] = Inr ()" "getitem j ''name'' = Inr (JStr n)"
      "getitem j ''value'' = Inr (JStr v)"
    and ys: "xattr_loop (tot + length v div 2) js = Inr ys" by auto
  have "sort_keys j = sort_keys (xattr_json (n, v))"
    using sort_keys_record [of j "[(''name'', JStr n), (''value'', JStr v)]"] j Cons.prems(2)
    by (simp del: sort_keys.simps)
  with Cons.IH [OF ys] Cons.prems(2) show ?case by (simp add: xs)
qed simp

lemma validate_xattrs_sort_keys:
  "validate_xattrs j = Inr xs \<Longrightarrow> json_distinct j \<Longrightarrow>
   sort_keys j = sort_keys (JArr (map xattr_json xs))"
  by (auto simp: validate_xattrs_def split: json.splits if_splits dest: xattr_loop_sort_keys)

lemma directory_attributes_sort_keys:
  assumes "validate_directory_attributes j = Inr a" "json_distinct j"
  shows "sort_keys j = sort_keys (attributes_json a)"
proof -
  from assms(1) obtain x where j: "dict_fields j [''mode'', ''uid'', ''gid'', ''xattrs''] = Inr ()"
    "getitem j ''mode'' = Inr (JInt (a_mode a))" "getitem j ''uid'' = Inr (JInt (a_uid a))"
    "getitem j ''gid'' = Inr (JInt (a_gid a))" "getitem j ''xattrs'' = Inr x"
    and x: "validate_xattrs x = Inr (a_xattrs a)"
    by (auto simp: validate_directory_attributes_def)
  from x getitem_distinct [OF j(5) assms(2)]
  have "sort_keys x = sort_keys (JArr (map xattr_json (a_xattrs a)))"
    by (rule validate_xattrs_sort_keys)
  with j assms(2) show ?thesis
    using sort_keys_record [of j "[(''mode'', JInt (a_mode a)), (''uid'', JInt (a_uid a)),
      (''gid'', JInt (a_gid a)), (''xattrs'', JArr (map xattr_json (a_xattrs a)))]"]
    by (simp add: attributes_json_def del: sort_keys.simps)
qed

lemma check_object_sort_keys:
  assumes "check_object seen j = Inr e" "json_distinct j"
  shows "sort_keys j = sort_keys (entry_json e)"
proof -
  from assms(1) obtain x where j: "dict_fields j [''path'', ''kind'', ''mode'', ''uid'', ''gid'',
      ''xattrs'', ''size'', ''sha256'', ''chunks''] = Inr ()"
    "getitem j ''path'' = Inr (JStr (e_path e))" "getitem j ''kind'' = Inr (JStr (e_kind e))"
    "getitem j ''mode'' = Inr (JInt (e_mode e))" "getitem j ''uid'' = Inr (JInt (e_uid e))"
    "getitem j ''gid'' = Inr (JInt (e_gid e))" "getitem j ''xattrs'' = Inr x"
    "getitem j ''size'' = Inr (JInt (e_size e))" "getitem j ''sha256'' = Inr (JStr (e_sha256 e))"
    "getitem j ''chunks'' = Inr (JArr (map JStr (e_chunks e)))"
    and x: "validate_xattrs x = Inr (e_xattrs e)"
    by (auto simp: check_object_def)
  from x getitem_distinct [OF j(7) assms(2)]
  have "sort_keys x = sort_keys (JArr (map xattr_json (e_xattrs e)))"
    by (rule validate_xattrs_sort_keys)
  with j assms(2) show ?thesis
    using sort_keys_record [of j "[(''path'', JStr (e_path e)), (''kind'', JStr (e_kind e)),
      (''mode'', JInt (e_mode e)), (''uid'', JInt (e_uid e)), (''gid'', JInt (e_gid e)),
      (''xattrs'', JArr (map xattr_json (e_xattrs e))), (''size'', JInt (e_size e)),
      (''sha256'', JStr (e_sha256 e)), (''chunks'', JArr (map JStr (e_chunks e)))]"]
    by (simp add: entry_json_def del: sort_keys.simps)
qed

lemma object_loop_sort_keys:
  "object_loop acc tot chunks js = Inr (es, t) \<Longrightarrow> list_all json_distinct js \<Longrightarrow>
   \<exists>new. es = acc @ new \<and> map sort_keys js = map sort_keys (map entry_json new)"
proof (induction acc tot chunks js rule: object_loop.induct)
  case (2 acc tot chunks j js)
  from "2.prems"(1) obtain e where e: "check_object (map e_path acc) j = Inr e"
    and le: "tot + e_size e \<le> MAX_TOTAL" "chunks + int (length (e_chunks e)) \<le> MAX_CHUNKS"
    and rec: "object_loop (acc @ [e]) (tot + e_size e) (chunks + int (length (e_chunks e))) js = Inr (es, t)"
    by (auto simp: Let_def)
  have "sort_keys j = sort_keys (entry_json e)"
    using check_object_sort_keys [OF e] "2.prems"(2) by simp
  moreover from "2.IH" [OF e refl refl _ rec] le "2.prems"(2) obtain new where
    "es = (acc @ [e]) @ new" "map sort_keys js = map sort_keys (map entry_json new)" by auto
  ultimately show ?case by (intro exI [of _ "e # new"]) simp
qed simp

lemma check_directory_sort_keys:
  assumes "check_directory j = Inr (p, a)" "json_distinct j"
  shows "sort_keys j = sort_keys (directory_json (p, a))"
proof -
  from assms(1) obtain x where j: "dict_fields j [''path'', ''attributes''] = Inr ()"
    "getitem j ''path'' = Inr (JStr p)" "getitem j ''attributes'' = Inr x"
    and x: "validate_directory_attributes x = Inr a"
    by (auto simp: check_directory_def)
  from x getitem_distinct [OF j(3) assms(2)] have "sort_keys x = sort_keys (attributes_json a)"
    by (rule directory_attributes_sort_keys)
  with j assms(2) show ?thesis
    using sort_keys_record [of j "[(''path'', JStr p), (''attributes'', attributes_json a)]"]
    by (simp del: sort_keys.simps)
qed

lemma check_directories_sort_keys:
  "for_each check_directory js = Inr ds \<Longrightarrow> list_all json_distinct js \<Longrightarrow>
   map sort_keys js = map sort_keys (map directory_json ds)"
proof (induction js arbitrary: ds)
  case (Cons j js)
  from Cons.prems(1) obtain p a es where "ds = (p, a) # es" "check_directory j = Inr (p, a)"
    "for_each check_directory js = Inr es" by auto
  with Cons check_directory_sort_keys [of j p a] show ?case by (simp del: directory_json.simps)
qed simp

theorem validate_manifest_sort_keys:
  assumes "validate_manifest j = Inr (m, t)" "json_distinct j"
  shows "sort_keys j = sort_keys (manifest_json m)"
proof -
  from assms(1) obtain ds objs r where j: "dict_fields j [''format'', ''node'', ''cohort'',
      ''generation'', ''trust_epoch'', ''catalog_path'', ''checkpoint_path'', ''pending'',
      ''root_attributes'', ''directories'', ''objects''] = Inr ()"
    "getitem j ''format'' = Inr (JStr (str ''nia-recovery-manifest-v1''))"
    "getitem j ''node'' = Inr (JStr (m_node m))" "getitem j ''cohort'' = Inr (JStr (m_cohort m))"
    "getitem j ''generation'' = Inr (JInt (m_generation m))"
    "getitem j ''trust_epoch'' = Inr (JInt (m_trust_epoch m))"
    "getitem j ''catalog_path'' = Inr (JStr (m_catalog_path m))"
    "getitem j ''checkpoint_path'' = Inr (JStr (m_checkpoint_path m))"
    "getitem j ''pending'' = Inr (JArr (map JStr (m_pending m)))"
    "getitem j ''root_attributes'' = Inr r" "getitem j ''directories'' = Inr (JArr ds)"
    "getitem j ''objects'' = Inr (JArr objs)"
    and r: "validate_directory_attributes r = Inr (m_root_attributes m)"
    and ds: "for_each check_directory ds = Inr (m_directories m)"
    and objs: "object_loop [] 0 0 objs = Inr (m_objects m, t)"
    by (auto simp: validate_manifest_def)
  have "sort_keys r = sort_keys (attributes_json (m_root_attributes m))"
    using r getitem_distinct [OF j(10) assms(2)] by (rule directory_attributes_sort_keys)
  moreover have "sort_keys (JArr ds) = sort_keys (JArr (map directory_json (m_directories m)))"
    using check_directories_sort_keys [OF ds] getitem_distinct [OF j(11) assms(2)] by simp
  moreover have "sort_keys (JArr objs) = sort_keys (JArr (map entry_json (m_objects m)))"
    using object_loop_sort_keys [OF objs] getitem_distinct [OF j(12) assms(2)] by auto
  ultimately show ?thesis
    using j assms(2) sort_keys_record [of j "[(''node'', JStr (m_node m)),
      (''cohort'', JStr (m_cohort m)), (''generation'', JInt (m_generation m)),
      (''trust_epoch'', JInt (m_trust_epoch m)), (''catalog_path'', JStr (m_catalog_path m)),
      (''checkpoint_path'', JStr (m_checkpoint_path m)),
      (''pending'', JArr (map JStr (m_pending m))),
      (''format'', JStr (str ''nia-recovery-manifest-v1'')),
      (''objects'', JArr (map entry_json (m_objects m))),
      (''root_attributes'', attributes_json (m_root_attributes m)),
      (''directories'', JArr (map directory_json (m_directories m)))]"]
    by (auto simp: manifest_json_def dict_fields_def simp del: sort_keys.simps split: json.splits)
qed

lemma validate_manifest_canonical:
  "decode d b = Inr j \<Longrightarrow> validate_manifest j = Inr (m, t) \<Longrightarrow> canonical j = canonical (manifest_json m)"
  by (intro canonical_sort_keys validate_manifest_sort_keys decode_distinct)

section \<open>Every manifest that satisfies the specification is accepted\<close>

text \<open>
  Whatever the order of the keys: it is enough that the value has the canonical text of the manifest
  written out.
\<close>

lemma check_values [simp]:
  "is_xattr_name s \<Longrightarrow> xattr_name (JStr s) = Inr s"
  "is_xattr_value s \<Longrightarrow> xattr_value (JStr s) = Inr s"
  "is_digest s \<Longrightarrow> digest (JStr s) = Inr s"
  "is_ident s \<Longrightarrow> ident (JStr s) = Inr s"
  "is_relative s \<Longrightarrow> relative (JStr s) = Inr s"
  "s \<in> set KINDS \<Longrightarrow> object_kind (JStr s) = Inr s"
  "low \<le> i \<Longrightarrow> i \<le> high \<Longrightarrow> integer (JInt i) low high = Inr i"
  "ok (length js) \<Longrightarrow> the_list (JArr js) ok msg = Inr js"
  "check_format (JStr (str v)) v msg = Inr ()"
  "list_all is_digest cs \<Longrightarrow> int (length cs) = (sz + CHUNK - 1) div CHUNK \<Longrightarrow>
     chunk_list (JArr (map JStr cs)) sz = Inr cs"
  "length ps \<le> 4096 \<Longrightarrow> list_all is_ident ps \<Longrightarrow> sorted ps \<Longrightarrow> distinct ps \<Longrightarrow>
     check_pending (JArr (map JStr ps)) = Inr ps"
  by simp_all

lemma item_Inr: "getitem d k = Inr v \<Longrightarrow> item d k f = f v"
  by (simp add: item_def)

lemma xattr_loop_complete:
  "map sort_keys js = map sort_keys (map xattr_json xs) \<Longrightarrow> list_all json_distinct js \<Longrightarrow>
   \<forall>(n, v)\<in>set xs. is_xattr_name n \<and> is_xattr_value v \<Longrightarrow>
   tot + (\<Sum>(n, v)\<leftarrow>xs. length v div 2) \<le> 131072 \<Longrightarrow> xattr_loop tot js = Inr xs"
proof (induction xs arbitrary: tot js)
  case (Cons x xs)
  obtain n v where x: "x = (n, v)" by (cases x)
  from Cons.prems(1) obtain i rest where js: "js = i # rest"
    and i: "sort_keys i = sort_keys (xattr_json (n, v))"
    and rest: "map sort_keys rest = map sort_keys (map xattr_json xs)"
    by (cases js) (auto simp: x)
  have "xattr_loop (tot + length v div 2) rest = Inr xs"
    using Cons.prems by (intro Cons.IH rest) (auto simp: x js)
  with Cons.prems i show ?case
    using sort_keys_recordD [of i "[(''name'', JStr n), (''value'', JStr v)]"]
    by (auto simp: x js item_Inr simp del: sort_keys.simps(1,2))
qed simp

lemma validate_xattrs_complete:
  assumes "xattrs_ok xs" "sort_keys j = sort_keys (JArr (map xattr_json xs))" "json_distinct j"
  shows "validate_xattrs j = Inr xs"
proof -
  from assms(2) obtain js where j: "j = JArr js"
    and js: "map sort_keys js = map sort_keys (map xattr_json xs)"
    by (auto simp: sort_keys_eq_JArr)
  from js have "length js = length xs" by (metis length_map)
  with assms j xattr_loop_complete [OF js, of 0] show ?thesis
    by (simp add: validate_xattrs_def xattrs_ok_def sorted_set_eq_iff)
qed

lemma directory_attributes_complete:
  assumes "attributes_ok a" "sort_keys j = sort_keys (attributes_json a)" "json_distinct j"
  shows "validate_directory_attributes j = Inr a"
proof -
  let ?kvs = "[(''mode'', JInt (a_mode a)), (''uid'', JInt (a_uid a)),
      (''gid'', JInt (a_gid a)), (''xattrs'', JArr (map xattr_json (a_xattrs a)))]"
  have eq: "sort_keys j = sort_keys (JObj (map (\<lambda>(k, v). (str k, v)) ?kvs))"
    using assms(2) by (simp add: attributes_json_def del: sort_keys.simps)
  from sort_keys_recordD [OF eq assms(3)] obtain x
    where j: "dict_fields j [''mode'', ''uid'', ''gid'', ''xattrs''] = Inr ()"
      "getitem j ''mode'' = Inr (JInt (a_mode a))" "getitem j ''uid'' = Inr (JInt (a_uid a))"
      "getitem j ''gid'' = Inr (JInt (a_gid a))" "getitem j ''xattrs'' = Inr x"
      "sort_keys x = sort_keys (JArr (map xattr_json (a_xattrs a)))"
    by (auto simp del: sort_keys.simps(1))
  have "validate_xattrs x = Inr (a_xattrs a)"
    using assms(1) j(6) getitem_distinct [OF j(5) assms(3)]
    by (intro validate_xattrs_complete) (simp_all add: attributes_ok_def)
  with j assms(1) show ?thesis
    by (simp add: validate_directory_attributes_def attributes_ok_def item_Inr)
qed

lemma check_object_complete:
  assumes "entry_ok e" "e_path e \<notin> set seen" "sort_keys j = sort_keys (entry_json e)"
    "json_distinct j"
  shows "check_object seen j = Inr e"
proof -
  let ?kvs = "[(''path'', JStr (e_path e)), (''kind'', JStr (e_kind e)),
      (''mode'', JInt (e_mode e)), (''uid'', JInt (e_uid e)), (''gid'', JInt (e_gid e)),
      (''xattrs'', JArr (map xattr_json (e_xattrs e))), (''size'', JInt (e_size e)),
      (''sha256'', JStr (e_sha256 e)), (''chunks'', JArr (map JStr (e_chunks e)))]"
  have eq: "sort_keys j = sort_keys (JObj (map (\<lambda>(k, v). (str k, v)) ?kvs))"
    using assms(3) by (simp add: entry_json_def del: sort_keys.simps)
  from sort_keys_recordD [OF eq assms(4)] obtain x
    where j: "dict_fields j [''path'', ''kind'', ''mode'', ''uid'', ''gid'',
      ''xattrs'', ''size'', ''sha256'', ''chunks''] = Inr ()"
      "getitem j ''path'' = Inr (JStr (e_path e))" "getitem j ''kind'' = Inr (JStr (e_kind e))"
      "getitem j ''mode'' = Inr (JInt (e_mode e))" "getitem j ''uid'' = Inr (JInt (e_uid e))"
      "getitem j ''gid'' = Inr (JInt (e_gid e))" "getitem j ''xattrs'' = Inr x"
      "getitem j ''size'' = Inr (JInt (e_size e))" "getitem j ''sha256'' = Inr (JStr (e_sha256 e))"
      "getitem j ''chunks'' = Inr (JArr (map JStr (e_chunks e)))"
      "sort_keys x = sort_keys (JArr (map xattr_json (e_xattrs e)))"
    by (auto simp del: sort_keys.simps(1))
  have "validate_xattrs x = Inr (e_xattrs e)"
    using assms(1) j(11) getitem_distinct [OF j(7) assms(4)]
    by (intro validate_xattrs_complete) (simp_all add: entry_ok_def)
  with j assms(1,2) show ?thesis
    by (simp add: check_object_def entry_ok_def item_Inr)
qed

lemma object_loop_complete:
  "map sort_keys js = map sort_keys (map entry_json es) \<Longrightarrow> list_all json_distinct js \<Longrightarrow>
   list_all entry_ok es \<Longrightarrow> distinct (map e_path (acc @ es)) \<Longrightarrow>
   tot + total_size es \<le> MAX_TOTAL \<Longrightarrow> chunks + total_chunks es \<le> MAX_CHUNKS \<Longrightarrow>
   object_loop acc tot chunks js = Inr (acc @ es, tot + total_size es)"
proof (induction es arbitrary: acc tot chunks js)
  case Nil
  then show ?case by (simp add: total_size_def)
next
  case (Cons e es)
  from Cons.prems(1) obtain i rest where js: "js = i # rest"
    and i: "sort_keys i = sort_keys (entry_json e)"
    and rest: "map sort_keys rest = map sort_keys (map entry_json es)"
    by (cases js) auto
  have "check_object (map e_path acc) i = Inr e"
    using Cons.prems i by (intro check_object_complete) (auto simp: js)
  moreover have "0 \<le> total_size es" "0 \<le> total_chunks es"
    using Cons.prems(3) by (auto simp: list_all_iff intro!: total_size_nonneg total_chunks_nonneg)
  moreover have "object_loop (acc @ [e]) (tot + e_size e) (chunks + int (length (e_chunks e))) rest =
      Inr ((acc @ [e]) @ es, (tot + e_size e) + total_size es)"
    using Cons.prems by (intro Cons.IH rest) (auto simp: js total_size_def total_chunks_def add.assoc)
  ultimately show ?case
    using Cons.prems(5,6) by (simp add: js total_size_def total_chunks_def add.assoc)
qed

lemma check_directory_complete:
  assumes "is_relative p" "attributes_ok a" "sort_keys j = sort_keys (directory_json (p, a))"
    "json_distinct j"
  shows "check_directory j = Inr (p, a)"
proof -
  have eq: "sort_keys j = sort_keys (JObj (map (\<lambda>(k, v). (str k, v))
      [(''path'', JStr p), (''attributes'', attributes_json a)]))"
    using assms(3) by (simp del: sort_keys.simps)
  from sort_keys_recordD [OF eq assms(4)] obtain x
    where j: "dict_fields j [''path'', ''attributes''] = Inr ()" "getitem j ''path'' = Inr (JStr p)"
      "getitem j ''attributes'' = Inr x" "sort_keys x = sort_keys (attributes_json a)"
    by auto
  with assms directory_attributes_complete [of a x] getitem_distinct [OF j(3)] show ?thesis
    by (simp add: check_directory_def item_Inr)
qed

lemma check_directories_complete:
  "map sort_keys js = map sort_keys (map directory_json ds) \<Longrightarrow> list_all json_distinct js \<Longrightarrow>
   \<forall>(p, a)\<in>set ds. is_relative p \<and> attributes_ok a \<Longrightarrow> for_each check_directory js = Inr ds"
proof (induction ds arbitrary: js)
  case (Cons x ds)
  obtain p a where x: "x = (p, a)" by (cases x)
  from Cons.prems(1) obtain i rest where js: "js = i # rest"
    and i: "sort_keys i = sort_keys (directory_json (p, a))"
    and rest: "map sort_keys rest = map sort_keys (map directory_json ds)"
    by (cases js) (auto simp: x simp del: directory_json.simps)
  have "check_directory i = Inr (p, a)"
    using Cons.prems i by (intro check_directory_complete) (auto simp: js x)
  with Cons.IH [OF rest] Cons.prems show ?case by (simp add: js x)
qed simp

lemma check_closure_complete:
  "tree_ok dirs (map e_path es) \<Longrightarrow> has_kind es c ''catalog'' \<Longrightarrow> has_kind es k ''checkpoint'' \<Longrightarrow>
   \<exists>e\<in>set es. e_kind e = str ''journal'' \<Longrightarrow> check_closure dirs es c k = Inr ()"
  by (auto simp: check_closure_def Let_def tree_ok_def sorted_sort_id)

lemma validate_manifest_complete:
  assumes m: "manifest_ok m" and eq: "sort_keys j = sort_keys (manifest_json m)"
    and d: "json_distinct j"
  shows "validate_manifest j = Inr (m, total_size (m_objects m))"
proof -
  let ?kvs = "[(''node'', JStr (m_node m)),
      (''cohort'', JStr (m_cohort m)), (''generation'', JInt (m_generation m)),
      (''trust_epoch'', JInt (m_trust_epoch m)), (''catalog_path'', JStr (m_catalog_path m)),
      (''checkpoint_path'', JStr (m_checkpoint_path m)),
      (''pending'', JArr (map JStr (m_pending m))),
      (''format'', JStr (str ''nia-recovery-manifest-v1'')),
      (''objects'', JArr (map entry_json (m_objects m))),
      (''root_attributes'', attributes_json (m_root_attributes m)),
      (''directories'', JArr (map directory_json (m_directories m)))]"
  have "sort_keys j = sort_keys (JObj (map (\<lambda>(k, v). (str k, v)) ?kvs))"
    using eq by (simp add: manifest_json_def del: sort_keys.simps)
  from sort_keys_recordD [OF this d] obtain r xd xo
    where fields: "dict_fields j (map fst ?kvs) = Inr ()"
      and j: "getitem j ''format'' = Inr (JStr (str ''nia-recovery-manifest-v1''))"
      "getitem j ''node'' = Inr (JStr (m_node m))" "getitem j ''cohort'' = Inr (JStr (m_cohort m))"
      "getitem j ''generation'' = Inr (JInt (m_generation m))"
      "getitem j ''trust_epoch'' = Inr (JInt (m_trust_epoch m))"
      "getitem j ''catalog_path'' = Inr (JStr (m_catalog_path m))"
      "getitem j ''checkpoint_path'' = Inr (JStr (m_checkpoint_path m))"
      "getitem j ''pending'' = Inr (JArr (map JStr (m_pending m)))"
      "getitem j ''root_attributes'' = Inr r" "getitem j ''directories'' = Inr xd"
      "getitem j ''objects'' = Inr xo"
      and r: "sort_keys r = sort_keys (attributes_json (m_root_attributes m))"
      and "sort_keys xd = sort_keys (JArr (map directory_json (m_directories m)))"
      "sort_keys xo = sort_keys (JArr (map entry_json (m_objects m)))"
    by (auto simp del: sort_keys.simps(1))
  then obtain ds objs where xd: "xd = JArr ds" and xo: "xo = JArr objs"
    and ds: "map sort_keys ds = map sort_keys (map directory_json (m_directories m))"
    and objs: "map sort_keys objs = map sort_keys (map entry_json (m_objects m))"
    by (auto simp: sort_keys_eq_JArr)
  have "dict_fields j [''format'', ''node'', ''cohort'', ''generation'', ''trust_epoch'',
      ''catalog_path'', ''checkpoint_path'', ''pending'', ''root_attributes'', ''directories'',
      ''objects''] = Inr ()"
    using fields by (simp add: dict_fields_def insert_commute split: json.splits)
  moreover have "validate_directory_attributes r = Inr (m_root_attributes m)"
    using m r getitem_distinct [OF j(9) d]
    by (intro directory_attributes_complete) (simp_all add: manifest_ok_def)
  moreover have "for_each check_directory ds = Inr (m_directories m)"
    using m ds getitem_distinct [OF j(10) d]
    by (intro check_directories_complete) (simp_all add: manifest_ok_def xd)
  moreover have "object_loop [] 0 0 objs = Inr (m_objects m, total_size (m_objects m))"
    using m objs getitem_distinct [OF j(11) d] object_loop_complete [of objs "m_objects m" "[]" 0 0]
    by (simp add: manifest_ok_def tree_ok_def xo)
  moreover have "map fst (m_directories m) = sorted_set (map fst (m_directories m))"
    using m by (simp add: manifest_ok_def tree_ok_def sorted_set_eq_iff)
  moreover have "check_closure (map fst (m_directories m)) (m_objects m) (m_catalog_path m)
      (m_checkpoint_path m) = Inr ()"
    using m by (intro check_closure_complete) (simp_all add: manifest_ok_def)
  moreover have "length ds = length (m_directories m)" "length objs = length (m_objects m)"
    using arg_cong [OF ds, of length] arg_cong [OF objs, of length] by simp_all
  ultimately show ?thesis
    using m j by (simp add: validate_manifest_def manifest_ok_def item_Inr xd xo)
qed

lemma validate_manifest_iff:
  "json_distinct j \<Longrightarrow> validate_manifest j = Inr (m, t) \<longleftrightarrow>
     manifest_ok m \<and> t = total_size (m_objects m) \<and> sort_keys j = sort_keys (manifest_json m)"
  using validate_manifest_complete [of m j] validate_manifest_sound [of j m t]
    validate_manifest_sort_keys [of j m t] by blast

end
