(* ===== verification/Manifest_Text.thy ===== *)
theory Manifest_Text
  imports Manifest_Canonical
begin

text \<open>
  The canonical text of a manifest: it is within what the reader accepts (characters, integers,
  nesting), so writing a manifest and reading it back gives the same manifest.
\<close>

lemma str_ok_ascii: "(\<And>c. c \<in> set s \<Longrightarrow> c < 128) \<Longrightarrow> str_ok s"
proof (induction s)
  case (Cons c s)
  have "c < 128" "str_ok s" using Cons by auto
  then show ?case by (simp add: str_ok_Cons is_high_def)
qed (simp add: str_ok_def)

lemma str_ok_str [simp]: "\<forall>c\<in>set s. of_char c < (128::nat) \<Longrightarrow> str_ok (str s)"
  by (rule str_ok_ascii) (auto simp: str_def)

lemma is_alnum_ascii: "is_alnum c \<Longrightarrow> c < 128"
  by (auto simp: is_alnum_def is_lower_def is_upper_def is_digit_def)

lemma is_hex_ascii: "is_hex c \<Longrightarrow> c < 128"
  by (auto simp: is_hex_def is_digit_def)

lemma str_ok_hex: "list_all is_hex s \<Longrightarrow> str_ok s"
  by (rule str_ok_ascii) (auto simp: list_all_iff dest: is_hex_ascii)

lemma str_ok_checked [simp]:
  "is_digest s \<Longrightarrow> str_ok s"
  "is_xattr_value s \<Longrightarrow> str_ok s"
  "is_xattr_name s \<Longrightarrow> str_ok s"
  "is_ident s \<Longrightarrow> str_ok s"
  "is_relative s \<Longrightarrow> str_ok s"
  "s \<in> set KINDS \<Longrightarrow> str_ok s"
proof -
  show "is_digest s \<Longrightarrow> str_ok s" "is_xattr_value s \<Longrightarrow> str_ok s"
    by (auto simp: is_digest_def is_xattr_value_def intro: str_ok_hex)
  show "is_xattr_name s \<Longrightarrow> str_ok s"
    by (rule str_ok_ascii) (auto simp: is_xattr_name_def list_all_iff dest!: is_alnum_ascii)
  show "is_ident s \<Longrightarrow> str_ok s"
    by (rule str_ok_ascii)
      (auto simp: is_ident_def list_all_iff split: list.splits dest!: is_alnum_ascii)
  show "is_relative s \<Longrightarrow> str_ok s"
    by (rule str_ok_ascii) (rule relative_ascii)
  show "s \<in> set KINDS \<Longrightarrow> str_ok s"
    by (auto simp: KINDS_def)
qed

lemma json_ok_JInt [simp]:
  assumes "0 \<le> i" "i \<le> 2 ^ 63 - 1"
  shows "json_ok (JInt i)"
proof -
  have "length (dec_nat (nat i)) \<le> 20"
    using assms by (intro length_dec_nat_le) simp_all
  with assms show ?thesis by simp
qed

lemma xattrs_json_ok: "xattrs_ok xs \<Longrightarrow> json_ok (JArr (map xattr_json xs))"
  by (auto simp: xattrs_ok_def)

lemma attributes_json_ok: "attributes_ok a \<Longrightarrow> json_ok (attributes_json a)"
  using xattrs_json_ok [of "a_xattrs a"]
  by (auto simp: attributes_ok_def attributes_json_def simp del: json_ok.simps(1,4))

lemma entry_json_ok: "entry_ok e \<Longrightarrow> json_ok (entry_json e)"
  using xattrs_json_ok [of "e_xattrs e"]
  by (auto simp: entry_ok_def entry_json_def MAX_TOTAL_def CHUNK_def MAX_CHUNKS_def list_all_iff
      simp del: json_ok.simps(1))

lemma directory_json_ok: "is_relative p \<Longrightarrow> attributes_ok a \<Longrightarrow> json_ok (directory_json (p, a))"
  by (simp add: attributes_json_ok)

lemma manifest_json_ok:
  assumes m: "manifest_ok m"
  shows "json_ok (manifest_json m)"
proof -
  have "json_ok (JArr (map directory_json (m_directories m)))"
    using m directory_json_ok by (auto simp: manifest_ok_def simp del: directory_json.simps)
  moreover have "json_ok (JArr (map entry_json (m_objects m)))"
    using m entry_json_ok by (auto simp: manifest_ok_def list_all_iff)
  moreover have "json_ok (JArr (map JStr (m_pending m)))"
    using m by (auto simp: manifest_ok_def list_all_iff)
  moreover have "json_ok (attributes_json (m_root_attributes m))"
    using m by (intro attributes_json_ok) (simp add: manifest_ok_def)
  ultimately show ?thesis
    using m by (simp add: manifest_ok_def manifest_json_def INT_MAX_def del: json_ok.simps(1,4))
qed

lemma manifest_json_depth: "json_depth (manifest_json m) \<le> 6"
  by (auto simp: manifest_json_def attributes_json_def entry_json_def foldr_max_le)

lemma json_ok_distinct: "json_ok j \<Longrightarrow> json_distinct j"
  by (induction j rule: json_ok.induct) (auto simp: list_all_iff)

lemma sort_keys_idem: "json_distinct j \<Longrightarrow> sort_keys (sort_keys j) = sort_keys j"
proof (induction j rule: json_distinct.induct)
  case (1 xs)
  then show ?case by (simp add: list_all_iff)
next
  case (2 kvs)
  let ?f = "\<lambda>(k, v). (k, sort_keys v)"
  let ?s = "sort_key fst (map ?f kvs)"
  have "map ?f ?s = ?s"
    using 2 by (intro map_idI) (auto simp: list_all_iff)
  then show ?case by (simp add: sort_key_id_if_sorted)
qed simp_all

lemma canonical_sorted: "json_distinct j \<Longrightarrow> canonical (sort_keys j) = canonical j"
  by (rule canonical_sort_keys) (rule sort_keys_idem)

lemma decode_manifest:
  "manifest_ok m \<Longrightarrow> 6 \<le> d \<Longrightarrow> length (canonical (manifest_json m)) \<le> LIMIT \<Longrightarrow>
   decode d (canonical (manifest_json m)) = Inr (sort_keys (manifest_json m))"
  by (intro decode_canonical manifest_json_ok le_trans [OF manifest_json_depth])

lemma json_distinct_sort_keys: "json_ok j \<Longrightarrow> json_distinct (sort_keys j)"
  by (intro json_ok_distinct sort_keys_ok)

lemma validate_written_manifest:
  assumes "manifest_ok m"
  shows "validate_manifest (sort_keys (manifest_json m)) = Inr (m, total_size (m_objects m))"
    and "validate_manifest (manifest_json m) = Inr (m, total_size (m_objects m))"
  using assms manifest_json_ok [OF assms]
  by (simp_all add: validate_manifest_complete sort_keys_idem json_ok_distinct json_distinct_sort_keys)

end
