(* ===== verification/Trust_Spec.thy ===== *)
theory Trust_Spec
  imports Trust Manifest_Text
begin

text \<open>
  What \<open>authenticate\<close> promises. The exceptions it can raise; the specification of an accepted trust
  policy; and the meaning of acceptance: a quorum of distinct, unrevoked keys of distinct domains,
  both roles among them, has signed the pinned anchor, and the anchor binds the manifest.
\<close>

section \<open>Exceptions\<close>

lemma raises_key_role [raises_rules]: "raises is_invalid (key_role r b)"
  by (auto simp: key_role_def raises_def split: json.splits)

lemma raises_check_key [raises_rules]: "raises is_invalid (check_key acc k)"
  unfolding check_key_def by (rule raises_rules | (rule raises_item, assumption, simp) | simp)+

lemma raises_key_loop [raises_rules]: "raises is_invalid (key_loop acc ks)"
  by (induction acc ks rule: key_loop.induct) (auto intro!: raises_rules)

lemma raises_validate_trust [raises_rules]: "raises is_invalid (validate_trust t)"
  unfolding validate_trust_def by (rule raises_rules | (rule raises_item, assumption, simp) | simp)+

lemma raises_check_anchor [raises_rules]: "raises is_invalid (check_anchor a)"
  unfolding check_anchor_def by (rule raises_rules | (rule raises_item, assumption, simp) | simp)+

lemma raises_signature_text [raises_rules]: "raises is_invalid (signature_text j)"
  by (auto simp: signature_text_def raises_def split: json.splits)

lemma raises_lookup_key [raises_rules]: "raises is_invalid (lookup_key keys used key)"
  unfolding lookup_key_def by (rule raises_rules | simp)+

lemma raises_check_signature [raises_rules]: "raises is_invalid (check_signature v keys msg used s)"
  unfolding check_signature_def by (rule raises_rules | (rule raises_item, assumption, simp) | simp)+

lemma raises_signature_loop [raises_rules]: "raises is_invalid (signature_loop v keys msg used ss)"
  by (induction v keys msg used ss rule: signature_loop.induct) (auto intro!: raises_rules)

lemmas raises_as_value_error = raises_mono [OF _ is_value_error_invalid]

lemma raises_authenticate: "raises is_value_error (authenticate v d mraw eraw t expected now)"
  unfolding authenticate_def Let_def
  by (rule raises_rbind raises_if raises_prod_case raises_ensure raises_Inr raises_decode
      raises_validate_trust [THEN raises_as_value_error]
      raises_digest [THEN raises_as_value_error]
      raises_integer [THEN raises_as_value_error]
      raises_validate_manifest [THEN raises_as_value_error]
      raises_dict_fields [THEN raises_as_value_error]
      raises_check_anchor [THEN raises_as_value_error]
      raises_the_list [THEN raises_as_value_error]
      raises_signature_loop [THEN raises_as_value_error]
    | (rule raises_item, assumption, simp) | simp)+

section \<open>The trust policy\<close>

definition key_ok :: "signing_key \<Rightarrow> bool" where
  "key_ok k \<longleftrightarrow> is_ident (k_id k) \<and> is_ident (k_domain k) \<and> is_digest (k_public k) \<and>
     k_role k \<in> set ROLES"

definition trust_ok :: "trust \<Rightarrow> bool" where
  "trust_ok t \<longleftrightarrow> is_ident (t_node t) \<and> 1 \<le> t_epoch t \<and> t_epoch t \<le> INT_MAX \<and>
     1 \<le> t_min_generation t \<and> t_min_generation t \<le> INT_MAX \<and>
     2 \<le> t_threshold t \<and> t_threshold t \<le> 32 \<and> 1 \<le> t_lifetime t \<and> t_lifetime t \<le> 86400 \<and>
     t_threshold t \<le> int (length (t_keys t)) \<and> length (t_keys t) \<le> 32 \<and>
     list_all key_ok (t_keys t) \<and>
     distinct (map k_id (t_keys t)) \<and> distinct (map k_public (t_keys t))"

lemma key_role_eq_Inr [simp]:
  "key_role jr jb = Inr (r, b) \<longleftrightarrow> jr = JStr r \<and> jb = JBool b \<and> r \<in> set ROLES"
  by (auto simp: key_role_def split: json.splits)

lemma check_key_ok:
  "check_key acc j = Inr k \<Longrightarrow> key_ok k \<and> k_id k \<notin> k_id ` set acc \<and> k_public k \<notin> k_public ` set acc"
  by (auto simp: check_key_def key_ok_def)

lemma key_loop_ok:
  "key_loop acc js = Inr ks \<Longrightarrow> list_all key_ok acc \<Longrightarrow> distinct (map k_id acc) \<Longrightarrow>
   distinct (map k_public acc) \<Longrightarrow>
   length ks = length acc + length js \<and> list_all key_ok ks \<and> distinct (map k_id ks) \<and>
   distinct (map k_public ks)"
proof (induction acc js rule: key_loop.induct)
  case (2 acc j js)
  from "2.prems"(1) obtain k where k: "check_key acc j = Inr k"
    and rec: "key_loop (acc @ [k]) js = Inr ks" by auto
  from check_key_ok [OF k] "2.IH" [OF k rec] "2.prems" show ?case by auto
qed simp

lemma validate_trust_ok: "validate_trust j = Inr t \<Longrightarrow> trust_ok t"
  by (auto simp: validate_trust_def trust_ok_def dest!: key_loop_ok)

section \<open>The quorum\<close>

definition quorum :: "verifier \<Rightarrow> trust \<Rightarrow> bytes \<Rightarrow> signing_key list \<Rightarrow> bool" where
  "quorum verify t msg ks \<longleftrightarrow> set ks \<subseteq> set (t_keys t) \<and> t_threshold t \<le> int (length ks) \<and>
     distinct (map k_public ks) \<and> distinct (map k_domain ks) \<and>
     (\<forall>k\<in>set ks. \<not> k_revoked k \<and> (\<exists>s. is_signature s \<and> key_verifies verify k s msg)) \<and>
     k_role ` set ks = set ROLES"

lemma signature_text_eq_Inr [simp]: "signature_text j = Inr s \<longleftrightarrow> j = JStr s \<and> is_signature s"
  by (auto simp: signature_text_def split: json.splits)

lemma lookup_key_InrD:
  "lookup_key keys used key = Inr k \<Longrightarrow> k \<in> set keys \<and> k_id k = key \<and> key \<notin> k_id ` set used"
  by (auto simp: lookup_key_def split: option.splits if_splits dest!: map_of_SomeD)

lemma check_signature_ok:
  assumes "check_signature verify keys msg used j = Inr k"
  shows "k \<in> set keys \<and> k_id k \<notin> k_id ` set used \<and> k_domain k \<notin> k_domain ` set used \<and>
    \<not> k_revoked k \<and> (\<exists>s. is_signature s \<and> key_verifies verify k s msg)"
  using assms by (auto simp: check_signature_def dest!: lookup_key_InrD)

lemma signature_loop_ok:
  "signature_loop verify keys msg used js = Inr ks \<Longrightarrow> set used \<subseteq> set keys \<Longrightarrow>
   distinct (map k_id used) \<Longrightarrow> distinct (map k_domain used) \<Longrightarrow>
   \<forall>k\<in>set used. \<not> k_revoked k \<and> (\<exists>s. is_signature s \<and> key_verifies verify k s msg) \<Longrightarrow>
   length ks = length used + length js \<and> set ks \<subseteq> set keys \<and> distinct (map k_id ks) \<and>
   distinct (map k_domain ks) \<and>
   (\<forall>k\<in>set ks. \<not> k_revoked k \<and> (\<exists>s. is_signature s \<and> key_verifies verify k s msg))"
proof (induction verify keys msg used js rule: signature_loop.induct)
  case (2 verify keys msg used j js)
  from "2.prems"(1) obtain k where k: "check_signature verify keys msg used j = Inr k"
    and rec: "signature_loop verify keys msg (used @ [k]) js = Inr ks" by auto
  from check_signature_ok [OF k] "2.IH" [OF k rec] "2.prems" show ?case by auto
qed simp

lemma distinct_public:
  assumes "set ks \<subseteq> set keys" "distinct (map k_id ks)" "distinct (map k_public keys)"
  shows "distinct (map k_public ks)"
proof -
  from assms(2) have "distinct ks" by (simp add: distinct_map)
  moreover have "inj_on k_public (set ks)"
    using assms(1,3) by (auto simp: distinct_map intro: inj_on_subset)
  ultimately show ?thesis by (simp add: distinct_map)
qed

lemma signature_loop_quorum:
  assumes "signature_loop verify (t_keys t) msg [] js = Inr ks" "trust_ok t"
    "t_threshold t \<le> int (length js)" "k_role ` set ks = set ROLES"
  shows "quorum verify t msg ks"
  using signature_loop_ok [OF assms(1)] distinct_public [of ks "t_keys t"] assms(2-)
  by (auto simp: quorum_def trust_ok_def)

section \<open>Policy, anchor and envelope as JSON values\<close>

definition key_json :: "signing_key \<Rightarrow> json" where
  "key_json k = JObj [(str ''id'', JStr (k_id k)), (str ''domain'', JStr (k_domain k)),
     (str ''role'', JStr (k_role k)), (str ''public_key'', JStr (k_public k)),
     (str ''revoked'', JBool (k_revoked k))]"

definition trust_json :: "trust \<Rightarrow> json" where
  "trust_json t = JObj [(str ''format'', JStr (str ''nia-recovery-trust-v1'')),
     (str ''node'', JStr (t_node t)), (str ''trust_epoch'', JInt (t_epoch t)),
     (str ''min_generation'', JInt (t_min_generation t)), (str ''threshold'', JInt (t_threshold t)),
     (str ''max_anchor_lifetime'', JInt (t_lifetime t)),
     (str ''keys'', JArr (map key_json (t_keys t)))]"

definition anchor_json :: "anchor \<Rightarrow> json" where
  "anchor_json a = JObj [(str ''format'', JStr (str ''nia-recovery-anchor-v1'')),
     (str ''node'', JStr (an_node a)), (str ''generation'', JInt (an_generation a)),
     (str ''trust_epoch'', JInt (an_trust_epoch a)), (str ''manifest_sha256'', JStr (an_manifest a)),
     (str ''pending_sha256'', JStr (an_pending a)), (str ''issued'', JInt (an_issued a)),
     (str ''expires'', JInt (an_expires a)), (str ''nonce'', JStr (an_nonce a))]"

fun signature_json :: "pystr \<times> pystr \<Rightarrow> json" where
  "signature_json (k, s) = JObj [(str ''key'', JStr k), (str ''signature'', JStr s)]"

definition envelope_json :: "anchor \<Rightarrow> (pystr \<times> pystr) list \<Rightarrow> json" where
  "envelope_json a ss = JObj [(str ''anchor'', anchor_json a),
     (str ''signatures'', JArr (map signature_json ss))]"

definition anchor_ok :: "anchor \<Rightarrow> bool" where
  "anchor_ok a \<longleftrightarrow> is_ident (an_node a) \<and> is_ident (an_nonce a) \<and>
     0 \<le> an_generation a \<and> an_generation a \<le> INT_MAX \<and> 0 \<le> an_trust_epoch a \<and> an_trust_epoch a \<le> INT_MAX \<and>
     0 \<le> an_issued a \<and> an_issued a \<le> INT_MAX \<and> 0 \<le> an_expires a \<and> an_expires a \<le> INT_MAX \<and>
     is_digest (an_manifest a) \<and> is_digest (an_pending a)"

lemma check_anchor_iff:
  assumes d: "json_distinct j"
  shows "check_anchor j = Inr a \<longleftrightarrow> anchor_ok a \<and> sort_keys j = sort_keys (anchor_json a)"
proof -
  let ?kvs = "[(''format'', JStr (str ''nia-recovery-anchor-v1'')),
     (''node'', JStr (an_node a)), (''generation'', JInt (an_generation a)),
     (''trust_epoch'', JInt (an_trust_epoch a)), (''manifest_sha256'', JStr (an_manifest a)),
     (''pending_sha256'', JStr (an_pending a)), (''issued'', JInt (an_issued a)),
     (''expires'', JInt (an_expires a)), (''nonce'', JStr (an_nonce a))]"
  have "sort_keys j = sort_keys (anchor_json a) \<longleftrightarrow> dict_fields j (map fst ?kvs) = Inr () \<and>
      list_all (\<lambda>(k, v'). \<exists>v. getitem j k = Inr v \<and> sort_keys v = sort_keys v') ?kvs"
    using sort_keys_record_iff [OF d, of ?kvs] by (simp add: anchor_json_def del: sort_keys.simps)
  then show ?thesis
    by (cases a) (auto simp: check_anchor_def anchor_ok_def)
qed

lemma check_key_iff:
  assumes d: "json_distinct j"
  shows "check_key acc j = Inr k \<longleftrightarrow> key_ok k \<and> k_id k \<notin> k_id ` set acc \<and>
    k_public k \<notin> k_public ` set acc \<and> sort_keys j = sort_keys (key_json k)"
proof -
  let ?kvs = "[(''id'', JStr (k_id k)), (''domain'', JStr (k_domain k)),
     (''role'', JStr (k_role k)), (''public_key'', JStr (k_public k)),
     (''revoked'', JBool (k_revoked k))]"
  have "sort_keys j = sort_keys (key_json k) \<longleftrightarrow> dict_fields j (map fst ?kvs) = Inr () \<and>
      list_all (\<lambda>(k, v'). \<exists>v. getitem j k = Inr v \<and> sort_keys v = sort_keys v') ?kvs"
    using sort_keys_record_iff [OF d, of ?kvs] by (simp add: key_json_def del: sort_keys.simps)
  moreover have "dict_fields j (map fst ?kvs) =
      dict_fields j [''id'', ''domain'', ''role'', ''public_key'', ''revoked'']"
    by simp
  ultimately show ?thesis
    by (cases k) (auto simp: check_key_def key_ok_def)
qed

lemma key_loop_sort_keys:
  "key_loop acc js = Inr ks \<Longrightarrow> list_all json_distinct js \<Longrightarrow>
   \<exists>new. ks = acc @ new \<and> map sort_keys js = map sort_keys (map key_json new)"
proof (induction acc js rule: key_loop.induct)
  case (2 acc j js)
  from "2.prems"(1) obtain k where k: "check_key acc j = Inr k"
    and rec: "key_loop (acc @ [k]) js = Inr ks" by auto
  from "2.IH" [OF k rec] "2.prems"(2) obtain new where
    "ks = (acc @ [k]) @ new" "map sort_keys js = map sort_keys (map key_json new)" by auto
  moreover have "sort_keys j = sort_keys (key_json k)"
    using k check_key_iff [of j acc k] "2.prems"(2) by simp
  ultimately show ?case by (intro exI [of _ "k # new"]) simp
qed simp

lemma key_loop_complete:
  "map sort_keys js = map sort_keys (map key_json ks) \<Longrightarrow> list_all json_distinct js \<Longrightarrow>
   list_all key_ok ks \<Longrightarrow> distinct (map k_id (acc @ ks)) \<Longrightarrow> distinct (map k_public (acc @ ks)) \<Longrightarrow>
   key_loop acc js = Inr (acc @ ks)"
proof (induction ks arbitrary: acc js)
  case (Cons k ks)
  from Cons.prems(1) obtain i rest where js: "js = i # rest"
    and i: "sort_keys i = sort_keys (key_json k)"
    and rest: "map sort_keys rest = map sort_keys (map key_json ks)"
    by (cases js) auto
  have "check_key acc i = Inr k"
    using Cons.prems i check_key_iff [of i acc k] by (auto simp: js)
  moreover have "key_loop (acc @ [k]) rest = Inr ((acc @ [k]) @ ks)"
    using Cons.prems by (intro Cons.IH rest) (auto simp: js)
  ultimately show ?case by (simp add: js)
qed simp

lemma validate_trust_iff:
  assumes d: "json_distinct j"
  shows "validate_trust j = Inr t \<longleftrightarrow> trust_ok t \<and> sort_keys j = sort_keys (trust_json t)"
proof -
  let ?kvs = "[(''format'', JStr (str ''nia-recovery-trust-v1'')),
     (''node'', JStr (t_node t)), (''trust_epoch'', JInt (t_epoch t)),
     (''min_generation'', JInt (t_min_generation t)), (''threshold'', JInt (t_threshold t)),
     (''max_anchor_lifetime'', JInt (t_lifetime t)),
     (''keys'', JArr (map key_json (t_keys t)))]"
  have iff: "sort_keys j = sort_keys (trust_json t) \<longleftrightarrow> dict_fields j (map fst ?kvs) = Inr () \<and>
      list_all (\<lambda>(k, v'). \<exists>v. getitem j k = Inr v \<and> sort_keys v = sort_keys v') ?kvs"
    using sort_keys_record_iff [OF d, of ?kvs] by (simp add: trust_json_def del: sort_keys.simps)
  show ?thesis
  proof
    assume *: "validate_trust j = Inr t"
    then obtain ks where ks: "getitem j ''keys'' = Inr (JArr ks)" "key_loop [] ks = Inr (t_keys t)"
      by (auto simp: validate_trust_def)
    with key_loop_sort_keys [of "[]" ks] getitem_distinct [OF _ d]
    have "map sort_keys ks = map sort_keys (map key_json (t_keys t))" by force
    with * ks(1) show "trust_ok t \<and> sort_keys j = sort_keys (trust_json t)"
      using validate_trust_ok [OF *] unfolding iff by (auto simp: validate_trust_def)
  next
    assume *: "trust_ok t \<and> sort_keys j = sort_keys (trust_json t)"
    then obtain ks where ks: "getitem j ''keys'' = Inr (JArr ks)"
      "map sort_keys ks = map sort_keys (map key_json (t_keys t))"
      unfolding iff by (auto simp: sort_keys_eq_JArr)
    have "key_loop [] ks = Inr (t_keys t)"
      using key_loop_complete [OF ks(2), of "[]"] * getitem_distinct [OF ks(1) d]
      by (simp add: trust_ok_def)
    moreover have "length ks = length (t_keys t)"
      using arg_cong [OF ks(2), of length] by simp
    ultimately show "validate_trust j = Inr t"
      using * ks unfolding iff by (simp add: validate_trust_def trust_ok_def item_Inr)
  qed
qed

section \<open>Signatures\<close>

text \<open>A signer set that the loop accepts: the converse of \<open>signature_loop_ok\<close>.\<close>

definition signers_ok :: "verifier \<Rightarrow> bytes \<Rightarrow> (signing_key \<times> pystr) list \<Rightarrow> bool" where
  "signers_ok verify msg ss \<longleftrightarrow> distinct (map (k_id \<circ> fst) ss) \<and> distinct (map (k_domain \<circ> fst) ss) \<and>
     (\<forall>(k, s)\<in>set ss. \<not> k_revoked k \<and> is_signature s \<and> key_verifies verify k s msg)"

lemma check_signature_complete:
  assumes "k \<in> set keys" "distinct (map k_id keys)" "is_ident (k_id k)"
    "k_id k \<notin> k_id ` set used" "k_domain k \<notin> k_domain ` set used"
    "\<not> k_revoked k" "is_signature s" "key_verifies verify k s msg"
    "sort_keys j = sort_keys (signature_json (k_id k, s))" "json_distinct j"
  shows "check_signature verify keys msg used j = Inr k"
proof -
  have "map fst (map (\<lambda>k. (k_id k, k)) keys) = map k_id keys" by simp
  with assms(1,2) have "map_of (map (\<lambda>k. (k_id k, k)) keys) (k_id k) = Some k"
    by (intro map_of_is_SomeI) (simp_all only:, force)
  then have "lookup_key keys used (k_id k) = Inr k"
    using assms(4) by (auto simp: lookup_key_def)
  with assms show ?thesis
    using sort_keys_recordD [of j "[(''key'', JStr (k_id k)), (''signature'', JStr s)]"]
    by (auto simp: check_signature_def item_Inr simp del: sort_keys.simps(1,2))
qed

lemma signature_loop_complete:
  "map sort_keys js = map sort_keys (map (\<lambda>(k, s). signature_json (k_id k, s)) ss) \<Longrightarrow>
   list_all json_distinct js \<Longrightarrow> fst ` set ss \<subseteq> set keys \<Longrightarrow> distinct (map k_id keys) \<Longrightarrow>
   list_all key_ok keys \<Longrightarrow> signers_ok verify msg ss \<Longrightarrow>
   k_id ` set used \<inter> (k_id \<circ> fst) ` set ss = {} \<Longrightarrow>
   k_domain ` set used \<inter> (k_domain \<circ> fst) ` set ss = {} \<Longrightarrow>
   signature_loop verify keys msg used js = Inr (used @ map fst ss)"
proof (induction ss arbitrary: used js)
  case (Cons x ss)
  obtain k s where x: "x = (k, s)" by (cases x)
  from Cons.prems(1) obtain i rest where js: "js = i # rest"
    and i: "sort_keys i = sort_keys (signature_json (k_id k, s))"
    and rest: "map sort_keys rest = map sort_keys (map (\<lambda>(k, s). signature_json (k_id k, s)) ss)"
    by (cases js) (auto simp: x simp del: signature_json.simps)
  have "check_signature verify keys msg used i = Inr k"
    using Cons.prems i
    by (intro check_signature_complete [of k keys used s]) (auto simp: js x signers_ok_def key_ok_def list_all_iff)
  moreover have "signature_loop verify keys msg (used @ [k]) rest = Inr ((used @ [k]) @ map fst ss)"
    using Cons.prems by (intro Cons.IH rest) (auto simp: js x signers_ok_def)
  ultimately show ?case by (simp add: js x)
qed simp

section \<open>authenticate\<close>

definition anchor_binds :: "trust \<Rightarrow> manifest \<Rightarrow> anchor \<Rightarrow> pystr \<Rightarrow> int \<Rightarrow> bool" where
  "anchor_binds t m a expected now \<longleftrightarrow>
     sha (canonical (anchor_json a)) = expected \<and>
     an_manifest a = sha (canonical (manifest_json m)) \<and>
     an_pending a = sha (canonical (JArr (map JStr (m_pending m)))) \<and>
     an_node a = t_node t \<and> m_node m = t_node t \<and>
     an_generation a = m_generation m \<and> t_min_generation t \<le> m_generation m \<and>
     an_trust_epoch a = t_epoch t \<and> m_trust_epoch m = t_epoch t \<and>
     an_issued a \<le> now \<and> now < an_expires a \<and> an_expires a - an_issued a \<le> t_lifetime t"

lemma authenticate_InrD:
  assumes "authenticate verify d mraw eraw tj expected now = Inr (m, a)"
  shows "\<exists>t ks. validate_trust tj = Inr t \<and> manifest_ok m \<and> mraw = canonical (manifest_json m) \<and>
    anchor_ok a \<and> anchor_binds t m a expected now \<and>
    quorum verify t (DOMAIN @ canonical (anchor_json a)) ks"
proof -
  from assms obtain t mj e aj sigs ks tot where t: "validate_trust tj = Inr t"
    and mj: "decode d mraw = Inr mj" "validate_manifest mj = Inr (m, tot)" "canonical mj = mraw"
    and e: "decode d eraw = Inr e" "getitem e ''anchor'' = Inr aj" "check_anchor aj = Inr a"
    and pin: "sha (canonical aj) = expected"
    and floors: "an_node a = t_node t \<and> an_node a = m_node m \<and>
      an_generation a = m_generation m \<and> t_min_generation t \<le> an_generation a \<and>
      an_trust_epoch a = t_epoch t \<and> an_trust_epoch a = m_trust_epoch m"
    and fresh: "an_issued a \<le> now \<and> now < an_expires a \<and> an_expires a - an_issued a \<le> t_lifetime t"
    and hashes: "an_manifest a = sha mraw \<and> an_pending a = sha (canonical (JArr (map JStr (m_pending m))))"
    and sigs: "t_threshold t \<le> int (length sigs)"
      "signature_loop verify (t_keys t) (DOMAIN @ canonical aj) [] sigs = Inr ks"
      "k_role ` set ks = set ROLES"
    by (auto simp: authenticate_def Let_def)
  have d: "json_distinct aj" by (rule getitem_distinct [OF e(2) decode_distinct [OF e(1)]])
  from check_anchor_iff [OF d] e(3) have a: "anchor_ok a"
    and aj: "canonical aj = canonical (anchor_json a)" by (auto intro: canonical_sort_keys)
  have raw: "mraw = canonical (manifest_json m)"
    using validate_manifest_canonical [OF mj(1,2)] mj(3) by simp
  have "quorum verify t (DOMAIN @ canonical (anchor_json a)) ks"
    using signature_loop_quorum [OF sigs(2) validate_trust_ok [OF t] sigs(1,3)] by (simp add: aj)
  moreover have "anchor_binds t m a expected now"
    using pin floors fresh hashes unfolding anchor_binds_def aj raw by auto
  ultimately show ?thesis
    using t validate_manifest_sound [OF mj(2)] raw a by blast
qed

lemma authenticate_complete:
  assumes t: "validate_trust tj = Inr t" and m: "manifest_ok m" "6 \<le> d"
    "length (canonical (manifest_json m)) \<le> LIMIT"
    and now: "0 \<le> now" "now \<le> INT_MAX" and expected: "is_digest expected"
    and a: "anchor_ok a" "anchor_binds t m a expected now"
    and e: "decode d eraw = Inr e"
      "sort_keys e = sort_keys (envelope_json a (map (\<lambda>(k, s). (k_id k, s)) ss))"
    and ss: "fst ` set ss \<subseteq> set (t_keys t)" "t_threshold t \<le> int (length ss)" "length ss \<le> 32"
      "signers_ok verify (DOMAIN @ canonical (anchor_json a)) ss" "k_role ` fst ` set ss = set ROLES"
  shows "authenticate verify d (canonical (manifest_json m)) eraw tj expected now = Inr (m, a)"
proof -
  let ?kvs = "[(''anchor'', anchor_json a),
    (''signatures'', JArr (map signature_json (map (\<lambda>(k, s). (k_id k, s)) ss)))]"
  have ed: "json_distinct e" using e(1) by (rule decode_distinct)
  have "sort_keys e = sort_keys (JObj (map (\<lambda>(k, v). (str k, v)) ?kvs))"
    using e(2) by (simp add: envelope_json_def del: sort_keys.simps)
  from sort_keys_recordD [OF this ed] obtain aj sj
    where ej: "dict_fields e [''anchor'', ''signatures''] = Inr ()" "getitem e ''anchor'' = Inr aj"
      "getitem e ''signatures'' = Inr sj" and aj: "sort_keys aj = sort_keys (anchor_json a)"
      and "sort_keys sj = sort_keys (JArr (map signature_json (map (\<lambda>(k, s). (k_id k, s)) ss)))"
    by auto
  then obtain sigs where sj: "sj = JArr sigs"
    and sigs: "map sort_keys sigs = map sort_keys (map (\<lambda>(k, s). signature_json (k_id k, s)) ss)"
    by (auto simp: sort_keys_eq_JArr case_prod_beta comp_def)
  have tok: "trust_ok t" using t by (rule validate_trust_ok)
  have "check_anchor aj = Inr a"
    using check_anchor_iff [OF getitem_distinct [OF ej(2) ed]] a(1) aj by blast
  moreover have raw: "canonical aj = canonical (anchor_json a)" using aj by (rule canonical_sort_keys)
  moreover have "signature_loop verify (t_keys t) (DOMAIN @ canonical (anchor_json a)) [] sigs =
      Inr (map fst ss)"
    using signature_loop_complete [OF sigs, of "t_keys t" verify "DOMAIN @ canonical (anchor_json a)" "[]"]
      tok ss getitem_distinct [OF ej(3) ed] by (simp add: trust_ok_def sj)
  moreover have "length sigs = length ss" using arg_cong [OF sigs, of length] by simp
  moreover have "canonical (sort_keys (manifest_json m)) = canonical (manifest_json m)"
    using m(1) by (intro canonical_sorted json_ok_distinct manifest_json_ok)
  ultimately show ?thesis
    using t decode_manifest [OF m] validate_written_manifest [OF m(1)] e(1) ej sj now expected a(2) ss
    by (simp add: authenticate_def Let_def anchor_binds_def item_Inr image_image)
qed

lemma is_digest_sha [simp]: "is_digest (sha b)"
  using hex_bytes_is_hex [of _ "sha256 b"]
  by (auto simp: is_digest_def list_all_iff sha_def length_hex_bytes)

end
