(* ===== verification/Json_Size.thy ===== *)
theory Json_Size
  imports Json_Dict "HOL-Library.Multiset"
begin

text \<open>
  How long a canonical text can get: at most twelve bytes for a character, and a constant for every
  bracket, comma and colon. The bound is a sum over the value, so sorting keys does not change it.
\<close>

fun text_size :: "json \<Rightarrow> nat" where
  "text_size JNull = 4"
| "text_size (JBool b) = 5"
| "text_size (JInt i) = length (dec_int i)"
| "text_size (JFloat r) = length r"
| "text_size (JStr s) = 12 * length s + 2"
| "text_size (JArr xs) = 2 + sum_list (map (\<lambda>x. text_size x + 1) xs)"
| "text_size (JObj kvs) = 2 + sum_list (map (\<lambda>(k, v). 12 * length k + text_size v + 4) kvs)"

lemma length_esc: "length (esc c) \<le> 12"
  by (simp add: esc_def hex4_def)

lemma length_quote: "length (quote s) \<le> 12 * length s + 2"
proof -
  have "length (concat (map esc s)) \<le> 12 * length s"
  proof (induction s)
    case (Cons c s)
    with length_esc [of c] show ?case by simp
  qed simp
  then show ?thesis by (simp add: quote_def)
qed

lemma length_join: "length (join_with sep ps) \<le> sum_list (map (\<lambda>p. length p + 1) ps)"
  by (induction sep ps rule: join_with.induct) auto

lemma length_dumps: "length (dumps j) \<le> text_size j"
proof (induction j rule: text_size.induct)
  case (6 xs)
  have "sum_list (map (\<lambda>p. length p + 1) (map dumps xs)) \<le> sum_list (map (\<lambda>x. text_size x + 1) xs)"
    using 6 by (simp add: comp_def sum_list_mono)
  with length_join [of 44 "map dumps xs"] show ?case by simp
next
  case (7 kvs)
  have "length (quote k @ 58 # dumps v) + 1 \<le> 12 * length k + text_size v + 4" if "(k, v) \<in> set kvs" for k v
    using 7 [OF that refl] length_quote [of k] by simp
  then have "sum_list (map (\<lambda>p. length p + 1) (map (\<lambda>(k, v). quote k @ 58 # dumps v) kvs)) \<le>
      sum_list (map (\<lambda>(k, v). 12 * length k + text_size v + 4) kvs)"
    unfolding map_map comp_def by (intro sum_list_mono) auto
  with length_join [of 44 "map (\<lambda>(k, v). quote k @ 58 # dumps v) kvs"] show ?case by simp
qed (use length_quote in \<open>auto simp: str_def\<close>)

lemma sum_list_sort_key: "sum_list (map f (sort_key k xs)) = sum_list (map (f :: _ \<Rightarrow> nat) xs)"
proof -
  have "sum_list (map f ys) = sum_mset (image_mset f (mset ys))" for ys
    by (simp flip: mset_map add: sum_mset_sum_list)
  then show ?thesis by simp
qed

lemma text_size_sort_keys: "text_size (sort_keys j) = text_size j"
proof (induction j rule: text_size.induct)
  case (6 xs)
  then show ?case by (simp add: comp_def cong: map_cong)
next
  case (7 kvs)
  have "map ((\<lambda>(k, v). 12 * length k + text_size v + 4) \<circ> (\<lambda>(k, v). (k, sort_keys v))) kvs =
      map (\<lambda>(k, v). 12 * length k + text_size v + 4) kvs"
    using 7 by auto
  then show ?case by (simp only: sort_keys.simps text_size.simps sum_list_sort_key map_map)
qed simp_all

lemma length_canonical: "length (canonical j) \<le> text_size j"
  using length_dumps [of "sort_keys j"] by (simp add: canonical_def ascii_bytes_def text_size_sort_keys)

end
