(* ===== verification/Program.thy ===== *)
theory Program
  imports Checks
begin

text \<open>
  Programs that talk to an environment. A program is a function from a machine to a result and the
  machine after it. The machine answers every question (a system call, say) through \<open>w_os\<close>, an
  arbitrary function of the conversation so far, so a theorem about a program holds for every
  environment, every concurrent change of it and every failure. The combinators are Python's
  control flow: sequencing, \<open>raise\<close>, \<open>try/except\<close>, \<open>try/finally\<close>. Questions and answers are type
  parameters: theory \<open>World\<close> takes file system calls, theory \<open>Guard\<close> process control.
\<close>

section \<open>Machines\<close>

text \<open>
  \<open>w_fds\<close> holds the open descriptors, \<open>w_cwd\<close> the parts of the working directory, \<open>w_time\<close> the
  monotonic clock in nanoseconds.
\<close>

record ('q, 'r) machine =
  w_os :: "('q \<times> 'r) list \<Rightarrow> 'q \<Rightarrow> 'r"
  w_log :: "('q \<times> 'r) list"
  w_fds :: "nat list"
  w_cwd :: "pystr list"
  w_time :: int

text \<open>An \<open>OSError\<close> whose errno is \<open>EEXIST\<close> is a \<open>FileExistsError\<close>.\<close>

definition os_error :: "nat \<Rightarrow> exn" where
  "os_error n = (if n = 17 then FileExistsError else OSError n)"

section \<open>Programs\<close>

type_synonym ('q, 'r, 'a) prog = "('q, 'r) machine \<Rightarrow> 'a res \<times> ('q, 'r) machine"

definition ret :: "'a \<Rightarrow> ('q, 'r, 'a) prog" where
  "ret x w = (Inr x, w)"

definition raise :: "exn \<Rightarrow> ('q, 'r, 'a) prog" where
  "raise e w = (Inl e, w)"

definition lift :: "'a res \<Rightarrow> ('q, 'r, 'a) prog" where
  "lift r w = (r, w)"

definition seq :: "('q, 'r, 'a) prog \<Rightarrow> ('a \<Rightarrow> ('q, 'r, 'b) prog) \<Rightarrow> ('q, 'r, 'b) prog" where
  "seq m f w = (case m w of (Inl e, w') \<Rightarrow> (Inl e, w') | (Inr x, w') \<Rightarrow> f x w')"

text \<open>\<open>try: m except <the exceptions in P>: h\<close>\<close>

definition catch :: "(exn \<Rightarrow> bool) \<Rightarrow> ('q, 'r, 'a) prog \<Rightarrow> (exn \<Rightarrow> ('q, 'r, 'a) prog) \<Rightarrow> ('q, 'r, 'a) prog" where
  "catch P m h w = (case m w of (Inl e, w') \<Rightarrow> if P e then h e w' else (Inl e, w') | (Inr x, w') \<Rightarrow> (Inr x, w'))"

text \<open>\<open>try: m finally: c\<close>, and \<open>try: m except BaseException: c; raise\<close>\<close>

definition always :: "('q, 'r, 'a) prog \<Rightarrow> ('q, 'r, unit) prog \<Rightarrow> ('q, 'r, 'a) prog" where
  "always m c w = (case m w of (r, w') \<Rightarrow> case c w' of (Inl e, w'') \<Rightarrow> (Inl e, w'') | (Inr _, w'') \<Rightarrow> (r, w''))"

definition on_error :: "('q, 'r, 'a) prog \<Rightarrow> ('q, 'r, unit) prog \<Rightarrow> ('q, 'r, 'a) prog" where
  "on_error m c w =
     (case m w of
        (Inl e, w') \<Rightarrow> (case c w' of (Inl e', w'') \<Rightarrow> (Inl e', w'') | (Inr _, w'') \<Rightarrow> (Inl e, w''))
      | (Inr x, w') \<Rightarrow> (Inr x, w'))"

definition check :: "bool \<Rightarrow> exn \<Rightarrow> ('q, 'r, unit) prog" where
  "check b e = (if b then ret () else raise e)"

fun each :: "('a \<Rightarrow> ('q, 'r, 'b) prog) \<Rightarrow> 'a list \<Rightarrow> ('q, 'r, 'b list) prog" where
  "each f [] = ret []"
| "each f (x # xs) = seq (f x) (\<lambda>y. seq (each f xs) (\<lambda>ys. ret (y # ys)))"

lemma seq_cong [fundef_cong]:
  "m w = m' w' \<Longrightarrow> (\<And>x v. m' w' = (Inr x, v) \<Longrightarrow> f x v = f' x v) \<Longrightarrow> seq m f w = seq m' f' w'"
  by (auto simp: seq_def split: prod.splits sum.splits)

lemma always_cong [fundef_cong]: "m w = m' w' \<Longrightarrow> c = c' \<Longrightarrow> always m c w = always m' c' w'"
  by (simp add: always_def)

text \<open>\<open>try: m except <P> as e\<close> with the outcome as a value, for code that goes on after either.\<close>

definition attempt :: "(exn \<Rightarrow> bool) \<Rightarrow> ('q, 'r, 'a) prog \<Rightarrow> ('q, 'r, 'a res) prog" where
  "attempt P m = catch P (seq m (\<lambda>x. ret (Inr x))) (\<lambda>e. ret (Inl e))"

text \<open>\<open>except (OSError, Invalid)\<close>\<close>

definition os_or_invalid :: "exn \<Rightarrow> bool" where
  "os_or_invalid e \<longleftrightarrow> is_os_error e \<or> is_invalid e"

section \<open>Questions and answers\<close>

definition answer_of :: "'q \<Rightarrow> ('q, 'r) machine \<Rightarrow> 'r" where
  "answer_of c w = w_os w (w_log w) c"

definition logged :: "'q \<Rightarrow> ('q, 'r) machine \<Rightarrow> ('q, 'r) machine" where
  "logged c w = w\<lparr>w_log := w_log w @ [(c, answer_of c w)]\<rparr>"

section \<open>Reasoning about programs\<close>

text \<open>
  \<open>wp m Q w\<close>: run from \<open>w\<close>, \<open>m\<close> ends with a result and a world that satisfy \<open>Q\<close>. Every program is
  total, so this is total correctness. The rules in \<open>wp\<close> rewrite it along the program text.
\<close>

definition wp :: "('q, 'r, 'a) prog \<Rightarrow> ('a res \<Rightarrow> ('q, 'r) machine \<Rightarrow> bool) \<Rightarrow> ('q, 'r) machine \<Rightarrow> bool" where
  "wp m Q w \<longleftrightarrow> (case m w of (r, w') \<Rightarrow> Q r w')"

named_theorems wp_rules

lemma wp_ret [wp_rules]: "wp (ret x) Q w = Q (Inr x) w"
  by (simp add: wp_def ret_def)

lemma wp_raise [wp_rules]: "wp (raise e) Q w = Q (Inl e) w"
  by (simp add: wp_def raise_def)

lemma wp_lift [wp_rules]: "wp (lift r) Q w = Q r w"
  by (simp add: wp_def lift_def)

lemma wp_seq [wp_rules]:
  "wp (seq m f) Q w = wp m (\<lambda>r v. case r of Inl e \<Rightarrow> Q (Inl e) v | Inr x \<Rightarrow> wp (f x) Q v) w"
  by (auto simp: wp_def seq_def split: prod.splits sum.splits)

lemma wp_catch [wp_rules]:
  "wp (catch P m h) Q w =
     wp m (\<lambda>r v. case r of Inl e \<Rightarrow> if P e then wp (h e) Q v else Q (Inl e) v | Inr x \<Rightarrow> Q (Inr x) v) w"
  by (auto simp: wp_def catch_def split: prod.splits sum.splits)

lemma wp_always [wp_rules]:
  "wp (always m c) Q w = wp m (\<lambda>r v. wp c (\<lambda>r' v'. case r' of Inl e \<Rightarrow> Q (Inl e) v' | Inr _ \<Rightarrow> Q r v') v) w"
  by (auto simp: wp_def always_def split: prod.splits sum.splits)

lemma wp_on_error [wp_rules]:
  "wp (on_error m c) Q w =
     wp m (\<lambda>r v. case r of Inl e \<Rightarrow> wp c (\<lambda>r' v'. case r' of Inl e' \<Rightarrow> Q (Inl e') v' | Inr _ \<Rightarrow> Q (Inl e) v') v
                        | Inr x \<Rightarrow> Q (Inr x) v) w"
  by (auto simp: wp_def on_error_def split: prod.splits sum.splits)

lemma wp_check [wp_rules]: "wp (check b e) Q w = (if b then Q (Inr ()) w else Q (Inl e) w)"
  by (simp add: check_def wp_rules)

lemma wp_mono: "wp m P w \<Longrightarrow> (\<And>r v. P r v \<Longrightarrow> Q r v) \<Longrightarrow> wp m Q w"
  by (auto simp: wp_def split: prod.splits)

lemma wp_conj: "wp m (\<lambda>r v. P r v \<and> Q r v) w \<longleftrightarrow> wp m P w \<and> wp m Q w"
  by (auto simp: wp_def split: prod.splits)

lemma wp_True [simp]: "wp m (\<lambda>r v. True) w"
  by (simp add: wp_def)

section \<open>Returns along the program text\<close>

named_theorems runs

lemma seq_Inr_iff [runs]:
  "seq m f w = (Inr y, v) \<longleftrightarrow> (\<exists>x u. m w = (Inr x, u) \<and> f x u = (Inr y, v))"
  by (auto simp: seq_def split: prod.splits sum.splits)

lemma pure_Inr_iff [runs]:
  "ret x w = (Inr y, v) \<longleftrightarrow> x = y \<and> w = v"
  "raise e w = (Inr z, v) \<longleftrightarrow> False"
  "lift r w = (Inr z, v) \<longleftrightarrow> r = Inr z \<and> w = v"
  "check b e w = (Inr u, v) \<longleftrightarrow> b \<and> w = v"
  by (auto simp: ret_def raise_def lift_def check_def)

lemma always_Inr_iff [runs]:
  "always m c w = (Inr y, v) \<longleftrightarrow> (\<exists>u. m w = (Inr y, u) \<and> c u = (Inr (), v))"
  by (auto simp: always_def split: prod.splits sum.splits)

lemma on_error_Inr_iff [runs]: "on_error m c w = (Inr y, v) \<longleftrightarrow> m w = (Inr y, v)"
  by (auto simp: on_error_def split: prod.splits sum.splits)

lemma catch_Inr_iff [runs]:
  "catch P m h w = (Inr y, v) \<longleftrightarrow>
     m w = (Inr y, v) \<or> (\<exists>e u. m w = (Inl e, u) \<and> P e \<and> h e u = (Inr y, v))"
  by (auto simp: catch_def split: prod.splits sum.splits)

lemma attempt_Inr_iff [runs]:
  "attempt P m w = (Inr r, v) \<longleftrightarrow> m w = (r, v) \<and> (\<forall>e. r = Inl e \<longrightarrow> P e)"
  by (cases r) (auto simp: attempt_def catch_def seq_def ret_def split: prod.splits sum.splits)

lemma if_run [runs]: "(if b then m else n) w = (if b then m w else n w)"
  by simp

section \<open>Which questions a program asks\<close>

definition only :: "('q \<Rightarrow> bool) \<Rightarrow> ('q, 'r, 'a) prog \<Rightarrow> bool" where
  "only C m \<longleftrightarrow> (\<forall>w. \<exists>l. w_log (snd (m w)) = w_log w @ l \<and> (\<forall>e\<in>set l. C (fst e)))"

named_theorems only_rules

lemma onlyI: "(\<And>w. \<exists>l. w_log (snd (m w)) = w_log w @ l \<and> (\<forall>e\<in>set l. C (fst e))) \<Longrightarrow> only C m"
  by (simp add: only_def)

lemma onlyE:
  assumes "only C m"
  obtains l where "w_log (snd (m w)) = w_log w @ l" "\<forall>e\<in>set l. C (fst e)"
  using assms by (auto simp: only_def)

lemma only_pure [only_rules]: "only C (ret x)" "only C (raise e)" "only C (lift r)" "only C (check b e)"
  by (auto simp: only_def ret_def raise_def lift_def check_def)

lemma only_seq [only_rules]:
  assumes m: "only C m" and f: "\<And>x. only C (f x)"
  shows "only C (seq m f)"
proof (rule onlyI)
  fix w
  obtain r v where mw: "m w = (r, v)" by (cases "m w")
  obtain l where l: "w_log v = w_log w @ l" "\<forall>e\<in>set l. C (fst e)"
    using onlyE [OF m, of w] mw by auto
  show "\<exists>l. w_log (snd (seq m f w)) = w_log w @ l \<and> (\<forall>e\<in>set l. C (fst e))"
  proof (cases r)
    case (Inl e)
    with l mw show ?thesis by (auto simp: seq_def)
  next
    case (Inr x)
    obtain l' where "w_log (snd (f x v)) = w_log v @ l'" "\<forall>e\<in>set l'. C (fst e)"
      using onlyE [OF f, of x v] by auto
    with l mw Inr show ?thesis by (intro exI [of _ "l @ l'"]) (auto simp: seq_def)
  qed
qed

text \<open>It is enough to look at the values the first program can return.\<close>

lemma only_seq_yields:
  assumes m: "only C m" and f: "\<And>x w v. m w = (Inr x, v) \<Longrightarrow> only C (f x)"
  shows "only C (seq m f)"
proof (rule onlyI)
  fix w
  obtain r v where mw: "m w = (r, v)" by (cases "m w")
  obtain l where l: "w_log v = w_log w @ l" "\<forall>e\<in>set l. C (fst e)"
    using onlyE [OF m, of w] mw by auto
  show "\<exists>l. w_log (snd (seq m f w)) = w_log w @ l \<and> (\<forall>e\<in>set l. C (fst e))"
  proof (cases r)
    case (Inr x)
    with mw have "m w = (Inr x, v)" by simp
    from f [OF this] obtain l' where "w_log (snd (f x v)) = w_log v @ l'" "\<forall>e\<in>set l'. C (fst e)"
      by (rule onlyE [where w = v])
    with l mw Inr show ?thesis by (intro exI [of _ "l @ l'"]) (auto simp: seq_def)
  qed (use l mw in \<open>auto simp: seq_def\<close>)
qed

text \<open>The other combinators run at most one further program after the first.\<close>

lemma only_then:
  assumes "only C m" "\<And>r. only C (k r)"
  shows "only C (\<lambda>w. case m w of (r, v) \<Rightarrow> k r v)"
proof (rule onlyI)
  fix w
  obtain r v where mw: "m w = (r, v)" by (cases "m w")
  obtain l where l: "w_log v = w_log w @ l" "\<forall>e\<in>set l. C (fst e)"
    using onlyE [OF assms(1), of w] mw by auto
  obtain l' where "w_log (snd (k r v)) = w_log v @ l'" "\<forall>e\<in>set l'. C (fst e)"
    using onlyE [OF assms(2), of r v] by auto
  with l mw show "\<exists>l. w_log (snd (case m w of (r, v) \<Rightarrow> k r v)) = w_log w @ l \<and> (\<forall>e\<in>set l. C (fst e))"
    by (intro exI [of _ "l @ l'"]) auto
qed

lemma only_catch [only_rules]: "only C m \<Longrightarrow> (\<And>e. only C (h e)) \<Longrightarrow> only C (catch P m h)"
proof -
  assume "only C m" and h: "\<And>e. only C (h e)"
  then have "only C (\<lambda>w. case m w of (r, v) \<Rightarrow>
      (case r of Inl e \<Rightarrow> if P e then h e else raise e | Inr x \<Rightarrow> ret x) v)"
    by (intro only_then) (auto split: sum.splits intro: only_rules)
  moreover have "catch P m h = (\<lambda>w. case m w of (r, v) \<Rightarrow>
      (case r of Inl e \<Rightarrow> if P e then h e else raise e | Inr x \<Rightarrow> ret x) v)"
    by (auto simp: fun_eq_iff catch_def raise_def ret_def split: prod.splits sum.splits)
  ultimately show ?thesis by simp
qed

lemma only_always [only_rules]: "only C m \<Longrightarrow> only C c \<Longrightarrow> only C (always m c)"
proof -
  assume "only C m" "only C c"
  then have "only C (\<lambda>w. case m w of (r, v) \<Rightarrow> seq c (\<lambda>_. lift r) v)"
    by (intro only_then only_rules)
  moreover have "always m c = (\<lambda>w. case m w of (r, v) \<Rightarrow> seq c (\<lambda>_. lift r) v)"
    by (auto simp: fun_eq_iff always_def seq_def lift_def split: prod.splits sum.splits)
  ultimately show ?thesis by simp
qed

lemma only_on_error [only_rules]: "only C m \<Longrightarrow> only C c \<Longrightarrow> only C (on_error m c)"
proof -
  assume "only C m" "only C c"
  then have "only C (\<lambda>w. case m w of (r, v) \<Rightarrow>
      (case r of Inl e \<Rightarrow> seq c (\<lambda>_. raise e) | Inr x \<Rightarrow> ret x) v)"
    by (intro only_then) (auto split: sum.splits intro: only_rules)
  moreover have "on_error m c = (\<lambda>w. case m w of (r, v) \<Rightarrow>
      (case r of Inl e \<Rightarrow> seq c (\<lambda>_. raise e) | Inr x \<Rightarrow> ret x) v)"
    by (auto simp: fun_eq_iff on_error_def seq_def raise_def ret_def split: prod.splits sum.splits)
  ultimately show ?thesis by simp
qed

lemma only_attempt [only_rules]: "only C m \<Longrightarrow> only C (attempt P m)"
  unfolding attempt_def by (intro only_rules)

lemma only_if [only_rules]: "(b \<Longrightarrow> only C m) \<Longrightarrow> (\<not> b \<Longrightarrow> only C n) \<Longrightarrow> only C (if b then m else n)"
  by simp

lemma only_prod [only_rules]: "(\<And>x y. p = (x, y) \<Longrightarrow> only C (f x y)) \<Longrightarrow> only C (case p of (x, y) \<Rightarrow> f x y)"
  by (cases p) simp

lemma only_sum [only_rules]:
  "(\<And>a. r = Inl a \<Longrightarrow> only C (f a)) \<Longrightarrow> (\<And>b. r = Inr b \<Longrightarrow> only C (g b)) \<Longrightarrow>
   only C (case r of Inl a \<Rightarrow> f a | Inr b \<Rightarrow> g b)"
  by (cases r) simp_all

lemma only_option [only_rules]:
  "(r = None \<Longrightarrow> only C m) \<Longrightarrow> (\<And>b. r = Some b \<Longrightarrow> only C (g b)) \<Longrightarrow>
   only C (case r of None \<Rightarrow> m | Some b \<Rightarrow> g b)"
  by (cases r) simp_all

lemma only_each [only_rules]: "(\<And>x. x \<in> set xs \<Longrightarrow> only C (f x)) \<Longrightarrow> only C (each f xs)"
  by (induction xs) (auto intro!: only_rules)

lemma only_mono: "only C m \<Longrightarrow> (\<And>c. C c \<Longrightarrow> D c) \<Longrightarrow> only D m"
  unfolding only_def by blast

text \<open>A statement about what a run returns.\<close>

lemma when_returns:
  "(\<And>x v. p = (Inr x, v) \<Longrightarrow> Q x v) \<Longrightarrow> case p of (Inl e, v) \<Rightarrow> True | (Inr x, v) \<Rightarrow> Q x v"
  by (auto split: prod.splits sum.splits)

end
