(* ===== verification/World.thy ===== *)
theory World
  imports Program
begin

text \<open>
  The operating system as the program sees it: the system calls, their answers and the wrappers of
  Python's \<open>os\<close> module. What POSIX promises, and the code relies on, is built into the wrappers:
  \<open>open\<close> and \<open>dup\<close> return the lowest unused descriptor, \<open>read\<close> returns at most the bytes asked for,
  \<open>write\<close> takes at most the bytes given.
\<close>

section \<open>Calls and answers\<close>

record stat =
  st_dev :: int
  st_ino :: int
  st_size :: int
  st_mtime_ns :: int
  st_ctime_ns :: int
  st_mode :: int
  st_uid :: int
  st_gid :: int

datatype flag = O_RDONLY | O_WRONLY | O_CREAT | O_EXCL | O_DIRECTORY | O_NOFOLLOW | O_NONBLOCK | O_CLOEXEC

datatype call =
    Open "nat option" pystr "flag list" int
  | Close nat
  | Dup nat
  | Fstat nat
  | Stat nat pystr
  | Read nat int
  | Write nat bytes
  | Mkdir nat pystr int
  | Fsync nat
  | Listdir nat
  | Listxattr nat
  | Getxattr nat pystr
  | Statvfs nat
  | Fdinfo nat
  | Geteuid
  | Lstat pystr
  | Is_link pystr
  | Is_directory pystr
  | Scandir pystr

datatype answer =
    Fails nat
  | Done
  | Is_stat stat
  | Is_bytes bytes
  | Is_int int
  | Is_names "pystr list"
  | Is_vfs int int

type_synonym event = "call \<times> answer"

type_synonym world = "(call, answer) machine"
type_synonym 'a io = "(call, answer, 'a) prog"

section \<open>System calls\<close>

text \<open>The lowest descriptor not in use.\<close>

definition fresh_fd :: "nat list \<Rightarrow> nat" where
  "fresh_fd fds = hd (filter (\<lambda>n. n \<notin> set fds) [0..<Suc (length fds)])"

definition sys_fd :: "call \<Rightarrow> nat io" where
  "sys_fd c w =
     (case answer_of c w of
        Fails n \<Rightarrow> (Inl (os_error n), logged c w)
      | _ \<Rightarrow> let fd = fresh_fd (w_fds w) in (Inr fd, (logged c w)\<lparr>w_fds := fd # w_fds w\<rparr>))"

text \<open>\<open>os.open(name, flags, mode, dir_fd=dir)\<close>; the default mode is \<open>0o777\<close>.\<close>

definition sys_open :: "nat option \<Rightarrow> pystr \<Rightarrow> flag list \<Rightarrow> nat io" where
  "sys_open dir n fl = sys_fd (Open dir n fl 511)"

definition sys_dup :: "nat \<Rightarrow> nat io" where
  "sys_dup fd = sys_fd (Dup fd)"

text \<open>A failing \<open>close\<close> still releases the descriptor, as on Linux.\<close>

definition sys_close :: "nat \<Rightarrow> unit io" where
  "sys_close fd w =
     (let w' = (logged (Close fd) w)\<lparr>w_fds := remove1 fd (w_fds w)\<rparr>
      in case answer_of (Close fd) w of Fails n \<Rightarrow> (Inl (os_error n), w') | _ \<Rightarrow> (Inr (), w'))"

definition sys_unit :: "call \<Rightarrow> unit io" where
  "sys_unit c w = (case answer_of c w of Fails n \<Rightarrow> (Inl (os_error n), logged c w) | _ \<Rightarrow> (Inr (), logged c w))"

definition sys_stat :: "call \<Rightarrow> stat io" where
  "sys_stat c w =
     (case answer_of c w of
        Is_stat s \<Rightarrow> (Inr s, logged c w)
      | Fails n \<Rightarrow> (Inl (os_error n), logged c w)
      | _ \<Rightarrow> (Inl (OSError 0), logged c w))"

definition sys_int :: "call \<Rightarrow> int io" where
  "sys_int c w =
     (case answer_of c w of
        Is_int i \<Rightarrow> (Inr i, logged c w)
      | Fails n \<Rightarrow> (Inl (os_error n), logged c w)
      | _ \<Rightarrow> (Inl (OSError 0), logged c w))"

definition sys_names :: "call \<Rightarrow> pystr list io" where
  "sys_names c w =
     (case answer_of c w of
        Is_names ns \<Rightarrow> (Inr ns, logged c w)
      | Fails n \<Rightarrow> (Inl (os_error n), logged c w)
      | _ \<Rightarrow> (Inl (OSError 0), logged c w))"

text \<open>\<open>os.fstatvfs(fd)\<close>: its fields \<open>f_bavail\<close> and \<open>f_frsize\<close>.\<close>

definition sys_statvfs :: "nat \<Rightarrow> (int \<times> int) io" where
  "sys_statvfs fd w =
     (case answer_of (Statvfs fd) w of
        Is_vfs a b \<Rightarrow> (Inr (a, b), logged (Statvfs fd) w)
      | Fails n \<Rightarrow> (Inl (os_error n), logged (Statvfs fd) w)
      | _ \<Rightarrow> (Inl (OSError 0), logged (Statvfs fd) w))"

definition sys_bytes :: "call \<Rightarrow> bytes io" where
  "sys_bytes c w =
     (case answer_of c w of
        Is_bytes b \<Rightarrow> (Inr b, logged c w)
      | Fails n \<Rightarrow> (Inl (os_error n), logged c w)
      | _ \<Rightarrow> (Inl (OSError 0), logged c w))"

definition sys_read :: "nat \<Rightarrow> int \<Rightarrow> bytes io" where
  "sys_read fd n = seq (sys_bytes (Read fd n)) (\<lambda>b. ret (take (nat n) b))"

definition sys_write :: "nat \<Rightarrow> bytes \<Rightarrow> int io" where
  "sys_write fd b = seq (sys_int (Write fd b)) (\<lambda>n. ret (min n (int (length b))))"

lemma fresh_fd_notin: "fresh_fd fds \<notin> set fds"
proof -
  have "\<not> set [0..<Suc (length fds)] \<subseteq> set fds"
    using card_mono [of "set fds" "{0..<Suc (length fds)}"] card_length [of fds]
    by (auto simp del: upt_Suc)
  then have "filter (\<lambda>n. n \<notin> set fds) [0..<Suc (length fds)] \<noteq> []"
    by (auto simp: filter_empty_conv simp del: upt_Suc)
  then have "hd (filter (\<lambda>n. n \<notin> set fds) [0..<Suc (length fds)]) \<in>
      set (filter (\<lambda>n. n \<notin> set fds) [0..<Suc (length fds)])" by (rule hd_in_set)
  then show ?thesis by (simp add: fresh_fd_def del: upt_Suc)
qed

end
