(* ===== verification/Directory.thy ===== *)
theory Directory
  imports World
begin

unbundle bit_operations_syntax

text \<open>
  File access of \<open>tools/recovery_io.py\<close>: \<open>snapshot\<close>, \<open>mountid\<close>, \<open>write_all\<close>, the class
  \<open>Directory\<close> with its methods, and \<open>argument_file\<close>. Paths of \<open>pathlib\<close> are their \<open>parts\<close>.
\<close>

section \<open>Paths\<close>

text \<open>
  \<open>Path(s).absolute().parts\<close>: the anchor is \<open>/\<close>, or \<open>//\<close> when \<open>s\<close> starts with exactly two
  slashes; empty and \<open>.\<close> components are dropped, \<open>..\<close> is kept.
\<close>

definition pure_parts :: "pystr \<Rightarrow> pystr list" where
  "pure_parts s = filter (\<lambda>p. p \<noteq> [] \<and> p \<noteq> str ''.'') (split_on 47 s)"

definition absolute :: "pystr list \<Rightarrow> pystr \<Rightarrow> pystr list" where
  "absolute cwd s =
     (if take 1 s \<noteq> str ''/'' then cwd @ pure_parts s
      else if take 2 s = str ''//'' \<and> take 3 s \<noteq> str ''///'' then str ''//'' # pure_parts s
      else str ''/'' # pure_parts s)"

text \<open>\<open>p in q.parents\<close> for absolute paths.\<close>

definition in_parents :: "pystr list \<Rightarrow> pystr list \<Rightarrow> bool" where
  "in_parents p q \<longleftrightarrow> p \<noteq> [] \<and> length p < length q \<and> take (length p) q = p"

section \<open>snapshot and mountid\<close>

definition snapshot :: "stat \<Rightarrow> int \<times> int \<times> int \<times> int \<times> int \<times> int \<times> int \<times> int" where
  "snapshot s = (st_dev s, st_ino s, st_size s, st_mtime_ns s, st_ctime_ns s, st_mode s, st_uid s, st_gid s)"

definition S_ISREG :: "int \<Rightarrow> bool" where
  "S_ISREG mode \<longleftrightarrow> mode AND 0xF000 = 0x8000"

definition S_ISDIR :: "int \<Rightarrow> bool" where
  "S_ISDIR mode \<longleftrightarrow> mode AND 0xF000 = 0x4000"

definition mount_line :: "pystr list \<Rightarrow> int res" where
  "mount_line ls =
     (case find (\<lambda>l. take 7 l = str ''mnt_id:'') ls of
        None \<Rightarrow> Inl (Invalid ''mount ID unavailable'')
      | Some l \<Rightarrow> (case py_int (split_on 58 l ! 1) of None \<Rightarrow> Inl ValueError | Some i \<Rightarrow> Inr i))"

definition mountid :: "nat \<Rightarrow> int io" where
  "mountid fd = seq (sys_names (Fdinfo fd)) (\<lambda>ls. lift (mount_line ls))"

section \<open>write_all and the read loop\<close>

function write_all :: "nat \<Rightarrow> bytes \<Rightarrow> unit io" where
  "write_all fd b =
     (if b = [] then ret ()
      else seq (sys_write fd b) (\<lambda>n.
        if n \<le> 0 then raise (OSError 0) else write_all fd (drop (nat n) b)))"
  by pat_completeness auto
termination
  by (relation "measure (\<lambda>(fd, b). length b)") auto

text \<open>
  \<open>while len(out) <= limit: b = os.read(fd, min(65536, limit + 1 - len(out)))\<close>: it reads one byte
  past the limit, to find out whether there is one.
\<close>

function read_loop :: "nat \<Rightarrow> int \<Rightarrow> bytes \<Rightarrow> bytes io" where
  "read_loop fd limit out =
     (if limit < int (length out) then ret out
      else seq (sys_read fd (min 65536 (limit + 1 - int (length out)))) (\<lambda>b.
        if b = [] then ret out else read_loop fd limit (out @ b)))"
  by pat_completeness auto
termination
  by (relation "measure (\<lambda>(fd, limit, out). nat (limit + 1 - int (length out)))") auto

declare write_all.simps [simp del] and read_loop.simps [simp del]

section \<open>Directory\<close>

record directory =
  d_path :: "pystr list"
  d_fd :: nat
  d_dev :: int
  d_mount :: int

definition DIRECTORY_FLAGS :: "flag list" where
  "DIRECTORY_FLAGS = [O_RDONLY, O_DIRECTORY, O_NOFOLLOW, O_CLOEXEC]"

definition private_check :: "bool \<Rightarrow> stat \<Rightarrow> unit io" where
  "private_check priv s =
     (if priv
      then seq (sys_int Geteuid) (\<lambda>uid.
        check (st_uid s = uid \<and> st_mode s AND 63 = 0) (Invalid ''private output required''))
      else ret ())"

text \<open>
  The body of the \<open>try\<close> of \<open>__init__\<close>: one component after the other, then the checks on the
  directory reached. The handler closes the descriptor held at that moment.
\<close>

fun descend :: "pystr list \<Rightarrow> bool \<Rightarrow> nat \<Rightarrow> pystr list \<Rightarrow> directory io" where
  "descend path priv fd [] =
     on_error
       (seq (sys_stat (Fstat fd)) (\<lambda>s.
        seq (private_check priv s) (\<lambda>_.
        seq (mountid fd) (\<lambda>m.
        ret \<lparr>d_path = path, d_fd = fd, d_dev = st_dev s, d_mount = m\<rparr>))))
       (sys_close fd)"
| "descend path priv fd (part # parts) =
     seq (on_error
            (seq (sys_open (Some fd) part DIRECTORY_FLAGS) (\<lambda>n. seq (sys_close fd) (\<lambda>_. ret n)))
            (sys_close fd))
       (\<lambda>n. descend path priv n parts)"

definition dir_open :: "pystr list \<Rightarrow> bool \<Rightarrow> directory io" where
  "dir_open path priv =
     seq (check (path \<noteq> [str ''/''] \<and> str ''..'' \<notin> set path) (Invalid ''host root/path traversal'')) (\<lambda>_.
     seq (sys_open None (str ''/'') [O_RDONLY, O_DIRECTORY, O_CLOEXEC]) (\<lambda>fd.
     descend path priv fd (tl path)))"

definition dir_close :: "directory \<Rightarrow> unit io" where
  "dir_close d = sys_close (d_fd d)"

text \<open>\<open>with Directory(...) as d: body\<close>\<close>

definition with_dir :: "pystr list \<Rightarrow> bool \<Rightarrow> (directory \<Rightarrow> 'a io) \<Rightarrow> 'a io" where
  "with_dir path priv body = seq (dir_open path priv) (\<lambda>d. always (body d) (dir_close d))"

section \<open>parent\<close>

definition make_directory :: "bool \<Rightarrow> nat \<Rightarrow> pystr \<Rightarrow> unit io" where
  "make_directory create fd part =
     (if create
      then catch (\<lambda>e. e = FileExistsError)
        (seq (sys_unit (Mkdir fd part 448)) (\<lambda>_. sys_unit (Fsync fd))) (\<lambda>_. ret ())
      else ret ())"

text \<open>\<open>if os.fstat(n).st_dev != self.dev or mountid(n) != self.mount: os.close(n); raise\<close>\<close>

definition same_mount :: "directory \<Rightarrow> nat \<Rightarrow> bool io" where
  "same_mount d n =
     seq (sys_stat (Fstat n)) (\<lambda>s.
     if st_dev s \<noteq> d_dev d then ret False
     else seq (mountid n) (\<lambda>m. ret (m = d_mount d)))"

fun parent_loop :: "directory \<Rightarrow> bool \<Rightarrow> nat \<Rightarrow> pystr list \<Rightarrow> nat io" where
  "parent_loop d create fd [] = ret fd"
| "parent_loop d create fd (part # parts) =
     seq (on_error
            (seq (make_directory create fd part) (\<lambda>_.
             seq (sys_open (Some fd) part DIRECTORY_FLAGS) (\<lambda>n.
             seq (same_mount d n) (\<lambda>same.
             seq (if same then ret ()
                  else seq (sys_close n) (\<lambda>_. raise (Invalid ''mount crossing''))) (\<lambda>_.
             seq (sys_close fd) (\<lambda>_. ret n))))))
            (sys_close fd))
       (\<lambda>n. parent_loop d create n parts)"

definition parent :: "directory \<Rightarrow> pystr \<Rightarrow> bool \<Rightarrow> (nat \<times> pystr) io" where
  "parent d path create =
     seq (lift (relative (JStr path))) (\<lambda>p.
     let ps = split_on 47 p in
     seq (sys_dup (d_fd d)) (\<lambda>fd.
     seq (parent_loop d create fd (butlast ps)) (\<lambda>n.
     ret (n, last ps))))"

section \<open>open_file, read, create, write_new\<close>

definition FILE_FLAGS :: "flag list" where
  "FILE_FLAGS = [O_RDONLY, O_NOFOLLOW, O_NONBLOCK, O_CLOEXEC]"

definition CREATE_FLAGS :: "flag list" where
  "CREATE_FLAGS = [O_WRONLY, O_CREAT, O_EXCL, O_NOFOLLOW, O_CLOEXEC]"

definition open_file :: "directory \<Rightarrow> pystr \<Rightarrow> int \<Rightarrow> (nat \<times> nat \<times> pystr \<times> stat) io" where
  "open_file d path limit =
     seq (parent d path False) (\<lambda>(p, n).
     seq (on_error
            (seq (sys_stat (Stat p n)) (\<lambda>s.
             seq (check (S_ISREG (st_mode s) \<and> st_size s \<le> limit \<and> st_dev s = d_dev d)
                    (Invalid ''not bounded regular file'')) (\<lambda>_.
             seq (sys_open (Some p) n FILE_FLAGS) (\<lambda>fd. ret (s, fd)))))
            (sys_close p)) (\<lambda>(s, fd).
     on_error
       (seq (sys_stat (Fstat fd)) (\<lambda>s'.
        seq (check (snapshot s = snapshot s') (Invalid ''file changed/mount crossing'')) (\<lambda>_.
        seq (mountid fd) (\<lambda>m.
        seq (check (m = d_mount d) (Invalid ''file changed/mount crossing'')) (\<lambda>_.
        ret (fd, p, n, s))))))
       (seq (sys_close fd) (\<lambda>_. sys_close p))))"

definition close_both :: "nat \<Rightarrow> nat \<Rightarrow> unit io" where
  "close_both fd p = seq (sys_close fd) (\<lambda>_. sys_close p)"

text \<open>\<open>snapshot(s) != snapshot(os.fstat(fd)) or snapshot(s) != snapshot(os.stat(n, dir_fd=p))\<close>\<close>

definition check_unchanged :: "stat \<Rightarrow> nat \<Rightarrow> nat \<Rightarrow> pystr \<Rightarrow> exn \<Rightarrow> unit io" where
  "check_unchanged s fd p n e =
     seq (sys_stat (Fstat fd)) (\<lambda>s1.
     seq (check (snapshot s = snapshot s1) e) (\<lambda>_.
     seq (sys_stat (Stat p n)) (\<lambda>s2.
     check (snapshot s = snapshot s2) e)))"

definition dir_read :: "directory \<Rightarrow> pystr \<Rightarrow> int \<Rightarrow> bytes io" where
  "dir_read d path limit =
     seq (open_file d path limit) (\<lambda>(fd, p, n, s).
     always
       (seq (read_loop fd limit []) (\<lambda>out.
        seq (check (int (length out) \<le> limit) (Invalid ''changed during read'')) (\<lambda>_.
        seq (check_unchanged s fd p n (Invalid ''changed during read'')) (\<lambda>_.
        ret out))))
       (close_both fd p))"

definition create :: "directory \<Rightarrow> pystr \<Rightarrow> (nat \<times> nat) io" where
  "create d path =
     seq (parent d path True) (\<lambda>(p, n).
     on_error
       (seq (sys_fd (Open (Some p) n CREATE_FLAGS 384)) (\<lambda>fd. ret (fd, p)))
       (sys_close p))"

definition write_new :: "directory \<Rightarrow> pystr \<Rightarrow> bytes \<Rightarrow> unit io" where
  "write_new d path b =
     seq (create d path) (\<lambda>(fd, p).
     always
       (seq (write_all fd b) (\<lambda>_. seq (sys_unit (Fsync fd)) (\<lambda>_. sys_unit (Fsync p))))
       (close_both fd p))"

section \<open>argument_file\<close>

definition argument_file :: "pystr \<Rightarrow> bytes io" where
  "argument_file path w =
     (let f = absolute (w_cwd w) path;
          dir = (if length f \<le> 1 then f else butlast f);
          name = (if length f \<le> 1 then [] else last f)
      in with_dir dir False (\<lambda>d. dir_read d name (int LIMIT)) w)"

end
