(* ===== verification/Directory_Fds.thy ===== *)
theory Directory_Fds
  imports Directory
begin

text \<open>
  Descriptors of the \<open>Directory\<close> operations: on every path, errors included, an operation leaves
  open exactly the descriptors that were open before it and those it returns. The hypothesis
  \<open>steady\<close> says that closing, \<open>fstat\<close> on an open descriptor and reading its mount identifier do
  not fail; every other call may fail or answer anything. Theory \<open>Directory_Leak\<close> shows that it
  cannot be dropped.
\<close>

definition quiet :: "(event list \<Rightarrow> call \<Rightarrow> answer) \<Rightarrow> bool" where
  "quiet os \<longleftrightarrow> (\<forall>l fd n. os l (Close fd) \<noteq> Fails n)"

definition steady :: "(event list \<Rightarrow> call \<Rightarrow> answer) \<Rightarrow> bool" where
  "steady os \<longleftrightarrow> quiet os \<and> (\<forall>l fd. \<exists>s. os l (Fstat fd) = Is_stat s) \<and>
     (\<forall>l fd. \<exists>ls i. os l (Fdinfo fd) = Is_names ls \<and> mount_line ls = Inr i)"

definition at :: "(event list \<Rightarrow> call \<Rightarrow> answer) \<Rightarrow> nat list \<Rightarrow> world \<Rightarrow> bool" where
  "at os fds w \<longleftrightarrow> w_os w = os \<and> w_fds w = fds"

lemma at_logged [simp]: "at os fds (logged c w) \<longleftrightarrow> at os fds w"
  by (simp add: at_def logged_def)

section \<open>Programs that open and close nothing\<close>

named_theorems keeps

definition keeps_fds :: "('q, 'r, 'a) prog \<Rightarrow> bool" where
  "keeps_fds m \<longleftrightarrow> (\<forall>w. w_fds (snd (m w)) = w_fds w \<and> w_os (snd (m w)) = w_os w)"

lemma keeps_calls [keeps]:
  "keeps_fds (sys_unit c)" "keeps_fds (sys_stat c)" "keeps_fds (sys_int c)" "keeps_fds (sys_names c)"
  "keeps_fds (sys_bytes c)" "keeps_fds (sys_statvfs fd)"
  by (auto simp: keeps_fds_def sys_unit_def sys_stat_def sys_int_def sys_names_def sys_bytes_def sys_statvfs_def
      logged_def split: answer.splits)

lemma keeps_ret [keeps]: "keeps_fds (ret x)" "keeps_fds (raise e)" "keeps_fds (lift r)" "keeps_fds (check b e)"
  by (auto simp: keeps_fds_def ret_def raise_def lift_def check_def)

lemma keeps_seq [keeps]: "keeps_fds m \<Longrightarrow> (\<And>x. keeps_fds (f x)) \<Longrightarrow> keeps_fds (seq m f)"
  by (auto simp: keeps_fds_def seq_def split: prod.splits sum.splits) (metis prod.sel(2))+

lemma keeps_catch [keeps]: "keeps_fds m \<Longrightarrow> (\<And>e. keeps_fds (h e)) \<Longrightarrow> keeps_fds (catch P m h)"
  by (auto simp: keeps_fds_def catch_def split: prod.splits sum.splits) (metis prod.sel(2))+

lemma keeps_attempt [keeps]: "keeps_fds m \<Longrightarrow> keeps_fds (attempt P m)"
  unfolding attempt_def by (intro keeps)

lemma keeps_each [keeps]: "(\<And>x. x \<in> set xs \<Longrightarrow> keeps_fds (f x)) \<Longrightarrow> keeps_fds (each f xs)"
  by (induction xs) (auto intro!: keeps)

lemma keeps_if [keeps]:
  "(b \<Longrightarrow> keeps_fds m) \<Longrightarrow> (\<not> b \<Longrightarrow> keeps_fds n) \<Longrightarrow> keeps_fds (if b then m else n)"
  by simp

lemma keeps_sys_read [keeps]: "keeps_fds (sys_read fd n)"
  unfolding sys_read_def by (intro keeps)

lemma keeps_sys_write [keeps]: "keeps_fds (sys_write fd b)"
  unfolding sys_write_def by (intro keeps)

lemma keeps_mountid [keeps]: "keeps_fds (mountid fd)"
  unfolding mountid_def by (intro keeps)

lemma keeps_write_all [keeps]: "keeps_fds (write_all fd b)"
proof (induction fd b rule: write_all.induct)
  case (1 fd b)
  have "keeps_fds (seq (sys_write fd b) (\<lambda>n.
      if n \<le> 0 then raise (OSError 0) else write_all fd (drop (nat n) b)))" if "b \<noteq> []"
    using 1 that by (intro keeps) auto
  then show ?case by (subst write_all.simps) (auto intro: keeps)
qed

lemma keeps_read_loop [keeps]: "keeps_fds (read_loop fd limit out)"
proof (induction fd limit out rule: read_loop.induct)
  case (1 fd limit out)
  have "keeps_fds (seq (sys_read fd (min 65536 (limit + 1 - int (length out)))) (\<lambda>b.
      if b = [] then ret out else read_loop fd limit (out @ b)))" if "\<not> limit < int (length out)"
    using 1 that by (intro keeps) auto
  then show ?case by (subst read_loop.simps) (auto intro: keeps)
qed

lemma keeps_private_check [keeps]: "keeps_fds (private_check p s)"
  unfolding private_check_def by (intro keeps)

lemma keeps_make_directory [keeps]: "keeps_fds (make_directory c fd part)"
  unfolding make_directory_def by (intro keeps)

lemma keeps_same_mount [keeps]: "keeps_fds (same_mount d n)"
  unfolding same_mount_def by (intro keeps)

lemma keeps_check_unchanged [keeps]: "keeps_fds (check_unchanged s fd p n e)"
  unfolding check_unchanged_def by (intro keeps)

section \<open>Descriptor triples\<close>

text \<open>
  \<open>fdt os s e m G\<close>: started with the descriptors \<open>s\<close>, \<open>m\<close> ends with the descriptors \<open>e\<close> when it
  raises, and with descriptors related by \<open>G\<close> to its result when it returns.
\<close>

definition fd_post :: "(event list \<Rightarrow> call \<Rightarrow> answer) \<Rightarrow> nat list \<Rightarrow> ('a \<Rightarrow> nat list \<Rightarrow> bool) \<Rightarrow> 'a res \<times> world \<Rightarrow> bool" where
  "fd_post os e G rv \<longleftrightarrow> w_os (snd rv) = os \<and>
     (case fst rv of Inl _ \<Rightarrow> w_fds (snd rv) = e | Inr x \<Rightarrow> G x (w_fds (snd rv)))"

definition fdt ::
  "(event list \<Rightarrow> call \<Rightarrow> answer) \<Rightarrow> nat list \<Rightarrow> nat list \<Rightarrow> 'a io \<Rightarrow> ('a \<Rightarrow> nat list \<Rightarrow> bool) \<Rightarrow> bool" where
  "fdt os s e m G \<longleftrightarrow> (\<forall>w. at os s w \<longrightarrow> fd_post os e G (m w))"

named_theorems fd_rules

lemma fd_post_simps [simp]:
  "fd_post os e G (Inl x, v) \<longleftrightarrow> at os e v"
  "fd_post os e G (Inr y, v) \<longleftrightarrow> at os (w_fds v) v \<and> G y (w_fds v)"
  by (auto simp: fd_post_def at_def)

lemma fdtD: "fdt os s e m G \<Longrightarrow> at os s w \<Longrightarrow> fd_post os e G (m w)"
  by (simp add: fdt_def)

lemma fdt_ret [fd_rules]: "G x s \<Longrightarrow> fdt os s e (ret x) G"
  by (auto simp: fdt_def ret_def at_def)

lemma fdt_raise [fd_rules]: "s = e \<Longrightarrow> fdt os s e (raise x) G"
  by (auto simp: fdt_def raise_def)

lemma fdt_keeps: "keeps_fds m \<Longrightarrow> s = e \<Longrightarrow> (\<And>x. G x s) \<Longrightarrow> fdt os s e m G"
  by (auto simp: fdt_def fd_post_def keeps_fds_def at_def split: sum.splits)

lemma fdt_seq:
  "fdt os s e m H \<Longrightarrow> (\<And>x t. H x t \<Longrightarrow> fdt os t e (f x) G) \<Longrightarrow> fdt os s e (seq m f) G"
  unfolding fdt_def
proof (intro allI impI, goal_cases)
  case (1 w)
  then have "fd_post os e H (m w)" by blast
  then show ?case
    using 1(2) by (cases "m w"; cases "fst (m w)") (auto simp: seq_def)
qed

lemma fdt_seq_keeps:
  "keeps_fds m \<Longrightarrow> s = e \<Longrightarrow> (\<And>x. fdt os s e (f x) G) \<Longrightarrow> fdt os s e (seq m f) G"
  by (rule fdt_seq [where H = "\<lambda>_ t. t = s"]) (auto intro: fdt_keeps)

lemma fdt_yields:
  assumes "keeps_fds m" "s = e" "\<And>x w v. m w = (Inr x, v) \<Longrightarrow> G x s"
  shows "fdt os s e m G"
  unfolding fdt_def
proof (intro allI impI)
  fix w assume w: "at os s w"
  obtain r v where mw: "m w = (r, v)" by (cases "m w")
  moreover have "w_fds (snd (m w)) = w_fds w" "w_os (snd (m w)) = w_os w"
    using assms(1) by (simp_all add: keeps_fds_def)
  ultimately show "fd_post os e G (m w)"
    using assms(2,3) w by (cases r) (auto simp: fd_post_def at_def)
qed

lemma fdt_sys_fd:
  "s = e \<Longrightarrow> (\<And>fd. fd \<notin> set s \<Longrightarrow> G fd (fd # s)) \<Longrightarrow> fdt os s e (sys_fd c) G"
  using fresh_fd_notin [of s]
  by (auto simp: fdt_def sys_fd_def at_def logged_def Let_def split: answer.splits)

lemma fdt_seq_open [fd_rules]:
  assumes "s = e" "\<And>fd. fd \<notin> set s \<Longrightarrow> fdt os (fd # s) e (f fd) G"
  shows "fdt os s e (seq (sys_open dir n fl) f) G" "fdt os s e (seq (sys_dup fd) f) G"
    "fdt os s e (seq (sys_fd c) f) G"
proof -
  show *: "fdt os s e (seq (sys_fd c) f) G" for c
    by (rule fdt_seq [where H = "\<lambda>fd t. t = fd # s \<and> fd \<notin> set s"])
      (use assms in \<open>auto intro!: fdt_sys_fd\<close>)
  show "fdt os s e (seq (sys_open dir n fl) f) G" "fdt os s e (seq (sys_dup fd) f) G"
    unfolding sys_open_def sys_dup_def by (rule *)+
qed

lemma fdt_close [fd_rules]: "quiet os \<Longrightarrow> G () (remove1 fd s) \<Longrightarrow> fdt os s e (sys_close fd) G"
  by (auto simp: fdt_def sys_close_def at_def logged_def answer_of_def quiet_def Let_def
      split: answer.splits)

lemma fdt_seq_close [fd_rules]:
  "quiet os \<Longrightarrow> fdt os (remove1 fd s) e (f ()) G \<Longrightarrow> fdt os s e (seq (sys_close fd) f) G"
  by (rule fdt_seq [where H = "\<lambda>_ t. t = remove1 fd s"]) (auto intro: fdt_close)

lemma fdt_seq_check [fd_rules]:
  "(\<not> b \<Longrightarrow> s = e) \<Longrightarrow> (b \<Longrightarrow> fdt os s e (f ()) G) \<Longrightarrow> fdt os s e (seq (check b x) f) G"
  by (auto simp: fdt_def seq_def check_def ret_def raise_def)

lemma fdt_on_error [fd_rules]:
  "fdt os s s' m G \<Longrightarrow> fdt os s' e c (\<lambda>_ t. t = e) \<Longrightarrow> fdt os s e (on_error m c) G"
  unfolding fdt_def
proof (intro allI impI, goal_cases)
  case (1 w)
  then have m: "fd_post os s' G (m w)" by blast
  show ?case
  proof (cases "m w")
    case (Pair r v)
    have "fd_post os e (\<lambda>_ t. t = e) (c v)" if "r = Inl x" for x
      using m 1(2) that Pair by simp
    then show ?thesis
      using m Pair by (cases r; cases "c v"; cases "fst (c v)") (auto simp: on_error_def at_def)
  qed
qed

lemma fdt_always [fd_rules]:
  "fdt os s s' m (\<lambda>x t. t = s' \<and> G x e) \<Longrightarrow> fdt os s' e c (\<lambda>_ t. t = e) \<Longrightarrow> fdt os s e (always m c) G"
  unfolding fdt_def
proof (intro allI impI, goal_cases)
  case (1 w)
  then have m: "fd_post os s' (\<lambda>x t. t = s' \<and> G x e) (m w)" by blast
  obtain r v where mw: "m w = (r, v)" by (cases "m w")
  with m have "at os s' v" by (cases r) auto
  with 1(2) have "fd_post os e (\<lambda>_ t. t = e) (c v)" by blast
  with m mw show ?case
    by (cases r; cases "c v"; cases "fst (c v)") (auto simp: always_def at_def)
qed

lemma fdt_catch [fd_rules]:
  "fdt os s e m G \<Longrightarrow> (\<And>x. fdt os e e (h x) G) \<Longrightarrow> fdt os s e (catch P m h) G"
  unfolding fdt_def
proof (intro allI impI, goal_cases)
  case (1 w)
  then have "fd_post os e G (m w)" by blast
  with 1(2) show ?case
    by (cases "m w"; cases "fst (m w)") (auto simp: catch_def)
qed

lemma fdt_if [fd_rules]:
  "(b \<Longrightarrow> fdt os s e m G) \<Longrightarrow> (\<not> b \<Longrightarrow> fdt os s e n G) \<Longrightarrow> fdt os s e (if b then m else n) G"
  by simp

lemma fdt_prod [fd_rules]:
  "(\<And>x y. p = (x, y) \<Longrightarrow> fdt os s e (f x y) G) \<Longrightarrow> fdt os s e (case p of (x, y) \<Rightarrow> f x y) G"
  by (cases p) simp

lemma fdt_sum [fd_rules]:
  "(\<And>a. r = Inl a \<Longrightarrow> fdt os s e (f a) G) \<Longrightarrow> (\<And>b. r = Inr b \<Longrightarrow> fdt os s e (g b) G) \<Longrightarrow>
   fdt os s e (case r of Inl a \<Rightarrow> f a | Inr b \<Rightarrow> g b) G"
  by (cases r) simp_all

lemma fdt_option [fd_rules]:
  "(r = None \<Longrightarrow> fdt os s e m G) \<Longrightarrow> (\<And>b. r = Some b \<Longrightarrow> fdt os s e (g b) G) \<Longrightarrow>
   fdt os s e (case r of None \<Rightarrow> m | Some b \<Rightarrow> g b) G"
  by (cases r) simp_all

lemma fdt_mono: "fdt os s e m H \<Longrightarrow> (\<And>x t. H x t \<Longrightarrow> G x t) \<Longrightarrow> fdt os s e m G"
  unfolding fdt_def fd_post_def by (auto split: sum.splits)

abbreviation balanced :: "(event list \<Rightarrow> call \<Rightarrow> answer) \<Rightarrow> nat list \<Rightarrow> 'a io \<Rightarrow> bool" where
  "balanced os s m \<equiv> fdt os s s m (\<lambda>_ t. t = s)"

lemma fdt_seq_balanced:
  "balanced os s m \<Longrightarrow> (\<And>x. fdt os s s (f x) G) \<Longrightarrow> fdt os s s (seq m f) G"
  by (rule fdt_seq [where H = "\<lambda>_ t. t = s"]) auto

lemma balanced_attempt: "balanced os s m \<Longrightarrow> balanced os s (attempt P m)"
  unfolding attempt_def by (intro fd_rules fdt_seq_balanced refl)

lemma balanced_each: "(\<And>x. x \<in> set xs \<Longrightarrow> balanced os s (f x)) \<Longrightarrow> balanced os s (each f xs)"
  by (induction xs) (auto intro!: fd_rules fdt_seq_balanced)

section \<open>Opening a directory\<close>

lemma fdt_descend:
  "quiet os \<Longrightarrow> fd \<notin> set s \<Longrightarrow>
   fdt os (fd # s) s (descend path priv fd parts) (\<lambda>d t. t = d_fd d # s \<and> d_fd d \<notin> set s)"
proof (induction path priv fd parts rule: descend.induct)
  case (1 path priv fd)
  then show ?case
    unfolding descend.simps
    by (intro fdt_on_error [where s' = "fd # s"] fdt_seq_keeps keeps fd_rules) auto
next
  case (2 path priv fd part parts)
  show ?case
    unfolding descend.simps
    by (rule fdt_seq [where H = "\<lambda>n t. t = n # s \<and> n \<notin> set s"])
      (use 2 in \<open>auto intro!: fd_rules\<close>)
qed

lemma fdt_dir_open:
  "quiet os \<Longrightarrow> fdt os s s (dir_open path priv) (\<lambda>d t. t = d_fd d # s \<and> d_fd d \<notin> set s)"
  unfolding dir_open_def by (auto intro!: fd_rules fdt_descend)

lemma balanced_with_dir:
  assumes "quiet os" "\<And>d. d_fd d \<notin> set s \<Longrightarrow> balanced os (d_fd d # s) (body d)"
  shows "balanced os s (with_dir path priv body)"
  unfolding with_dir_def dir_close_def
  by (rule fdt_seq [OF fdt_dir_open [OF assms(1)]])
    (auto intro!: fd_rules fdt_mono [OF assms(2)] assms(1))

section \<open>Walking to the parent of a path\<close>

lemma steady_quiet: "steady os \<Longrightarrow> quiet os"
  by (simp add: steady_def)

text \<open>On a steady system the mount check cannot fail, whatever is open.\<close>

lemma fdt_same_mount: "steady os \<Longrightarrow> fdt os s e (same_mount d n) (\<lambda>_ t. t = s)"
  unfolding fdt_def
proof (intro allI impI)
  fix w assume os: "steady os" and w: "at os s w"
  then obtain st where "w_os w (w_log w) (Fstat n) = Is_stat st"
    unfolding steady_def at_def by blast
  moreover from os w obtain ls i
    where "w_os w (w_log (logged (Fstat n) w)) (Fdinfo n) = Is_names ls" "mount_line ls = Inr i"
    unfolding steady_def at_def by blast
  ultimately show "fd_post os e (\<lambda>_ t. t = s) (same_mount d n w)"
    using w by (auto simp: same_mount_def mountid_def sys_stat_def sys_names_def answer_of_def
        lift_def ret_def seq_def at_def logged_def)
qed

lemma fdt_parent_loop:
  "steady os \<Longrightarrow> fd \<notin> set s \<Longrightarrow>
   fdt os (fd # s) s (parent_loop d c fd parts) (\<lambda>n t. t = n # s \<and> n \<notin> set s)"
proof (induction d c fd parts rule: parent_loop.induct)
  case (1 d c fd)
  then show ?case by (simp add: fdt_ret)
next
  case (2 d c fd part parts)
  note q = steady_quiet [OF "2.prems"(1)]
  have "fdt os (n # fd # s) (fd # s)
      (seq (same_mount d n) (\<lambda>same. seq (if same then ret () else seq (sys_close n) (\<lambda>_. raise x)) (\<lambda>_.
        seq (sys_close fd) (\<lambda>_. ret n))))
      (\<lambda>n t. t = n # s \<and> n \<notin> set s)" if "n \<notin> set (fd # s)" for n x
    using "2.prems" q that
    by (intro fdt_seq [OF fdt_same_mount]
        fdt_seq [where H = "\<lambda>_ t. t = n # fd # s" and m = "if _ then _ else _"] fd_rules) auto
  then show ?case
    unfolding parent_loop.simps
    by (intro fdt_seq [where H = "\<lambda>n t. t = n # s \<and> n \<notin> set s" and m = "on_error _ _"]
        fdt_on_error [where s' = "fd # s"] fdt_seq_keeps [OF keeps_make_directory]
        fdt_seq_open fdt_close q) (use "2.prems" "2.IH" in auto)
qed

lemma fdt_parent:
  "steady os \<Longrightarrow> fdt os s s (parent d path c) (\<lambda>(p, n) t. t = p # s \<and> p \<notin> set s)"
  unfolding parent_def Let_def
  by (intro fdt_seq_keeps [OF keeps_ret(3)] fd_rules fdt_seq [OF fdt_parent_loop]) auto

section \<open>Reading and writing files\<close>

lemma fdt_close_both:
  "quiet os \<Longrightarrow> p \<notin> set s \<Longrightarrow> fd \<notin> set (p # s) \<Longrightarrow>
   fdt os (fd # p # s) s (close_both fd p) (\<lambda>_ t. t = s)"
  unfolding close_both_def by (intro fd_rules) auto

lemma fdt_open_file:
  assumes os: "steady os"
  shows "fdt os s s (open_file d path limit)
    (\<lambda>(fd, p, n, st) t. t = fd # p # s \<and> p \<notin> set s \<and> fd \<notin> set (p # s))"
  unfolding open_file_def
proof (rule fdt_seq [OF fdt_parent [OF os]], clarify, goal_cases)
  case (1 p n)
  note q = steady_quiet [OF os]
  show ?case
    by (intro fdt_seq [where m = "on_error _ _" and
          H = "\<lambda>(s0, fd) t. t = fd # p # s \<and> fd \<notin> set (p # s)"]
        fdt_on_error [where s' = "p # s"] fdt_seq_keeps keeps fd_rules q; (clarify; intro
        fdt_on_error [where s' = "fd # p # s" for fd] fdt_seq_keeps keeps fd_rules q)?)
      (use 1 in auto)
qed

lemma balanced_dir_read: "steady os \<Longrightarrow> balanced os s (dir_read d path limit)"
  unfolding dir_read_def
proof (rule fdt_seq [OF fdt_open_file], assumption, clarify, goal_cases)
  case (1 fd p n st)
  then show ?case
    by (intro fdt_always [where s' = "fd # p # s"] fdt_seq_keeps keeps fdt_seq_check fdt_ret
        fdt_close_both steady_quiet) auto
qed

lemma fdt_create:
  "steady os \<Longrightarrow> fdt os s s (create d path)
     (\<lambda>(fd, p) t. t = fd # p # s \<and> p \<notin> set s \<and> fd \<notin> set (p # s))"
  unfolding create_def
proof (rule fdt_seq [OF fdt_parent], assumption, clarify, goal_cases)
  case (1 p n)
  then show ?case
    by (intro fdt_on_error [where s' = "p # s"] fdt_seq_open fdt_ret fdt_close steady_quiet) auto
qed

lemma balanced_write_new: "steady os \<Longrightarrow> balanced os s (write_new d path b)"
  unfolding write_new_def
proof (rule fdt_seq [OF fdt_create], assumption, clarify, goal_cases)
  case (1 fd p)
  then show ?case
    by (intro fdt_always [where s' = "fd # p # s"] fdt_seq_keeps keeps fdt_keeps
        fdt_close_both steady_quiet) auto
qed

lemma balanced_argument_file:
  assumes "steady os"
  shows "balanced os s (argument_file path)"
proof -
  have "balanced os s (with_dir dir False (\<lambda>d. dir_read d name limit))" for dir name limit
    using assms by (intro balanced_with_dir steady_quiet balanced_dir_read)
  then show ?thesis
    unfolding fdt_def argument_file_def Let_def by blast
qed

end
