(* ===== verification/Directory_Spec.thy ===== *)
theory Directory_Spec
  imports Directory_Fds
begin

text \<open>
  What the \<open>Directory\<close> operations promise besides their descriptors: how much \<open>read\<close> returns, which
  calls an operation can make, and what \<open>write_all\<close> hands to the kernel.
\<close>

section \<open>Which calls a program makes\<close>

lemma only_call [only_rules]:
  "C c \<Longrightarrow> only C (sys_unit c)" "C c \<Longrightarrow> only C (sys_stat c)" "C c \<Longrightarrow> only C (sys_int c)"
  "C c \<Longrightarrow> only C (sys_names c)" "C c \<Longrightarrow> only C (sys_bytes c)" "C c \<Longrightarrow> only C (sys_fd c)"
  "C (Close fd) \<Longrightarrow> only C (sys_close fd)" "C (Dup fd) \<Longrightarrow> only C (sys_dup fd)"
  "C (Open dir n fl 511) \<Longrightarrow> only C (sys_open dir n fl)" "C (Statvfs fd) \<Longrightarrow> only C (sys_statvfs fd)"
  by (rule onlyI; auto simp: sys_unit_def sys_stat_def sys_int_def sys_names_def sys_bytes_def
      sys_fd_def sys_close_def sys_dup_def sys_open_def sys_statvfs_def logged_def Let_def split: answer.splits)+

section \<open>Reading changes nothing\<close>

text \<open>A call that cannot change the file system.\<close>

fun observes :: "call \<Rightarrow> bool" where
  "observes (Open _ _ fl _) \<longleftrightarrow> O_CREAT \<notin> set fl \<and> O_WRONLY \<notin> set fl"
| "observes (Write _ _) \<longleftrightarrow> False"
| "observes (Mkdir _ _ _) \<longleftrightarrow> False"
| "observes (Fsync _) \<longleftrightarrow> False"
| "observes _ \<longleftrightarrow> True"

lemma flags_observe [simp]:
  "O_CREAT \<notin> set DIRECTORY_FLAGS" "O_WRONLY \<notin> set DIRECTORY_FLAGS"
  "O_CREAT \<notin> set FILE_FLAGS" "O_WRONLY \<notin> set FILE_FLAGS"
  by (simp_all add: DIRECTORY_FLAGS_def FILE_FLAGS_def)

lemma only_read_loop [only_rules]: "only observes (read_loop fd limit out)"
proof (induction fd limit out rule: read_loop.induct)
  case (1 fd limit out)
  then show ?case
    by (subst read_loop.simps) (auto simp: sys_read_def intro!: only_rules)
qed

lemma only_mountid [only_rules]: "only observes (mountid fd)"
  unfolding mountid_def by (intro only_rules) simp

lemma only_same_mount [only_rules]: "only observes (same_mount d n)"
  unfolding same_mount_def by (intro only_rules) simp

lemma only_check_unchanged [only_rules]: "only observes (check_unchanged s fd p n e)"
  unfolding check_unchanged_def by (intro only_rules) simp_all

lemma only_descend [only_rules]: "only observes (descend path priv fd parts)"
  by (induction path priv fd parts rule: descend.induct; unfold descend.simps private_check_def;
      intro only_rules) simp_all

lemma only_dir_open [only_rules]: "only observes (dir_open path priv)"
  unfolding dir_open_def by (intro only_rules) simp

lemma only_parent_loop [only_rules]: "only observes (parent_loop d False fd parts)"
  by (induction d False fd parts rule: parent_loop.induct; unfold parent_loop.simps make_directory_def;
      intro only_rules) simp_all

lemma only_parent [only_rules]: "only observes (parent d path False)"
  unfolding parent_def Let_def by (intro only_rules) simp

lemma only_open_file [only_rules]: "only observes (open_file d path limit)"
  unfolding open_file_def by (intro only_rules) simp_all

lemma only_dir_read [only_rules]: "only observes (dir_read d path limit)"
  unfolding dir_read_def close_both_def by (intro only_rules) simp_all

section \<open>Writing\<close>

text \<open>
  What an operation may do to an output directory: create directories for its owner only, create
  files that do not exist yet without following a link, write, synchronise.
\<close>

fun creates_private :: "call \<Rightarrow> bool" where
  "creates_private (Open _ _ fl m) \<longleftrightarrow>
     (O_CREAT \<in> set fl \<or> O_WRONLY \<in> set fl \<longrightarrow> O_EXCL \<in> set fl \<and> O_NOFOLLOW \<in> set fl \<and> m = 384)"
| "creates_private (Mkdir _ _ m) \<longleftrightarrow> m = 448"
| "creates_private _ \<longleftrightarrow> True"

lemma observes_private: "observes c \<Longrightarrow> creates_private c"
  by (cases c) auto

lemmas only_private = only_mono [OF _ observes_private]

lemma only_write_all [only_rules]: "only creates_private (write_all fd b)"
proof (induction fd b rule: write_all.induct)
  case (1 fd b)
  then show ?case
    by (subst write_all.simps) (auto simp: sys_write_def intro!: only_rules)
qed

lemma only_parent_private [only_rules]: "only creates_private (parent d path c)"
proof -
  have "only creates_private (parent_loop d c fd parts)" for fd parts
    by (induction d c fd parts rule: parent_loop.induct; unfold parent_loop.simps make_directory_def;
        intro only_rules only_private [OF only_same_mount]) (simp_all add: DIRECTORY_FLAGS_def)
  then show ?thesis
    unfolding parent_def Let_def by (intro only_rules) simp
qed

lemma only_create [only_rules]: "only creates_private (create d path)"
  unfolding create_def by (intro only_rules) (simp_all add: CREATE_FLAGS_def)

lemma only_write_new [only_rules]: "only creates_private (write_new d path b)"
  unfolding write_new_def close_both_def by (intro only_rules) simp_all

section \<open>What is written and what is read\<close>

text \<open>The bytes that the kernel took for \<open>fd\<close>, and those it delivered, in the order of the calls.\<close>

fun accepted :: "nat \<Rightarrow> event \<Rightarrow> bytes" where
  "accepted fd (Write f b, Is_int n) = (if f = fd then take (nat n) b else [])"
| "accepted fd _ = []"

definition written :: "nat \<Rightarrow> event list \<Rightarrow> bytes" where
  "written fd l = concat (map (accepted fd) l)"

fun delivered :: "nat \<Rightarrow> event \<Rightarrow> bytes" where
  "delivered fd (Read f n, Is_bytes b) = (if f = fd then take (nat n) b else [])"
| "delivered fd _ = []"

definition read_from :: "nat \<Rightarrow> event list \<Rightarrow> bytes" where
  "read_from fd l = concat (map (delivered fd) l)"

lemma sys_write_Inr:
  assumes "sys_write fd b w = (Inr n, v)"
  obtains k where "w_log v = w_log w @ [(Write fd b, Is_int k)]" "n = min k (int (length b))"
  using assms by (auto simp: sys_write_def seq_def sys_int_def ret_def logged_def split: answer.splits)

lemma write_all_written:
  "write_all fd b w = (Inr u, v) \<Longrightarrow> \<exists>l. w_log v = w_log w @ l \<and> written fd l = b"
proof (induction fd b arbitrary: w rule: write_all.induct)
  case (1 fd b)
  show ?case
  proof (cases "b = []")
    case True
    with "1.prems" show ?thesis
      by (subst (asm) write_all.simps) (auto simp: ret_def written_def)
  next
    case False
    with "1.prems" obtain n w1 where n: "sys_write fd b w = (Inr n, w1)" "0 < n"
      and rest: "write_all fd (drop (nat n) b) w1 = (Inr u, v)"
      by (subst (asm) write_all.simps) (auto simp: seq_def raise_def split: prod.splits sum.splits if_splits)
    from n(1) obtain k where k: "w_log w1 = w_log w @ [(Write fd b, Is_int k)]" "n = min k (int (length b))"
      by (rule sys_write_Inr)
    from "1.IH" [OF False _ rest] n(2) obtain l where
      "w_log v = w_log w1 @ l" "written fd l = drop (nat n) b" by auto
    moreover have "take (nat k) b = take (nat n) b"
      using k(2) by (auto simp: min_def)
    ultimately show ?thesis
      using k(1) by (intro exI [of _ "(Write fd b, Is_int k) # l"]) (simp add: written_def)
  qed
qed

lemma sys_read_Inr:
  assumes "sys_read fd n w = (Inr b, v)"
  obtains c where "w_log v = w_log w @ [(Read fd n, Is_bytes c)]" "b = take (nat n) c"
  using assms by (auto simp: sys_read_def seq_def sys_bytes_def ret_def logged_def split: answer.splits)

lemma read_loop_read:
  "read_loop fd limit out w = (Inr r, v) \<Longrightarrow> \<exists>l. w_log v = w_log w @ l \<and> r = out @ read_from fd l"
proof (induction fd limit out arbitrary: w rule: read_loop.induct)
  case (1 fd limit out)
  show ?case
  proof (cases "limit < int (length out)")
    case True
    with "1.prems" show ?thesis
      by (subst (asm) read_loop.simps) (auto simp: ret_def read_from_def)
  next
    case False
    with "1.prems" obtain b w1
      where b: "sys_read fd (min 65536 (limit + 1 - int (length out))) w = (Inr b, w1)"
      and rest: "(if b = [] then ret out else read_loop fd limit (out @ b)) w1 = (Inr r, v)"
      by (subst (asm) read_loop.simps) (auto simp: seq_def split: prod.splits sum.splits)
    from b obtain c where c: "w_log w1 = w_log w @ [(Read fd (min 65536 (limit + 1 - int (length out))), Is_bytes c)]"
      "b = take (nat (min 65536 (limit + 1 - int (length out)))) c"
      by (rule sys_read_Inr)
    show ?thesis
    proof (cases "b = []")
      case True
      with rest c show ?thesis by (auto simp: ret_def read_from_def)
    next
      case nonempty: False
      with rest have "read_loop fd limit (out @ b) w1 = (Inr r, v)" by simp
      from "1.IH" [OF False nonempty this] obtain l where
        "w_log v = w_log w1 @ l" "r = (out @ b) @ read_from fd l" by auto
      with c show ?thesis
        by (intro exI [of _ "(Read fd (min 65536 (limit + 1 - int (length out))), Is_bytes c) # l"])
          (simp add: read_from_def)
    qed
  qed
qed

text \<open>The reader never returns more than the limit, whatever the file does meanwhile.\<close>

lemma dir_read_bound:
  assumes "dir_read d path limit w = (Inr b, v)"
  shows "int (length b) \<le> limit"
  using assms
  by (auto simp: dir_read_def seq_def always_def check_def ret_def raise_def
      split: prod.splits sum.splits if_splits)

end
