(* ===== verification/Examples.thy ===== *)
theory Examples
  imports Trust_Spec Json_Size Directory_Spec
begin

text \<open>
  Concrete values on which the properties are evaluated: a cohort of two empty files and one of three bytes, a trust
  policy with two keys, an anchor that binds them, and operating systems that answer in a fixed way.
\<close>

section \<open>A cohort, its policy and its anchor\<close>

definition zeros :: pystr where
  "zeros = replicate 64 48"

definition demo_attributes :: attributes where
  "demo_attributes = \<lparr>a_mode = 448, a_uid = 1000, a_gid = 1000, a_xattrs = []\<rparr>"

definition demo_entry :: "string \<Rightarrow> string \<Rightarrow> bytes list \<Rightarrow> entry" where
  "demo_entry path kind ps = \<lparr>e_path = str path, e_kind = str kind, e_mode = 384, e_uid = 1000,
     e_gid = 1000, e_xattrs = [], e_size = int (length (concat ps)), e_sha256 = sha (concat ps),
     e_chunks = map sha ps\<rparr>"

definition demo_manifest :: manifest where
  "demo_manifest = \<lparr>m_node = str ''node-1'', m_cohort = zeros, m_generation = 4, m_trust_epoch = 2,
     m_catalog_path = str ''db/catalog'', m_checkpoint_path = str ''db/checkpoint'',
     m_pending = [str ''op-7''], m_root_attributes = demo_attributes,
     m_directories = [(str ''db'', demo_attributes)],
     m_objects = [demo_entry ''db/catalog'' ''catalog'' [], demo_entry ''db/checkpoint'' ''checkpoint'' [],
                  demo_entry ''journal'' ''journal'' [[1, 2, 3]]]\<rparr>"

definition demo_key :: "string \<Rightarrow> string \<Rightarrow> nat \<Rightarrow> signing_key" where
  "demo_key name role c = \<lparr>k_id = str name, k_domain = str name, k_role = str role,
     k_public = replicate 64 c, k_revoked = False\<rparr>"

definition demo_trust :: trust where
  "demo_trust = \<lparr>t_node = str ''node-1'', t_epoch = 2, t_min_generation = 3, t_threshold = 2,
     t_lifetime = 3600, t_keys = [demo_key ''r1'' ''recovery'' 97, demo_key ''w1'' ''witness'' 98]\<rparr>"

definition demo_anchor :: anchor where
  "demo_anchor = \<lparr>an_node = str ''node-1'', an_generation = 4, an_trust_epoch = 2,
     an_manifest = sha (canonical (manifest_json demo_manifest)),
     an_pending = sha (canonical (JArr (map JStr (m_pending demo_manifest)))),
     an_issued = 1000, an_expires = 2000, an_nonce = str ''n1''\<rparr>"

definition demo_signers :: "(signing_key \<times> pystr) list" where
  "demo_signers = [(demo_key ''r1'' ''recovery'' 97, replicate 128 48),
     (demo_key ''w1'' ''witness'' 98, replicate 128 49)]"

definition demo_envelope :: json where
  "demo_envelope = envelope_json demo_anchor (map (\<lambda>(k, s). (k_id k, s)) demo_signers)"

definition demo_expected :: pystr where
  "demo_expected = sha (canonical (anchor_json demo_anchor))"

text \<open>A verifier that accepts every well-formed signature.\<close>

definition demo_verify :: verifier where
  "demo_verify pk sg msg \<longleftrightarrow> length pk = 32 \<and> length sg = 64"

lemma is_digest_zeros [simp]: "is_digest zeros"
  by (simp add: is_digest_def zeros_def is_hex_def is_digit_def list_all_iff)

lemma demo_paths [simp]:
  "is_relative (str ''db/catalog'')" "is_relative (str ''db/checkpoint'')"
  "is_relative (str ''journal'')" "is_relative (str ''db'')"
  "is_ident (str ''node-1'')" "is_ident (str ''op-7'')" "is_ident (str ''n1'')"
  "is_ident (str ''r1'')" "is_ident (str ''w1'')"
  by code_simp+

lemma demo_xattrs [simp]: "xattrs_ok []"
  by (simp add: xattrs_ok_def)

lemma demo_attributes_ok [simp]: "attributes_ok demo_attributes"
  by (simp add: attributes_ok_def demo_attributes_def)

lemma demo_kinds [simp]: "str ''catalog'' \<in> set KINDS" "str ''checkpoint'' \<in> set KINDS" "str ''journal'' \<in> set KINDS"
  by (simp_all add: KINDS_def)

lemma demo_entry_ok:
  "is_relative (str p) \<Longrightarrow> str k \<in> set KINDS \<Longrightarrow> ps \<in> {[], [[1, 2, 3]]} \<Longrightarrow> entry_ok (demo_entry p k ps)"
  by (auto simp: entry_ok_def demo_entry_def MAX_TOTAL_def MAX_CHUNKS_def CHUNK_def)

lemma demo_tree:
  "tree_ok [str ''db''] [str ''db/catalog'', str ''db/checkpoint'', str ''journal'']"
  by code_simp

lemma demo_manifest_ok: "manifest_ok demo_manifest"
  using demo_tree demo_entry_ok
  by (simp add: manifest_ok_def demo_manifest_def has_kind_def)
    (simp add: demo_entry_def total_size_def total_chunks_def MAX_TOTAL_def MAX_CHUNKS_def CHUNK_def
      MAX_OBJECTS_def INT_MAX_def)

lemma demo_trust_ok: "trust_ok demo_trust"
  by (simp add: trust_ok_def demo_trust_def demo_key_def key_ok_def INT_MAX_def ROLES_def
      is_digest_def is_hex_def is_digit_def list_all_iff)

lemma demo_anchor_ok: "anchor_ok demo_anchor"
  by (simp add: anchor_ok_def demo_anchor_def INT_MAX_def)

lemma demo_manifest_fields [simp]:
  "m_node demo_manifest = str ''node-1''" "m_generation demo_manifest = 4"
  "m_trust_epoch demo_manifest = 2"
  by (simp_all add: demo_manifest_def)

lemma demo_binds: "anchor_binds demo_trust demo_manifest demo_anchor demo_expected 1500"
  by (simp add: anchor_binds_def demo_expected_def demo_trust_def demo_anchor_def)

lemma demo_key_verifies:
  "demo_key n r 97 = k \<Longrightarrow> key_verifies demo_verify k (replicate 128 48) msg"
  "demo_key n r 98 = k \<Longrightarrow> key_verifies demo_verify k (replicate 128 49) msg"
proof -
  have "map_option length (fromhex (replicate 64 97)) = Some 32"
    "map_option length (fromhex (replicate 64 98)) = Some 32"
    "map_option length (fromhex (replicate 128 48)) = Some 64"
    "map_option length (fromhex (replicate 128 49)) = Some 64"
    by code_simp+
  then show "demo_key n r 97 = k \<Longrightarrow> key_verifies demo_verify k (replicate 128 48) msg"
    "demo_key n r 98 = k \<Longrightarrow> key_verifies demo_verify k (replicate 128 49) msg"
    by (auto simp: key_verifies_def demo_key_def demo_verify_def)
qed

lemma demo_signers_ok: "signers_ok demo_verify msg demo_signers"
  using demo_key_verifies
  by (auto simp: signers_ok_def demo_signers_def is_signature_def is_hex_def is_digit_def
      list_all_iff) (simp_all add: demo_key_def)

lemma demo_quorum:
  "fst ` set demo_signers \<subseteq> set (t_keys demo_trust)"
  "t_threshold demo_trust \<le> int (length demo_signers)" "length demo_signers \<le> 32"
  "k_role ` fst ` set demo_signers = set ROLES"
  by (simp_all add: demo_signers_def demo_trust_def ROLES_def) (simp add: demo_key_def)

lemma length_dec_small: "n < 10000 \<Longrightarrow> 0 \<le> n \<Longrightarrow> length (dec_int n) \<le> 4"
  using length_dec_nat_le [of "nat n" 4] by (simp add: dec_int_def)

lemma demo_manifest_small: "length (canonical (manifest_json demo_manifest)) \<le> LIMIT"
proof -
  have "length (dec_int i) \<le> 4" if "i \<in> {0, 2, 3, 4, 384, 448, 1000}" for i
    using that by (intro length_dec_small) auto
  note d = this [of 0] this [of 3] this [of 2] this [of 4] this [of 384] this [of 448] this [of 1000]
  have "text_size (manifest_json demo_manifest) \<le> LIMIT"
    using d by (simp add: manifest_json_def demo_manifest_def attributes_json_def demo_attributes_def
        entry_json_def demo_entry_def zeros_def LIMIT_def)
  with length_canonical show ?thesis by (rule le_trans)
qed

lemma demo_envelope_small: "length (canonical demo_envelope) \<le> LIMIT"
proof -
  have "length (dec_int i) \<le> 4" if "i \<in> {2, 4, 1000, 2000}" for i
    using that by (intro length_dec_small) auto
  note d = this [of 2] this [of 4] this [of 1000] this [of 2000]
  have "text_size demo_envelope \<le> LIMIT"
    using d by (simp add: demo_envelope_def envelope_json_def anchor_json_def demo_anchor_def
        demo_signers_def demo_key_def LIMIT_def)
  with length_canonical show ?thesis by (rule le_trans)
qed

lemma demo_envelope_ok: "json_ok demo_envelope" "json_depth demo_envelope \<le> 10"
proof -
  have "str_ok (replicate n 48)" "str_ok (replicate n 49)" for n
    by (rule str_ok_ascii, simp)+
  then show "json_ok demo_envelope"
    by (simp add: demo_envelope_def envelope_json_def anchor_json_def demo_anchor_def demo_signers_def
        demo_key_def del: json_ok.simps(1))
  show "json_depth demo_envelope \<le> 10"
    by (simp add: demo_envelope_def envelope_json_def anchor_json_def demo_signers_def)
qed

lemma demo_decode_envelope: "decode 10 (canonical demo_envelope) = Inr (sort_keys demo_envelope)"
  by (intro decode_canonical demo_envelope_ok demo_envelope_small)

lemma trust_json_ok: "trust_ok t \<Longrightarrow> json_ok (trust_json t)"
proof -
  assume t: "trust_ok t"
  have "json_ok (key_json k)" if "key_ok k" for k
    using that by (auto simp: key_ok_def key_json_def ROLES_def)
  with t show ?thesis
    by (auto simp: trust_ok_def trust_json_def INT_MAX_def list_all_iff simp del: json_ok.simps(1))
qed

lemma demo_validate_trust: "validate_trust (trust_json demo_trust) = Inr demo_trust"
  using demo_trust_ok trust_json_ok [OF demo_trust_ok]
  by (simp add: validate_trust_iff json_ok_distinct)

section \<open>Operating systems\<close>

definition demo_stat :: "int \<Rightarrow> stat" where
  "demo_stat mode = \<lparr>st_dev = 1, st_ino = 2, st_size = 3, st_mtime_ns = 4, st_ctime_ns = 5,
     st_mode = mode, st_uid = 1000, st_gid = 1000\<rparr>"

text \<open>Every directory opens, every file is regular and holds three bytes.\<close>

fun demo_os :: "event list \<Rightarrow> call \<Rightarrow> answer" where
  "demo_os l (Fstat _) = Is_stat (demo_stat 0x8180)"
| "demo_os l (Stat _ _) = Is_stat (demo_stat 0x8180)"
| "demo_os l (Fdinfo _) = Is_names [str ''mnt_id:7'']"
| "demo_os l (Read _ n) = (if n = 4 then Is_bytes [1, 2, 3] else Is_bytes [])"
| "demo_os l (Write _ b) = Is_int (int (length b))"
| "demo_os l Geteuid = Is_int 1000"
| "demo_os l (Listdir _) = Is_names []"
| "demo_os l (Listxattr _) = Is_names []"
| "demo_os l (Getxattr _ _) = Is_bytes []"
| "demo_os l (Statvfs _) = Is_vfs 2000000 4096"
| "demo_os l _ = Done"

lemma demo_mount: "mount_line [str ''mnt_id:7''] = Inr 7"
  by code_simp

lemma demo_os_steady: "steady demo_os"
  using demo_mount by (auto simp: steady_def quiet_def)

end
