(* ===== verification/Directory_Leak.thy ===== *)
theory Directory_Leak
  imports Examples
begin

text \<open>
  The descriptor that \<open>Directory.parent\<close> loses: when \<open>fstat\<close> on the directory just opened raises,
  the handler closes the directory above it, and the one just opened stays open.
\<close>

text \<open>An operating system that answers as \<open>demo_os\<close> but has an I/O error on every \<open>fstat\<close>.\<close>

fun stale_os :: "event list \<Rightarrow> call \<Rightarrow> answer" where
  "stale_os l (Fstat _) = Fails 5"
| "stale_os l c = demo_os l c"

definition demo_directory :: directory where
  "demo_directory = \<lparr>d_path = [str ''/'', str ''srv''], d_fd = 3, d_dev = 1, d_mount = 7\<rparr>"

definition opened :: "(event list \<Rightarrow> call \<Rightarrow> answer) \<Rightarrow> world" where
  "opened os = \<lparr>w_os = os, w_log = [], w_fds = [3], w_cwd = [str ''/''], w_time = 0\<rparr>"

lemma opened_fields [simp]:
  "w_os (opened os) = os" "w_log (opened os) = []" "w_fds (opened os) = [3]"
  by (simp_all add: opened_def)

lemma demo_relative:
  "relative (JStr (str ''db/catalog'')) = Inr (str ''db/catalog'')"
  "split_on 47 (str ''db/catalog'') = [str ''db'', str ''catalog'']"
  by simp code_simp

text \<open>Descriptor 3 is the root of the \<open>Directory\<close>, 0 its duplicate (closed), 1 the lost one.\<close>

lemma parent_loses:
  "fst (parent demo_directory (str ''db/catalog'') False (opened stale_os)) = Inl (OSError 5)"
  "w_fds (snd (parent demo_directory (str ''db/catalog'') False (opened stale_os))) = [1, 3]"
  by (simp_all add: parent_def demo_relative seq_def lift_def Let_def sys_dup_def sys_fd_def answer_of_def
      logged_def demo_directory_def opened_def on_error_def make_directory_def ret_def sys_open_def
      same_mount_def sys_stat_def sys_close_def raise_def fresh_fd_def os_error_def)

text \<open>With an \<open>fstat\<close> that works, the same call returns the parent and the name.\<close>

lemma parent_finds:
  "fst (parent demo_directory (str ''db/catalog'') False (opened demo_os)) = Inr (1, str ''catalog'')"
  using demo_mount
  by (simp add: parent_def demo_relative seq_def lift_def Let_def sys_dup_def sys_fd_def answer_of_def
      logged_def demo_directory_def opened_def on_error_def make_directory_def ret_def sys_open_def
      same_mount_def sys_stat_def sys_close_def raise_def fresh_fd_def os_error_def demo_stat_def
      mountid_def sys_names_def)

end
