(* ===== verification/Recovery.thy ===== *)
theory Recovery
  imports Directory Trust_Spec
begin

unbundle bit_operations_syntax

text \<open>
  The operations of \<open>tools/nia_recovery.py\<close> on directories: \<open>read_xattrs\<close>, \<open>directory_attributes\<close>,
  \<open>closed_inventory\<close>, \<open>find_manifest\<close>, \<open>reconstruct\<close> and \<open>inspect_original\<close>. A hash object is the
  bytes it has been fed. The operations return typed values; the dicts they print are the functions
  named \<open>_json\<close>.
\<close>

section \<open>read_xattrs and directory_attributes\<close>

fun xattr_values :: "nat \<Rightarrow> nat \<Rightarrow> pystr list \<Rightarrow> (pystr \<times> pystr) list io" where
  "xattr_values fd tot [] = ret []"
| "xattr_values fd tot (n # ns) =
     seq (sys_bytes (Getxattr fd n)) (\<lambda>b.
     seq (check (tot + length b \<le> 131072) (Invalid ''xattr bytes'')) (\<lambda>_.
     seq (xattr_values fd (tot + length b) ns) (\<lambda>xs.
     ret ((n, hex_bytes b) # xs))))"

definition read_xattrs :: "nat \<Rightarrow> (pystr \<times> pystr) list io" where
  "read_xattrs fd =
     seq (sys_names (Listxattr fd)) (\<lambda>ns.
     let names = sort ns in
     seq (check (length names \<le> 256) (Invalid ''xattr count'')) (\<lambda>_.
     seq (xattr_values fd 0 names) (\<lambda>out.
     seq (sys_names (Listxattr fd)) (\<lambda>ns'.
     seq (check (names = sort ns') (Invalid ''xattr set changed'')) (\<lambda>_.
     lift (validate_xattrs (JArr (map xattr_json out))))))))"

definition attributes_of :: "directory \<Rightarrow> nat \<Rightarrow> attributes io" where
  "attributes_of root fd =
     seq (sys_stat (Fstat fd)) (\<lambda>st.
     seq (check (st_dev st = d_dev root) (Invalid ''directory mount changed'')) (\<lambda>_.
     seq (mountid fd) (\<lambda>mnt.
     seq (check (mnt = d_mount root) (Invalid ''directory mount changed'')) (\<lambda>_.
     seq (read_xattrs fd) (\<lambda>xs.
     seq (sys_stat (Fstat fd)) (\<lambda>st'.
     seq (check (snapshot st = snapshot st') (Invalid ''directory metadata changed'')) (\<lambda>_.
     ret \<lparr>a_mode = st_mode st AND 4095, a_uid = st_uid st, a_gid = st_gid st, a_xattrs = xs\<rparr>)))))))"

definition directory_attributes :: "directory \<Rightarrow> pystr option \<Rightarrow> attributes io" where
  "directory_attributes root path =
     (case path of
        None \<Rightarrow> seq (sys_dup (d_fd root)) (\<lambda>fd. always (attributes_of root fd) (sys_close fd))
      | Some p \<Rightarrow>
          seq (parent root p False) (\<lambda>(up, name).
          seq (on_error (seq (sys_open (Some up) name DIRECTORY_FLAGS) ret) (sys_close up)) (\<lambda>fd.
          always (attributes_of root fd) (close_both fd up))))"

section \<open>closed_inventory\<close>

text \<open>
  \<open>walk\<close> with the nesting it may still descend (33 at the root: \<open>depth\<close> runs from 0 to 32) and the
  variables of the enclosing function: files, directories, count.
\<close>

type_synonym inventory = "pystr list \<times> pystr list \<times> nat"

fun walk :: "directory \<Rightarrow> nat \<Rightarrow> nat \<Rightarrow> pystr \<Rightarrow> inventory \<Rightarrow> inventory io"
  and walk_names :: "directory \<Rightarrow> nat \<Rightarrow> nat \<Rightarrow> pystr \<Rightarrow> pystr list \<Rightarrow> inventory \<Rightarrow> inventory io" where
  "walk root 0 fd prefix acc = raise (Invalid ''inventory depth'')"
| "walk root (Suc left) fd prefix acc =
     seq (sys_stat (Fstat fd)) (\<lambda>before.
     seq (sys_names (Listdir fd)) (\<lambda>ns.
     seq (walk_names root left fd prefix (sort ns) acc) (\<lambda>acc'.
     seq (sys_names (Listdir fd)) (\<lambda>ns'.
     seq (check (sort ns = sort ns') (Invalid ''inventory changed'')) (\<lambda>_.
     seq (sys_stat (Fstat fd)) (\<lambda>after.
     seq (check (snapshot before = snapshot after) (Invalid ''inventory changed'')) (\<lambda>_.
     ret acc')))))))"
| "walk_names root left fd prefix [] acc = ret acc"
| "walk_names root left fd prefix (name # names) (files, dirs, count) =
     seq (check (count + 1 \<le> 2 * MAX_OBJECTS) (Invalid ''inventory count'')) (\<lambda>_.
     seq (lift (relative (JStr (prefix @ name)))) (\<lambda>path.
     seq (sys_stat (Stat fd name)) (\<lambda>s.
     if S_ISDIR (st_mode s) then
       seq (parent root path False) (\<lambda>(p, n).
       seq (on_error (seq (sys_open (Some p) n DIRECTORY_FLAGS) ret) (sys_close p)) (\<lambda>child.
       seq (always
              (seq (sys_stat (Fstat child)) (\<lambda>s'.
               seq (check (snapshot s = snapshot s') (Invalid ''inventory race/mount'')) (\<lambda>_.
               seq (mountid child) (\<lambda>mnt.
               seq (check (mnt = d_mount root) (Invalid ''inventory race/mount'')) (\<lambda>_.
               walk root left child (path @ str ''/'') (files, dirs @ [path], count + 1))))))
              (close_both child p)) (\<lambda>acc.
       walk_names root left fd prefix names acc)))
     else walk_names root left fd prefix names (files @ [path], dirs, count + 1))))"

definition closed_inventory :: "directory \<Rightarrow> (pystr list \<times> pystr list) io" where
  "closed_inventory root =
     seq (walk root 33 (d_fd root) [] ([], [], 0)) (\<lambda>(files, dirs, _). ret (sort files, sort dirs))"

definition expected_directories :: "manifest \<Rightarrow> pystr list" where
  "expected_directories m = map fst (m_directories m)"

section \<open>find_manifest\<close>

text \<open>\<open>d.get(k)\<close> on a value that need not be a dict.\<close>

definition json_get :: "json \<Rightarrow> string \<Rightarrow> json res" where
  "json_get j k =
     (case j of
        JObj kvs \<Rightarrow> Inr (case map_of kvs (str k) of None \<Rightarrow> JNull | Some v \<Rightarrow> v)
      | _ \<Rightarrow> Inl AttributeError)"

definition anchored_hash :: "nat \<Rightarrow> bytes \<Rightarrow> pystr res" where
  "anchored_hash d eraw =
     rbind (decode d eraw) (\<lambda>e.
     rbind (dict_fields e [''anchor'', ''signatures'']) (\<lambda>_.
     item e ''anchor'' (\<lambda>a. rbind (json_get a ''manifest_sha256'') digest)))"

fun search_replicas :: "pystr \<Rightarrow> directory list \<Rightarrow> bytes io" where
  "search_replicas h [] = raise (Incomplete ''no intact copy of anchored manifest'')"
| "search_replicas h (r # rs) =
     seq (attempt os_or_invalid (dir_read r (str ''manifest.json'') (int LIMIT))) (\<lambda>res.
     case res of
       Inr b \<Rightarrow> if sha b = h then ret b else search_replicas h rs
     | Inl _ \<Rightarrow> search_replicas h rs)"

definition find_manifest :: "nat \<Rightarrow> directory list \<Rightarrow> bytes \<Rightarrow> bytes option \<Rightarrow> bytes io" where
  "find_manifest d replicas eraw explicit =
     seq (lift (anchored_hash d eraw)) (\<lambda>h.
     case explicit of
       Some b \<Rightarrow> if sha b = h then ret b else search_replicas h replicas
     | None \<Rightarrow> search_replicas h replicas)"

end
