(* ===== verification/Reconstruct.thy ===== *)
theory Reconstruct
  imports Recovery
begin

text \<open>
  \<open>reconstruct\<close> and \<open>inspect_original\<close> of \<open>tools/nia_recovery.py\<close>. \<open>out\<close> is the candidate
  directory, absent in a dry verification; \<open>fault\<close> is the callback of the tests, which may raise at
  every point where the code calls it.
\<close>

section \<open>Data\<close>

text \<open>\<open>type(exc).__name__\<close>; \<open>OSError\<close> has a subclass for each of these errnos (Linux).\<close>

definition exn_name :: "exn \<Rightarrow> string" where
  "exn_name e =
     (case e of
        Invalid _ \<Rightarrow> ''Invalid''
      | Incomplete _ \<Rightarrow> ''Incomplete''
      | ValueError \<Rightarrow> ''ValueError''
      | KeyError \<Rightarrow> ''KeyError''
      | TypeError \<Rightarrow> ''TypeError''
      | AttributeError \<Rightarrow> ''AttributeError''
      | FileExistsError \<Rightarrow> ''FileExistsError''
      | RuntimeError _ \<Rightarrow> ''RuntimeError''
      | IndexError \<Rightarrow> ''IndexError''
      | TimeoutExpired \<Rightarrow> ''TimeoutExpired''
      | OSError n \<Rightarrow>
          if n \<in> {11, 114, 115} then ''BlockingIOError'' else if n = 10 then ''ChildProcessError''
          else if n \<in> {32, 108} then ''BrokenPipeError'' else if n = 103 then ''ConnectionAbortedError''
          else if n = 111 then ''ConnectionRefusedError'' else if n = 104 then ''ConnectionResetError''
          else if n = 2 then ''FileNotFoundError'' else if n = 4 then ''InterruptedError''
          else if n = 21 then ''IsADirectoryError'' else if n = 20 then ''NotADirectoryError''
          else if n \<in> {1, 13} then ''PermissionError'' else if n = 3 then ''ProcessLookupError''
          else if n = 110 then ''TimeoutError'' else ''OSError'')"

record bad_replica =
  b_replica :: nat
  b_chunk :: pystr
  b_error :: string

record progress =
  p_bad_count :: nat
  p_bad :: "bad_replica list"
  p_evidence :: nat

record report =
  r_anchor :: pystr
  r_node :: pystr
  r_generation :: int
  r_complete :: bool
  r_pending :: "pystr list"
  r_objects :: "(pystr \<times> bool) list"
  r_bad_count :: nat
  r_bad :: "bad_replica list"

definition bad_replica_json :: "bad_replica \<Rightarrow> json" where
  "bad_replica_json b = JObj [(str ''replica'', JInt (int (b_replica b))), (str ''chunk'', JStr (b_chunk b)),
     (str ''error'', JStr (str (b_error b)))]"

definition report_json :: "report \<Rightarrow> json" where
  "report_json r = JObj [(str ''format'', JStr (str ''nia-recovery-report-v1'')),
     (str ''anchor'', JStr (r_anchor r)), (str ''node'', JStr (r_node r)),
     (str ''generation'', JInt (r_generation r)), (str ''complete'', JBool (r_complete r)),
     (str ''execution_permit'', JBool False), (str ''native_state_verified'', JBool False),
     (str ''attributes_applied'', JBool False), (str ''pending'', JArr (map JStr (r_pending r))),
     (str ''objects'', JArr (map (\<lambda>(p, v). JObj [(str ''path'', JStr p), (str ''verified'', JBool v)]) (r_objects r))),
     (str ''bad_replica_count'', JInt (int (r_bad_count r))),
     (str ''bad_replicas'', JArr (map bad_replica_json (r_bad r)))]"

definition intent_json :: "pystr \<Rightarrow> json" where
  "intent_json expected = JObj [(str ''anchor'', JStr expected), (str ''execution_permit'', JBool False)]"

definition ready_json :: "pystr \<Rightarrow> report \<Rightarrow> json" where
  "ready_json expected r = JObj [(str ''anchor'', JStr expected),
     (str ''report_sha256'', JStr (sha (canonical (report_json r)))),
     (str ''state'', JStr (str ''reconciliation-required'')), (str ''execution_permit'', JBool False)]"

section \<open>One chunk\<close>

definition note_bad :: "nat \<Rightarrow> pystr \<Rightarrow> string \<Rightarrow> progress \<Rightarrow> progress" where
  "note_bad ri ch err st =
     st\<lparr>p_bad_count := p_bad_count st + 1,
        p_bad := (if length (p_bad st) < 256
                  then p_bad st @ [\<lparr>b_replica = ri, b_chunk = ch, b_error = err\<rparr>] else p_bad st)\<rparr>"

definition quarantine :: "directory option \<Rightarrow> bytes \<Rightarrow> progress \<Rightarrow> progress io" where
  "quarantine out b st =
     (case out of
        None \<Rightarrow> ret st
      | Some d \<Rightarrow>
          seq (check (p_evidence st + length b \<le> 2 * LIMIT) (Incomplete ''evidence capacity exhausted'')) (\<lambda>_.
          catch (\<lambda>e. e = FileExistsError)
            (seq (write_new d (str ''evidence/'' @ sha b) b) (\<lambda>_.
             ret (st\<lparr>p_evidence := p_evidence st + length b\<rparr>)))
            (\<lambda>_. seq (dir_read d (str ''evidence/'' @ sha b) CHUNK) (\<lambda>b'.
                 seq (check (b' = b) (Incomplete ''evidence collision'')) (\<lambda>_. ret st)))))"

definition judge_copy ::
  "directory option \<Rightarrow> pystr \<Rightarrow> int \<Rightarrow> nat \<Rightarrow> progress \<Rightarrow> bytes option \<Rightarrow> bytes res \<Rightarrow> (progress \<times> bytes option) io" where
  "judge_copy out ch sz ri st selected res =
     (case res of
        Inl e \<Rightarrow> ret (note_bad ri ch (exn_name e) st, selected)
      | Inr b \<Rightarrow>
          if int (length b) \<noteq> sz \<or> sha b \<noteq> ch then
            seq (quarantine out b st) (\<lambda>st'. ret (note_bad ri ch ''digest-or-length'' st', selected))
          else ret (st, if selected = None then Some b else selected))"

definition try_replica ::
  "directory option \<Rightarrow> pystr \<Rightarrow> int \<Rightarrow> nat \<Rightarrow> directory \<Rightarrow> progress \<times> bytes option \<Rightarrow> (progress \<times> bytes option) io" where
  "try_replica out ch sz ri r acc =
     seq (attempt os_or_invalid (dir_read r (str ''objects/'' @ ch) CHUNK)) (\<lambda>res.
     judge_copy out ch sz ri (fst acc) (snd acc) res)"

fun try_replicas ::
  "directory option \<Rightarrow> pystr \<Rightarrow> int \<Rightarrow> nat \<Rightarrow> directory list \<Rightarrow> progress \<times> bytes option \<Rightarrow> (progress \<times> bytes option) io" where
  "try_replicas out ch sz ri [] acc = ret acc"
| "try_replicas out ch sz ri (r # rs) acc =
     seq (try_replica out ch sz ri r acc) (\<lambda>acc'. try_replicas out ch sz (ri + 1) rs acc')"

section \<open>One object\<close>

definition emit_chunk :: "(string \<Rightarrow> unit res) \<Rightarrow> directory option \<Rightarrow> nat \<Rightarrow> bytes \<Rightarrow> unit io" where
  "emit_chunk fault out fd b =
     (case out of
        None \<Rightarrow> ret ()
      | Some _ \<Rightarrow> seq (write_all fd b) (\<lambda>_. lift (fault ''after-chunk'')))"

text \<open>
  The chunk loop of an object: \<open>number\<close> counts the chunks, \<open>data\<close> is what \<open>h\<close> has been fed (so
  \<open>size\<close> is its length). \<open>False\<close> is the \<open>break\<close> on a chunk that no replica holds intact.
\<close>

fun chunk_loop ::
  "(string \<Rightarrow> unit res) \<Rightarrow> directory option \<Rightarrow> nat \<Rightarrow> directory list \<Rightarrow> int \<Rightarrow> int \<Rightarrow> pystr list \<Rightarrow>
   bytes \<Rightarrow> progress \<Rightarrow> (bool \<times> bytes \<times> progress) io" where
  "chunk_loop fault out fd replicas sz number [] data st = ret (True, data, st)"
| "chunk_loop fault out fd replicas sz number (ch # chs) data st =
     seq (try_replicas out ch (min CHUNK (sz - number * CHUNK)) 0 replicas (st, None)) (\<lambda>(st', selected).
     case selected of
       None \<Rightarrow> ret (False, data, st')
     | Some b \<Rightarrow>
         seq (emit_chunk fault out fd b) (\<lambda>_.
         chunk_loop fault out fd replicas sz (number + 1) chs (data @ b) st'))"

definition object_good :: "entry \<Rightarrow> bool \<times> bytes \<times> progress \<Rightarrow> bool" where
  "object_good e res =
     (case res of (good, data, st) \<Rightarrow> good \<and> int (length data) = e_size e \<and> sha data = e_sha256 e)"

definition rebuild_object ::
  "(string \<Rightarrow> unit res) \<Rightarrow> directory option \<Rightarrow> directory list \<Rightarrow> entry \<Rightarrow> progress \<Rightarrow> (bool \<times> progress) io" where
  "rebuild_object fault out replicas e st =
     (case out of
        None \<Rightarrow>
          seq (chunk_loop fault None 0 replicas (e_size e) 0 (e_chunks e) [] st) (\<lambda>res.
          ret (object_good e res, snd (snd res)))
      | Some d \<Rightarrow>
          seq (create d (str ''payload/'' @ e_path e)) (\<lambda>(fd, up).
          always
            (seq (chunk_loop fault out fd replicas (e_size e) 0 (e_chunks e) [] st) (\<lambda>res.
             seq (sys_unit (Fsync fd)) (\<lambda>_.
             seq (sys_unit (Fsync up)) (\<lambda>_.
             seq (lift (fault ''after-object'')) (\<lambda>_.
             ret (object_good e res, snd (snd res)))))))
            (close_both fd up)))"

fun rebuild_objects ::
  "(string \<Rightarrow> unit res) \<Rightarrow> directory option \<Rightarrow> directory list \<Rightarrow> entry list \<Rightarrow> progress \<Rightarrow>
   ((pystr \<times> bool) list \<times> progress) io" where
  "rebuild_objects fault out replicas [] st = ret ([], st)"
| "rebuild_objects fault out replicas (e # es) st =
     seq (rebuild_object fault out replicas e st) (\<lambda>(good, st').
     seq (rebuild_objects fault out replicas es st') (\<lambda>(os, st'').
     ret ((e_path e, good) # os, st'')))"

section \<open>reconstruct\<close>

definition overlaps :: "directory \<Rightarrow> directory \<Rightarrow> bool" where
  "overlaps a b \<longleftrightarrow> d_path a = d_path b \<or> in_parents (d_path a) (d_path b) \<or> in_parents (d_path b) (d_path a)"

text \<open>What happens to the candidate before the first object.\<close>

definition prepare ::
  "(string \<Rightarrow> unit res) \<Rightarrow> directory list \<Rightarrow> directory \<Rightarrow> manifest \<Rightarrow> bytes \<Rightarrow> bytes \<Rightarrow> pystr \<Rightarrow> unit io" where
  "prepare fault replicas d m mraw eraw expected =
     seq (check (\<forall>r\<in>set replicas. \<not> overlaps d r) (Invalid ''candidate/source overlap'')) (\<lambda>_.
     seq (sys_names (Listdir (d_fd d))) (\<lambda>ns.
     seq (check (ns = []) (Invalid ''candidate must be empty; incomplete candidates require separate review'')) (\<lambda>_.
     seq (sys_statvfs (d_fd d)) (\<lambda>(bavail, frsize).
     seq (lift (validate_manifest (manifest_json m))) (\<lambda>(_, tot).
     seq (check (tot + 4 * int LIMIT \<le> bavail * frsize) (Invalid ''candidate/evidence capacity'')) (\<lambda>_.
     seq (write_new d (str ''intent.json'') (canonical (intent_json expected))) (\<lambda>_.
     seq (lift (fault ''after-intent'')) (\<lambda>_.
     seq (write_new d (str ''manifest.json'') mraw) (\<lambda>_.
     write_new d (str ''anchor.json'') eraw)))))))))"

definition finish :: "(string \<Rightarrow> unit res) \<Rightarrow> directory \<Rightarrow> pystr \<Rightarrow> report \<Rightarrow> unit io" where
  "finish fault d expected r =
     seq (write_new d (str ''report.json'') (canonical (report_json r))) (\<lambda>_.
     seq (lift (fault ''after-report'')) (\<lambda>_.
     if r_complete r then
       seq (write_new d (str ''candidate-ready.json'') (canonical (ready_json expected r))) (\<lambda>_.
       lift (fault ''after-ready''))
     else ret ()))"

definition make_report :: "manifest \<Rightarrow> pystr \<Rightarrow> (pystr \<times> bool) list \<Rightarrow> progress \<Rightarrow> report" where
  "make_report m expected objs st =
     \<lparr>r_anchor = expected, r_node = m_node m, r_generation = m_generation m,
      r_complete = (\<forall>(p, good)\<in>set objs. good), r_pending = m_pending m, r_objects = objs,
      r_bad_count = p_bad_count st, r_bad = p_bad st\<rparr>"

definition reconstruct ::
  "verifier \<Rightarrow> nat \<Rightarrow> bytes \<Rightarrow> bytes \<Rightarrow> json \<Rightarrow> pystr \<Rightarrow> int \<Rightarrow> directory list \<Rightarrow> directory option \<Rightarrow>
   (string \<Rightarrow> unit res) \<Rightarrow> report io" where
  "reconstruct verify depth mraw eraw trust expected now replicas out fault =
     seq (lift (authenticate verify depth mraw eraw trust expected now)) (\<lambda>(m, a).
     seq (check (1 \<le> length replicas \<and> length replicas \<le> 16) (Invalid ''replica count'')) (\<lambda>_.
     seq (case out of None \<Rightarrow> ret () | Some d \<Rightarrow> prepare fault replicas d m mraw eraw expected) (\<lambda>_.
     seq (rebuild_objects fault out replicas (m_objects m) \<lparr>p_bad_count = 0, p_bad = [], p_evidence = 0\<rparr>) (\<lambda>(objs, st).
     let r = make_report m expected objs st in
     seq (case out of None \<Rightarrow> ret () | Some d \<Rightarrow> finish fault d expected r) (\<lambda>_.
     ret r)))))"

section \<open>inspect_original\<close>

datatype verdict = Matched | Mismatch | Missing

record inspection =
  i_objects :: "(pystr \<times> verdict) list"
  i_complete :: bool
  i_exact :: bool

text \<open>The \<open>and\<close> chain of \<open>consistent\<close>, evaluated from left to right as Python does.\<close>

definition consistent :: "entry \<Rightarrow> bytes \<Rightarrow> stat \<Rightarrow> nat \<Rightarrow> nat \<Rightarrow> pystr \<Rightarrow> bool io" where
  "consistent e data s fd p n =
     (if \<not> (int (length data) = e_size e \<and> sha data = e_sha256 e \<and> st_mode s AND 4095 = e_mode e \<and>
            st_uid s = e_uid e \<and> st_gid s = e_gid e) then ret False
      else seq (read_xattrs fd) (\<lambda>xs.
        if xs \<noteq> e_xattrs e then ret False
        else seq (sys_stat (Fstat fd)) (\<lambda>s1.
          if snapshot s \<noteq> snapshot s1 then ret False
          else seq (sys_stat (Stat p n)) (\<lambda>s2. ret (snapshot s = snapshot s2)))))"

definition inspect_object :: "directory \<Rightarrow> entry \<Rightarrow> verdict io" where
  "inspect_object source e =
     seq (attempt os_or_invalid (open_file source (e_path e) (e_size e))) (\<lambda>res.
     case res of
       Inl _ \<Rightarrow> ret Missing
     | Inr (fd, p, n, s) \<Rightarrow>
         always
           (seq (attempt os_or_invalid
              (seq (read_loop fd (e_size e) []) (\<lambda>data. consistent e data s fd p n))) (\<lambda>c.
            ret (case c of Inl _ \<Rightarrow> Missing | Inr True \<Rightarrow> Matched | Inr False \<Rightarrow> Mismatch)))
           (close_both fd p))"

fun all_attributes :: "directory \<Rightarrow> (pystr \<times> attributes) list \<Rightarrow> bool io" where
  "all_attributes source [] = ret True"
| "all_attributes source ((p, a) # ds) =
     seq (directory_attributes source (Some p)) (\<lambda>a'. if a' = a then all_attributes source ds else ret False)"

definition attributes_exact :: "directory \<Rightarrow> manifest \<Rightarrow> bool io" where
  "attributes_exact source m =
     seq (directory_attributes source None) (\<lambda>a.
     if a = m_root_attributes m then all_attributes source (m_directories m) else ret False)"

definition inspect_original ::
  "verifier \<Rightarrow> nat \<Rightarrow> bytes \<Rightarrow> bytes \<Rightarrow> json \<Rightarrow> pystr \<Rightarrow> int \<Rightarrow> directory \<Rightarrow> inspection io" where
  "inspect_original verify depth mraw eraw trust expected now source =
     seq (lift (authenticate verify depth mraw eraw trust expected now)) (\<lambda>(m, _).
     seq (attempt os_or_invalid (closed_inventory source)) (\<lambda>before.
     seq (each (\<lambda>e. seq (inspect_object source e) (\<lambda>v. ret (e_path e, v))) (m_objects m)) (\<lambda>items.
     seq (attempt os_or_invalid (closed_inventory source)) (\<lambda>after.
     seq (attempt os_or_invalid (attributes_exact source m)) (\<lambda>attrs.
     let listed = (map e_path (m_objects m), expected_directories m);
         exact = (before = Inr listed \<and> after = Inr listed \<and> attrs = Inr True)
     in ret \<lparr>i_objects = items, i_complete = (exact \<and> (\<forall>(p, v)\<in>set items. v = Matched)), i_exact = exact\<rparr>)))))"

end
