(* ===== verification/Results.thy ===== *)
theory Results
  imports Directory_Fds
begin

text \<open>
  What programs return and raise. \<open>ends os P Q m\<close>: on the operating system \<open>os\<close>, every exception of
  \<open>m\<close> satisfies \<open>P\<close> and every value it returns satisfies \<open>Q\<close>.
\<close>

definition end_post :: "(event list \<Rightarrow> call \<Rightarrow> answer) \<Rightarrow> (exn \<Rightarrow> bool) \<Rightarrow> ('a \<Rightarrow> bool) \<Rightarrow> 'a res \<times> world \<Rightarrow> bool" where
  "end_post os P Q rv \<longleftrightarrow> w_os (snd rv) = os \<and> (case fst rv of Inl e \<Rightarrow> P e | Inr x \<Rightarrow> Q x)"

definition ends :: "(event list \<Rightarrow> call \<Rightarrow> answer) \<Rightarrow> (exn \<Rightarrow> bool) \<Rightarrow> ('a \<Rightarrow> bool) \<Rightarrow> 'a io \<Rightarrow> bool" where
  "ends os P Q m \<longleftrightarrow> (\<forall>w. w_os w = os \<longrightarrow> end_post os P Q (m w))"

named_theorems ends_rules

lemma end_post_simps [simp]:
  "end_post os P Q (Inl e, v) \<longleftrightarrow> w_os v = os \<and> P e"
  "end_post os P Q (Inr x, v) \<longleftrightarrow> w_os v = os \<and> Q x"
  by (simp_all add: end_post_def)

lemma endsI: "(\<And>w. w_os w = os \<Longrightarrow> end_post os P Q (m w)) \<Longrightarrow> ends os P Q m"
  by (simp add: ends_def)

lemma endsD: "ends os P Q m \<Longrightarrow> w_os w = os \<Longrightarrow> end_post os P Q (m w)"
  by (simp add: ends_def)

lemma ends_InlD: "ends os P Q m \<Longrightarrow> w_os w = os \<Longrightarrow> m w = (Inl e, v) \<Longrightarrow> w_os v = os \<and> P e"
  using endsD [of os P Q m w] by simp

lemma ends_InrD: "ends os P Q m \<Longrightarrow> w_os w = os \<Longrightarrow> m w = (Inr x, v) \<Longrightarrow> w_os v = os \<and> Q x"
  using endsD [of os P Q m w] by simp

lemma ends_ret [ends_rules]: "Q x \<Longrightarrow> ends os P Q (ret x)"
  by (simp add: ends_def ret_def)

lemma ends_raise [ends_rules]: "P e \<Longrightarrow> ends os P Q (raise e)"
  by (simp add: ends_def raise_def)

lemma ends_lift:
  "(\<And>e. r = Inl e \<Longrightarrow> P e) \<Longrightarrow> (\<And>x. r = Inr x \<Longrightarrow> Q x) \<Longrightarrow> ends os P Q (lift r)"
  by (cases r) (auto simp: ends_def lift_def)

lemma ends_seq:
  assumes m: "ends os P R m" and f: "\<And>x. R x \<Longrightarrow> ends os P Q (f x)"
  shows "ends os P Q (seq m f)"
proof (rule endsI)
  fix w :: world assume w: "w_os w = os"
  obtain r v where mw: "m w = (r, v)" by (cases "m w")
  with endsD [OF m w] have mv: "end_post os P R (r, v)" by simp
  show "end_post os P Q (seq m f w)"
  proof (cases r)
    case (Inr x)
    with mv have "end_post os P Q (f x v)" by (intro endsD [OF f]) auto
    with Inr mw show ?thesis by (simp add: seq_def)
  qed (use mv mw in \<open>simp add: seq_def\<close>)
qed

lemma ends_yields:
  assumes "ends os P (\<lambda>_. True) m" "\<And>x w v. m w = (Inr x, v) \<Longrightarrow> Q x"
  shows "ends os P Q m"
proof (rule endsI)
  fix w :: world assume w: "w_os w = os"
  obtain r v where mw: "m w = (r, v)" by (cases "m w")
  with endsD [OF assms(1) w] assms(2) show "end_post os P Q (m w)" by (cases r) auto
qed

text \<open>The first program's value does not matter.\<close>

lemma ends_seq_any [ends_rules]:
  "ends os P (\<lambda>_. True) m \<Longrightarrow> (\<And>x. ends os P Q (f x)) \<Longrightarrow> ends os P Q (seq m f)"
  by (rule ends_seq)

lemma ends_check [ends_rules]: "(\<not> b \<Longrightarrow> P e) \<Longrightarrow> (b \<Longrightarrow> Q ()) \<Longrightarrow> ends os P Q (check b e)"
  by (simp add: check_def ends_rules)

lemma ends_seq_check:
  "(\<not> b \<Longrightarrow> P e) \<Longrightarrow> (b \<Longrightarrow> ends os P Q (f ())) \<Longrightarrow> ends os P Q (seq (check b e) f)"
  by (rule ends_seq [where R = "\<lambda>_. b"]) (auto intro: ends_check)

lemma ends_if [ends_rules]:
  "(b \<Longrightarrow> ends os P Q m) \<Longrightarrow> (\<not> b \<Longrightarrow> ends os P Q n) \<Longrightarrow> ends os P Q (if b then m else n)"
  by simp

lemma ends_prod [ends_rules]:
  "(\<And>x y. p = (x, y) \<Longrightarrow> ends os P Q (f x y)) \<Longrightarrow> ends os P Q (case p of (x, y) \<Rightarrow> f x y)"
  by (cases p) simp

lemma ends_sum [ends_rules]:
  "(\<And>a. r = Inl a \<Longrightarrow> ends os P Q (f a)) \<Longrightarrow> (\<And>b. r = Inr b \<Longrightarrow> ends os P Q (g b)) \<Longrightarrow>
   ends os P Q (case r of Inl a \<Rightarrow> f a | Inr b \<Rightarrow> g b)"
  by (cases r) simp_all

lemma ends_option [ends_rules]:
  "(r = None \<Longrightarrow> ends os P Q m) \<Longrightarrow> (\<And>b. r = Some b \<Longrightarrow> ends os P Q (g b)) \<Longrightarrow>
   ends os P Q (case r of None \<Rightarrow> m | Some b \<Rightarrow> g b)"
  by (cases r) simp_all

lemma ends_mono: "ends os P' R m \<Longrightarrow> (\<And>e. P' e \<Longrightarrow> P e) \<Longrightarrow> (\<And>x. R x \<Longrightarrow> Q x) \<Longrightarrow> ends os P Q m"
  unfolding ends_def end_post_def by (auto split: sum.splits)

lemma ends_catch [ends_rules]:
  assumes m: "ends os (\<lambda>e. C e \<or> P e) Q m" and h: "\<And>e. ends os P Q (h e)"
  shows "ends os P Q (catch C m h)"
proof (rule endsI)
  fix w :: world assume w: "w_os w = os"
  obtain r v where mw: "m w = (r, v)" by (cases "m w")
  with endsD [OF m w] have mv: "end_post os (\<lambda>e. C e \<or> P e) Q (r, v)" by simp
  then have "end_post os P Q (h e v)" for e
    by (intro endsD [OF h]) (cases r; simp)
  with mv mw show "end_post os P Q (catch C m h w)"
    by (cases r) (auto simp: catch_def)
qed

lemma ends_attempt:
  assumes "ends os (\<lambda>e. C e \<or> P e) Q m"
  shows "ends os P (\<lambda>r. case r of Inl e \<Rightarrow> True | Inr x \<Rightarrow> Q x) (attempt C m)"
  unfolding attempt_def
  by (intro ends_catch ends_seq [OF assms] ends_ret) simp_all

lemma ends_always [ends_rules]:
  assumes m: "ends os P Q m" and c: "ends os P (\<lambda>_. True) c"
  shows "ends os P Q (always m c)"
proof (rule endsI)
  fix w :: world assume w: "w_os w = os"
  obtain r v where mw: "m w = (r, v)" by (cases "m w")
  with endsD [OF m w] have mv: "end_post os P Q (r, v)" by simp
  obtain r' v' where cv: "c v = (r', v')" by (cases "c v")
  have "end_post os P (\<lambda>_. True) (c v)"
    using mv by (intro endsD [OF c]) (cases r; simp)
  with mv mw cv show "end_post os P Q (always m c w)"
    by (cases r; cases r') (simp_all add: always_def)
qed

lemma ends_on_error [ends_rules]:
  assumes m: "ends os P Q m" and c: "ends os P (\<lambda>_. True) c"
  shows "ends os P Q (on_error m c)"
proof (rule endsI)
  fix w :: world assume w: "w_os w = os"
  obtain r v where mw: "m w = (r, v)" by (cases "m w")
  with endsD [OF m w] have mv: "end_post os P Q (r, v)" by simp
  obtain r' v' where cv: "c v = (r', v')" by (cases "c v")
  have "end_post os P (\<lambda>_. True) (c v)"
    using mv by (intro endsD [OF c]) (cases r; simp)
  with mv mw cv show "end_post os P Q (on_error m c w)"
    by (cases r; cases r') (simp_all add: on_error_def)
qed

lemma ends_each:
  "(\<And>x. x \<in> set xs \<Longrightarrow> ends os P (R x) (f x)) \<Longrightarrow> ends os P (list_all2 R xs) (each f xs)"
proof (induction xs)
  case (Cons x xs)
  have "ends os P (list_all2 R (x # xs)) (seq (f x) (\<lambda>y. seq (each f xs) (\<lambda>ys. ret (y # ys))))"
    using Cons by (intro ends_seq [where R = "R x"] ends_seq [where R = "list_all2 R xs"] ends_ret) auto
  then show ?case by simp
qed (simp add: ends_ret)

section \<open>System calls raise OSError\<close>

lemma is_os_error_os_error [simp]: "is_os_error (os_error n)"
  by (simp add: os_error_def)

lemma ends_calls [ends_rules]:
  "(\<And>e. is_os_error e \<Longrightarrow> P e) \<Longrightarrow> ends os P (\<lambda>_. True) (sys_unit c)"
  "(\<And>e. is_os_error e \<Longrightarrow> P e) \<Longrightarrow> ends os P (\<lambda>_. True) (sys_stat c)"
  "(\<And>e. is_os_error e \<Longrightarrow> P e) \<Longrightarrow> ends os P (\<lambda>_. True) (sys_int c)"
  "(\<And>e. is_os_error e \<Longrightarrow> P e) \<Longrightarrow> ends os P (\<lambda>_. True) (sys_names c)"
  "(\<And>e. is_os_error e \<Longrightarrow> P e) \<Longrightarrow> ends os P (\<lambda>_. True) (sys_bytes c)"
  "(\<And>e. is_os_error e \<Longrightarrow> P e) \<Longrightarrow> ends os P (\<lambda>_. True) (sys_statvfs fd)"
  "(\<And>e. is_os_error e \<Longrightarrow> P e) \<Longrightarrow> ends os P (\<lambda>_. True) (sys_fd c)"
  "(\<And>e. is_os_error e \<Longrightarrow> P e) \<Longrightarrow> ends os P (\<lambda>_. True) (sys_close fd)"
  "(\<And>e. is_os_error e \<Longrightarrow> P e) \<Longrightarrow> ends os P (\<lambda>_. True) (sys_dup fd)"
  "(\<And>e. is_os_error e \<Longrightarrow> P e) \<Longrightarrow> ends os P (\<lambda>_. True) (sys_open dir n fl)"
  by (auto simp: ends_def sys_unit_def sys_stat_def sys_int_def sys_names_def sys_bytes_def
      sys_statvfs_def sys_fd_def sys_close_def sys_dup_def sys_open_def logged_def Let_def
      split: answer.splits)

lemma ends_read [ends_rules]: "(\<And>e. is_os_error e \<Longrightarrow> P e) \<Longrightarrow> ends os P (\<lambda>_. True) (sys_read fd n)"
  unfolding sys_read_def by (intro ends_rules) auto

lemma ends_write [ends_rules]: "(\<And>e. is_os_error e \<Longrightarrow> P e) \<Longrightarrow> ends os P (\<lambda>_. True) (sys_write fd b)"
  unfolding sys_write_def by (intro ends_rules) auto

section \<open>Directory operations on a steady system\<close>

lemma os_or_invalid_simps [simp]:
  "is_os_error e \<Longrightarrow> os_or_invalid e" "is_invalid e \<Longrightarrow> os_or_invalid e"
  by (simp_all add: os_or_invalid_def)

lemma ends_mountid [ends_rules]: "steady os \<Longrightarrow> ends os os_or_invalid (\<lambda>_. True) (mountid fd)"
proof (rule endsI)
  fix w :: world assume os: "steady os" and w: "w_os w = os"
  obtain ls i where "os (w_log w) (Fdinfo fd) = Is_names ls" "mount_line ls = Inr i"
    using os unfolding steady_def by blast
  with w show "end_post os os_or_invalid (\<lambda>_. True) (mountid fd w)"
    by (simp add: mountid_def seq_def sys_names_def answer_of_def lift_def logged_def)
qed

lemma ends_read_loop [ends_rules]: "ends os os_or_invalid (\<lambda>_. True) (read_loop fd limit out)"
proof (induction fd limit out rule: read_loop.induct)
  case (1 fd limit out)
  then show ?case by (subst read_loop.simps) (auto intro!: ends_rules)
qed

lemma ends_write_all_os: "ends os is_os_error (\<lambda>_. True) (write_all fd b)"
proof (induction fd b rule: write_all.induct)
  case (1 fd b)
  then show ?case by (subst write_all.simps) (auto intro!: ends_rules)
qed

lemma ends_write_all [ends_rules]: "ends os os_or_invalid (\<lambda>_. True) (write_all fd b)"
  by (rule ends_mono [OF ends_write_all_os]) simp_all

lemma ends_parent [ends_rules]:
  assumes "steady os"
  shows "ends os os_or_invalid (\<lambda>_. True) (parent d path c)"
proof -
  have "ends os os_or_invalid (\<lambda>_. True) (parent_loop d c fd ps)" for fd ps
    by (induction d c fd ps rule: parent_loop.induct;
        unfold parent_loop.simps make_directory_def same_mount_def; intro ends_rules assms) simp_all
  moreover have "ends os os_or_invalid (\<lambda>_. True) (lift (relative (JStr path)))"
    using raises_relative [of "JStr path"] by (auto intro!: ends_lift simp: raises_def)
  ultimately show ?thesis
    unfolding parent_def Let_def by (intro ends_rules) simp_all
qed

lemma ends_open_file [ends_rules]:
  "steady os \<Longrightarrow> ends os os_or_invalid (\<lambda>_. True) (open_file d path limit)"
  unfolding open_file_def by (intro ends_rules) simp_all

lemma ends_dir_read [ends_rules]:
  "steady os \<Longrightarrow> ends os os_or_invalid (\<lambda>_. True) (dir_read d path limit)"
  unfolding dir_read_def check_unchanged_def close_both_def by (intro ends_rules) simp_all

lemma ends_create [ends_rules]: "steady os \<Longrightarrow> ends os os_or_invalid (\<lambda>_. True) (create d path)"
  unfolding create_def by (intro ends_rules) simp_all

lemma ends_write_new [ends_rules]: "steady os \<Longrightarrow> ends os os_or_invalid (\<lambda>_. True) (write_new d path b)"
  unfolding write_new_def close_both_def by (intro ends_rules) simp_all

end
