(* ===== verification/Recovery_Spec.thy ===== *)
theory Recovery_Spec
  imports Recovery Directory_Spec Results
begin

text \<open>
  Inventory, attributes and manifest search: they only observe, they leave no descriptor open, and
  on a steady system they fail with \<open>OSError\<close> or \<open>Invalid\<close> only.
\<close>

section \<open>Observation\<close>

lemma only_xattr_values [only_rules]: "only observes (xattr_values fd tot ns)"
  by (induction fd tot ns rule: xattr_values.induct; unfold xattr_values.simps; intro only_rules) simp_all

lemma only_read_xattrs [only_rules]: "only observes (read_xattrs fd)"
  unfolding read_xattrs_def Let_def by (intro only_rules) simp_all

lemma only_attributes_of [only_rules]: "only observes (attributes_of root fd)"
  unfolding attributes_of_def by (intro only_rules) simp_all

lemma only_directory_attributes [only_rules]: "only observes (directory_attributes root path)"
  unfolding directory_attributes_def close_both_def
  by (cases path) (auto intro!: only_rules)

lemma only_walk [only_rules]:
  "only observes (walk root left fd prefix acc)"
  "only observes (walk_names root left fd prefix names acc')"
proof (induction root left fd prefix acc and root left fd prefix names acc' rule: walk_walk_names.induct)
  case (2 root left fd prefix acc)
  show ?case unfolding walk.simps by (intro only_rules 2) simp_all
next
  case (4 root left fd prefix name names files dirs count)
  show ?case unfolding walk_names.simps close_both_def by (intro only_rules 4) simp_all
qed (simp_all add: only_rules)

lemma only_closed_inventory [only_rules]: "only observes (closed_inventory root)"
  unfolding closed_inventory_def by (intro only_rules)

lemma only_search [only_rules]: "only observes (search_replicas h rs)"
  by (induction h rs rule: search_replicas.induct; unfold search_replicas.simps; intro only_rules)

lemma only_find_manifest [only_rules]: "only observes (find_manifest d replicas eraw explicit)"
  unfolding find_manifest_def by (cases explicit) (auto intro!: only_rules)

section \<open>Descriptors\<close>

lemma keeps_read_xattrs [keeps]: "keeps_fds (read_xattrs fd)"
proof -
  have "keeps_fds (xattr_values fd tot ns)" for tot ns
    by (induction fd tot ns rule: xattr_values.induct; unfold xattr_values.simps; intro keeps)
  then show ?thesis unfolding read_xattrs_def Let_def by (intro keeps)
qed

lemma keeps_attributes_of [keeps]: "keeps_fds (attributes_of root fd)"
  unfolding attributes_of_def by (intro keeps)

text \<open>Opening a directory inside its parent: both are open afterwards, none if it fails.\<close>

lemma fdt_open_child:
  assumes os: "steady os"
    and body: "\<And>p n c. p \<notin> set s \<Longrightarrow> c \<notin> set (p # s) \<Longrightarrow> fdt os (c # p # s) s (f p n c) G"
  shows "fdt os s s (seq (parent root path False) (\<lambda>(p, n).
      seq (on_error (seq (sys_open (Some p) n fl) ret) (sys_close p)) (\<lambda>c. f p n c))) G"
proof (rule fdt_seq [OF fdt_parent [OF os]], clarify, goal_cases)
  case (1 p n)
  note q = steady_quiet [OF os]
  show ?case
    by (rule fdt_seq [where H = "\<lambda>c t. t = c # p # s \<and> c \<notin> set (p # s)"],
        intro fdt_on_error [where s' = "p # s"] fd_rules q) (use 1 body in auto)
qed

lemma balanced_directory_attributes:
  assumes os: "steady os"
  shows "balanced os s (directory_attributes root path)"
proof (cases path)
  case None
  then show ?thesis
    using steady_quiet [OF os] unfolding directory_attributes_def
    by (auto intro!: fdt_seq_open fdt_always fdt_keeps keeps fdt_close)
next
  case (Some p)
  have "fdt os (c # p # s) s (always (attributes_of root c) (close_both c p)) (\<lambda>_ t. t = s)"
    if "p \<notin> set s" "c \<notin> set (p # s)" for p c
    using that steady_quiet [OF os]
    by (intro fdt_always [where s' = "c # p # s"] fdt_keeps keeps fdt_close_both) auto
  then show ?thesis
    unfolding directory_attributes_def Some option.case by (intro fdt_open_child os)
qed

lemma balanced_walk:
  assumes os: "steady os"
  shows "balanced os s (walk root left fd prefix acc)"
    and "balanced os s (walk_names root left fd prefix names acc')"
proof (induction root left fd prefix acc and root left fd prefix names acc' arbitrary: s and s
    rule: walk_walk_names.induct)
  case (2 root left fd prefix acc)
  show ?case
    unfolding walk.simps
    by (intro fdt_seq_keeps keeps fdt_seq_balanced fdt_seq_check fdt_ret refl) (rule 2)
next
  case (4 root left fd prefix name names files dirs count)
  have inner: "balanced os (c # p # s) (seq (sys_stat (Fstat c)) (\<lambda>s'.
      seq (check (snapshot st = snapshot s') e) (\<lambda>_.
      seq (mountid c) (\<lambda>mnt. seq (check (mnt = d_mount root) e') (\<lambda>_.
      walk root left c (path @ str ''/'') (files, dirs @ [path], count + 1))))))" if "S_ISDIR (st_mode st)" for c p s st e e' path
    by (intro fdt_seq_keeps keeps fdt_seq_check refl) (rule 4(1) [OF that])
  have step: "fdt os (c # p # s) s (seq (always (seq (sys_stat (Fstat c)) (\<lambda>s'.
      seq (check (snapshot st = snapshot s') e) (\<lambda>_.
      seq (mountid c) (\<lambda>mnt. seq (check (mnt = d_mount root) e') (\<lambda>_.
      walk root left c (path @ str ''/'') (files, dirs @ [path], count + 1))))))
      (close_both c p)) (\<lambda>acc. walk_names root left fd prefix names acc)) (\<lambda>_ t. t = s)"
    if "S_ISDIR (st_mode st)" "p \<notin> set s" "c \<notin> set (p # s)" for p c s st e e' path
    by (rule fdt_seq [where H = "\<lambda>_ t. t = s"], rule fdt_always [where s' = "c # p # s"])
      (use that inner steady_quiet [OF os] 4 in \<open>auto intro: fdt_close_both\<close>)
  show ?case
    unfolding walk_names.simps
    by (intro fdt_seq_check fdt_seq_keeps [OF keeps_ret(3)] fdt_seq_keeps [OF keeps_calls(2)] refl
        fdt_if fdt_open_child os) (erule (2) step, erule 4)
qed (auto intro: fd_rules)

lemma balanced_closed_inventory: "steady os \<Longrightarrow> balanced os s (closed_inventory root)"
  unfolding closed_inventory_def by (intro fdt_seq_balanced balanced_walk fd_rules) auto

lemma balanced_find_manifest:
  assumes os: "steady os"
  shows "balanced os s (find_manifest d replicas eraw explicit)"
proof -
  have search: "balanced os s (search_replicas h rs)" for h rs
  proof (induction rs)
    case (Cons r rs)
    then show ?case
      unfolding search_replicas.simps
      by (intro fdt_seq_balanced balanced_attempt balanced_dir_read fdt_sum fdt_if fdt_ret os refl)
  qed (simp add: fdt_raise)
  show ?thesis
    unfolding find_manifest_def
    by (intro fdt_seq_keeps [OF keeps_ret(3)] fdt_option fdt_if fdt_ret search refl)
qed

section \<open>Exceptions on a steady system\<close>

lemma raises_lift: "raises P r \<Longrightarrow> (\<And>e. P e \<Longrightarrow> R e) \<Longrightarrow> ends os R (\<lambda>_. True) (lift r)"
  by (auto intro: ends_lift simp: raises_def)

lemma ends_read_xattrs [ends_rules]: "ends os os_or_invalid (\<lambda>_. True) (read_xattrs fd)"
proof -
  have "ends os os_or_invalid (\<lambda>_. True) (xattr_values fd tot ns)" for tot ns
    by (induction fd tot ns rule: xattr_values.induct; unfold xattr_values.simps; intro ends_rules) simp_all
  then show ?thesis
    unfolding read_xattrs_def Let_def
    by (intro ends_rules raises_lift [OF raises_validate_xattrs]) simp_all
qed

lemma ends_directory_attributes [ends_rules]:
  "steady os \<Longrightarrow> ends os os_or_invalid (\<lambda>_. True) (directory_attributes root path)"
  unfolding directory_attributes_def attributes_of_def close_both_def
  by (cases path) (auto intro!: ends_rules)

lemma ends_walk:
  assumes os: "steady os"
  shows "ends os os_or_invalid (\<lambda>_. True) (walk root left fd prefix acc)"
    and "ends os os_or_invalid (\<lambda>_. True) (walk_names root left fd prefix names acc')"
proof (induction root left fd prefix acc and root left fd prefix names acc' rule: walk_walk_names.induct)
  case (2 root left fd prefix acc)
  show ?case unfolding walk.simps by (intro ends_rules 2) simp_all
next
  case (4 root left fd prefix name names files dirs count)
  show ?case
    unfolding walk_names.simps close_both_def
    by (intro ends_rules os 4 raises_lift [OF raises_relative]) simp_all
qed (simp_all add: ends_rules)

lemma ends_closed_inventory [ends_rules]:
  "steady os \<Longrightarrow> ends os os_or_invalid (\<lambda>_. True) (closed_inventory root)"
  unfolding closed_inventory_def by (intro ends_rules ends_walk) simp_all

end
