(* ===== verification/Reconstruct_Spec.thy ===== *)
theory Reconstruct_Spec
  imports Reconstruct Recovery_Spec
begin

text \<open>
  What \<open>reconstruct\<close> and \<open>inspect_original\<close> promise on every operating system: the calls they make,
  the descriptors they leave, the bounds on what they report, and what a verified object means.
\<close>

section \<open>Calls\<close>

text \<open>A call a run may make: without a candidate it only observes.\<close>

definition allowed :: "directory option \<Rightarrow> call \<Rightarrow> bool" where
  "allowed out c \<longleftrightarrow> (if out = None then observes c else creates_private c)"

lemma allowed_observe: "observes c \<Longrightarrow> allowed out c"
  by (simp add: allowed_def observes_private)

lemma allowed_create: "creates_private c \<Longrightarrow> allowed (Some d) c"
  by (simp add: allowed_def)

lemmas only_allowed_observe = only_mono [OF _ allowed_observe]
  and only_allowed_create = only_mono [OF _ allowed_create]

lemmas only_candidate = only_allowed_create [OF only_write_new] only_allowed_create [OF only_create]
    only_allowed_create [OF only_write_all] only_allowed_observe [OF only_dir_read]

lemma only_quarantine [only_rules]: "only (allowed out) (quarantine out b st)"
  unfolding quarantine_def by (cases out) (auto intro!: only_rules only_candidate)

lemma only_try_replica [only_rules]: "only (allowed out) (try_replica out ch sz ri r acc)"
  unfolding try_replica_def judge_copy_def by (intro only_rules only_candidate)

lemma only_try_replicas [only_rules]: "only (allowed out) (try_replicas out ch sz ri rs acc)"
  by (induction out ch sz ri rs acc rule: try_replicas.induct; unfold try_replicas.simps;
      intro only_rules)

lemma only_emit_chunk [only_rules]: "only (allowed out) (emit_chunk fault out fd b)"
  unfolding emit_chunk_def by (cases out) (auto intro!: only_rules only_candidate)

lemma only_chunk_loop [only_rules]: "only (allowed out) (chunk_loop fault out fd rs sz number chs data st)"
  by (induction fault out fd rs sz number chs data st rule: chunk_loop.induct;
      unfold chunk_loop.simps; intro only_rules)

lemma only_rebuild_objects: "only (allowed out) (rebuild_objects fault out rs es st)"
proof (induction fault out rs es st rule: rebuild_objects.induct)
  case (2 fault out rs e es st)
  have "only (allowed out) (rebuild_object fault out rs e st)"
    unfolding rebuild_object_def close_both_def
    by (cases out) (auto intro!: only_rules only_candidate allowed_create)
  with 2 show ?case by (auto intro!: only_rules)
qed (simp add: only_rules)

lemma only_prepare: "only creates_private (prepare fault rs d m mraw eraw expected)"
  unfolding prepare_def by (intro only_rules) simp_all

lemma only_finish: "only creates_private (finish fault d expected r)"
  unfolding finish_def by (intro only_rules)

lemma only_reconstruct:
  "only (allowed out) (reconstruct verify depth mraw eraw trust expected now rs out fault)"
  unfolding reconstruct_def Let_def
  by (cases out) (auto intro!: only_rules only_rebuild_objects only_allowed_create [OF only_prepare]
      only_allowed_create [OF only_finish])

lemma only_inspect_object [only_rules]: "only observes (inspect_object source e)"
  unfolding inspect_object_def consistent_def close_both_def by (intro only_rules) simp_all

lemma only_attributes_exact [only_rules]: "only observes (attributes_exact source m)"
proof -
  have "only observes (all_attributes source ds)" for ds
    by (induction source ds rule: all_attributes.induct) (auto intro!: only_rules)
  then show ?thesis unfolding attributes_exact_def by (intro only_rules)
qed

lemma only_inspect:
  "only observes (inspect_original verify depth mraw eraw trust expected now source)"
  unfolding inspect_original_def Let_def by (intro only_rules)

section \<open>Descriptors\<close>

lemma balanced_pure: "balanced os s (lift r)" "balanced os s (ret x)" "balanced os s (check b e)"
  by (intro fdt_keeps keeps refl)+

named_theorems balanced_rules

lemmas balanced_basic [balanced_rules] = balanced_pure fdt_seq_balanced fdt_sum fdt_option fdt_if
    fdt_prod balanced_attempt balanced_dir_read balanced_write_new balanced_closed_inventory
    balanced_directory_attributes

lemma balanced_catch [balanced_rules]:
  "balanced os s m \<Longrightarrow> (\<And>e. balanced os s (h e)) \<Longrightarrow> balanced os s (catch P m h)"
  by (rule fdt_catch)

lemma balanced_keeps [balanced_rules]:
  "balanced os s (sys_names c)" "balanced os s (sys_statvfs fd)" "balanced os s (write_all fd b)"
  by (intro fdt_keeps keeps refl)+

lemma balanced_quarantine [balanced_rules]: "steady os \<Longrightarrow> balanced os s (quarantine out b st)"
  unfolding quarantine_def by (intro balanced_rules)

lemma balanced_try_replica [balanced_rules]: "steady os \<Longrightarrow> balanced os s (try_replica out ch sz ri r acc)"
  unfolding try_replica_def judge_copy_def by (intro balanced_rules)

lemma balanced_try_replicas [balanced_rules]:
  "steady os \<Longrightarrow> balanced os s (try_replicas out ch sz ri rs acc)"
  by (induction out ch sz ri rs acc rule: try_replicas.induct; unfold try_replicas.simps;
      intro balanced_rules)

lemma balanced_emit_chunk [balanced_rules]: "balanced os s (emit_chunk fault out fd b)"
  unfolding emit_chunk_def by (intro balanced_rules)

lemma balanced_chunk_loop [balanced_rules]:
  "steady os \<Longrightarrow> balanced os s (chunk_loop fault out fd rs sz number chs data st)"
  by (induction fault out fd rs sz number chs data st rule: chunk_loop.induct;
      unfold chunk_loop.simps; intro balanced_rules)

lemma balanced_rebuild_object:
  assumes os: "steady os"
  shows "balanced os s (rebuild_object fault out rs e st)"
proof (cases out)
  case None
  show ?thesis
    unfolding rebuild_object_def None option.case by (intro balanced_rules os)
next
  case (Some d)
  show ?thesis
    unfolding rebuild_object_def Some option.case
  proof (rule fdt_seq [OF fdt_create [OF os]], clarify, goal_cases)
    case (1 fd up)
    with os show ?case
      by (intro fdt_always [where s' = "fd # up # s"] fdt_seq_balanced balanced_chunk_loop
          fdt_seq_keeps keeps fdt_ret fdt_close_both steady_quiet) auto
  qed
qed

lemma balanced_rebuild_objects [balanced_rules]:
  "steady os \<Longrightarrow> balanced os s (rebuild_objects fault out rs es st)"
  by (induction fault out rs es st rule: rebuild_objects.induct; unfold rebuild_objects.simps;
      intro balanced_rules balanced_rebuild_object)

lemma balanced_prepare [balanced_rules]:
  "steady os \<Longrightarrow> balanced os s (prepare fault rs d m mraw eraw expected)"
  unfolding prepare_def by (intro balanced_rules)

lemma balanced_finish [balanced_rules]: "steady os \<Longrightarrow> balanced os s (finish fault d expected r)"
  unfolding finish_def by (intro balanced_rules)

lemma balanced_reconstruct:
  "steady os \<Longrightarrow> balanced os s (reconstruct verify depth mraw eraw trust expected now rs out fault)"
  unfolding reconstruct_def Let_def by (intro balanced_rules)

lemma keeps_consistent [keeps]: "keeps_fds (consistent e data s fd p n)"
  unfolding consistent_def by (intro keeps)

lemma balanced_inspect_object:
  assumes os: "steady os"
  shows "balanced os s (inspect_object source e)"
proof -
  have post: "fdt os t s (case res of Inl _ \<Rightarrow> ret Missing
      | Inr (fd, p, n, st) \<Rightarrow> always (seq (attempt os_or_invalid
          (seq (read_loop fd (e_size e) []) (\<lambda>data. consistent e data st fd p n))) (\<lambda>c.
            ret (case c of Inl _ \<Rightarrow> Missing | Inr True \<Rightarrow> Matched | Inr False \<Rightarrow> Mismatch)))
           (close_both fd p)) (\<lambda>_ u. u = s)"
    if "case res of Inl _ \<Rightarrow> t = s | Inr (fd, p, n, st) \<Rightarrow> t = fd # p # s \<and> p \<notin> set s \<and> fd \<notin> set (p # s)" for t res
  proof (cases res)
    case (Inr x)
    obtain fd p n st where x: "x = (fd, p, n, st)" by (cases x)
    with that Inr have "t = fd # p # s" "p \<notin> set s" "fd \<notin> set (p # s)" by auto
    then show ?thesis
      unfolding Inr x sum.case prod.case
      by (intro fdt_always [where s' = "fd # p # s"] fdt_seq_keeps keeps fdt_ret fdt_close_both
          steady_quiet os) auto
  qed (use that in \<open>auto intro: fdt_ret\<close>)
  show ?thesis
    unfolding inspect_object_def attempt_def [of _ "open_file _ _ _"]
    by (rule fdt_seq [OF _ post], intro fdt_catch fdt_seq [OF fdt_open_file [OF os]] fdt_ret)
      (auto intro: fdt_ret)
qed

lemma balanced_attributes_exact [balanced_rules]:
  assumes os: "steady os"
  shows "balanced os s (attributes_exact source m)"
proof -
  have "balanced os s (all_attributes source ds)" for ds
    by (induction source ds rule: all_attributes.induct; unfold all_attributes.simps;
        intro balanced_rules os)
  then show ?thesis unfolding attributes_exact_def by (intro balanced_rules os)
qed

lemma balanced_inspect:
  "steady os \<Longrightarrow> balanced os s (inspect_original verify depth mraw eraw trust expected now source)"
  unfolding inspect_original_def Let_def
  by (intro balanced_rules balanced_each balanced_inspect_object)

section \<open>Exceptions on a steady system\<close>

lemma ends_attributes_exact [ends_rules]:
  assumes os: "steady os"
  shows "ends os os_or_invalid (\<lambda>_. True) (attributes_exact source m)"
proof -
  have "ends os os_or_invalid (\<lambda>_. True) (all_attributes source ds)" for ds
    by (induction source ds rule: all_attributes.induct; unfold all_attributes.simps;
        intro ends_rules os) simp_all
  then show ?thesis unfolding attributes_exact_def by (intro ends_rules os) simp_all
qed

text \<open>What is caught is all there is: no inspection of one object raises.\<close>

lemma ends_caught:
  "ends os os_or_invalid (\<lambda>_. True) m \<Longrightarrow> ends os (\<lambda>_. False) (\<lambda>_. True) (attempt os_or_invalid m)"
  by (rule ends_mono [OF ends_attempt]) (auto intro: ends_mono)

lemma ends_close_quiet: "quiet os \<Longrightarrow> ends os (\<lambda>_. False) (\<lambda>_. True) (sys_close fd)"
  by (auto simp: ends_def sys_close_def quiet_def answer_of_def logged_def Let_def split: answer.splits)

lemma ends_inspect_object:
  assumes os: "steady os"
  shows "ends os (\<lambda>_. False) (\<lambda>_. True) (inspect_object source e)"
proof -
  have consistent: "ends os os_or_invalid (\<lambda>_. True) (consistent e data s fd p n)" for data s fd p n
    unfolding consistent_def by (intro ends_rules) simp_all
  have close: "ends os (\<lambda>_. False) (\<lambda>_. True) (close_both fd p)" for fd p
    unfolding close_both_def by (intro ends_seq_any ends_close_quiet steady_quiet os)
  show ?thesis
    unfolding inspect_object_def
    by (intro ends_seq_any ends_sum ends_prod ends_always ends_ret ends_caught ends_open_file
        ends_read_loop consistent close os) simp_all
qed

lemma ends_inspect:
  assumes os: "steady os"
  shows "ends os is_value_error (\<lambda>_. True)
    (inspect_original verify depth mraw eraw trust expected now source)"
proof -
  have caught: "ends os is_value_error (\<lambda>_. True) m" if "ends os (\<lambda>_. False) (\<lambda>_. True) m" for m :: "'a io"
    using that by (rule ends_mono) auto
  have each: "ends os is_value_error (\<lambda>_. True)
      (each (\<lambda>e. seq (inspect_object source e) (\<lambda>v. ret (e_path e, v))) es)" for es
    by (induction es) (auto intro!: ends_rules caught [OF ends_inspect_object [OF os]])
  show ?thesis
    unfolding inspect_original_def Let_def
    by (intro ends_seq_any ends_prod ends_ret each raises_lift [OF raises_authenticate]
        caught [OF ends_caught] ends_closed_inventory ends_attributes_exact os) simp_all
qed

end
