(* ===== verification/Reconstruct_Values.thy ===== *)
theory Reconstruct_Values
  imports Reconstruct_Spec
begin

text \<open>
  What the results of \<open>reconstruct\<close> mean: the bounds on the report, the bytes that a verified object
  stands for, the bytes that reached its payload file, and the ready marker.
\<close>

section \<open>Bounds on the report\<close>

definition progress_ok :: "progress \<Rightarrow> bool" where
  "progress_ok st \<longleftrightarrow> length (p_bad st) = min 256 (p_bad_count st) \<and> p_evidence st \<le> 2 * LIMIT"

lemma progress_ok_note_bad [simp]: "progress_ok st \<Longrightarrow> progress_ok (note_bad ri ch err st)"
  by (auto simp: progress_ok_def note_bad_def min_def split: if_splits)

lemma quarantine_ok: "quarantine out b st w = (Inr st', v) \<Longrightarrow> progress_ok st \<Longrightarrow> progress_ok st'"
  by (auto simp: quarantine_def runs progress_ok_def split: option.splits)

lemma judge_copy_ok:
  "judge_copy out ch sz ri st sel res w = (Inr (st', sel'), v) \<Longrightarrow> progress_ok st \<Longrightarrow> progress_ok st'"
  by (auto simp: judge_copy_def runs split: sum.splits if_splits dest: quarantine_ok)

lemma try_replicas_ok:
  "try_replicas out ch sz ri rs acc w = (Inr acc', v) \<Longrightarrow> progress_ok (fst acc) \<Longrightarrow> progress_ok (fst acc')"
proof (induction out ch sz ri rs acc arbitrary: w rule: try_replicas.induct)
  case (2 out ch sz ri r rs acc)
  then obtain acc1 u where step: "try_replica out ch sz ri r acc w = (Inr acc1, u)"
    and rest: "try_replicas out ch sz (ri + 1) rs acc1 u = (Inr acc', v)"
    by (auto simp: runs)
  have "progress_ok (fst acc1)"
    using step 2(3) by (cases acc1) (auto simp: try_replica_def runs dest: judge_copy_ok)
  with "2.IH" rest show ?case by blast
qed (simp add: runs)

lemma chunk_loop_ok:
  "chunk_loop fault out fd rs sz n chs data st w = (Inr (g, data', st'), v) \<Longrightarrow> progress_ok st \<Longrightarrow> progress_ok st'"
proof (induction fault out fd rs sz n chs data st arbitrary: w rule: chunk_loop.induct)
  case (2 fault out fd rs sz n ch chs data st)
  then obtain st1 sel u where step: "try_replicas out ch (min CHUNK (sz - n * CHUNK)) 0 rs (st, None) w = (Inr (st1, sel), u)"
    by (auto simp: runs split: prod.splits)
  with 2(3) have ok: "progress_ok st1" by (auto dest: try_replicas_ok)
  show ?case
    using 2(2) step ok by (cases sel) (auto simp: runs dest: "2.IH")
qed (simp add: runs)

lemma rebuild_object_ok:
  "rebuild_object fault out rs e st w = (Inr (g, st'), v) \<Longrightarrow> progress_ok st \<Longrightarrow> progress_ok st'"
  by (auto simp: rebuild_object_def runs split: option.splits prod.splits dest: chunk_loop_ok)

lemma rebuild_objects_ok:
  "rebuild_objects fault out rs es st w = (Inr (objs, st'), v) \<Longrightarrow> progress_ok st \<Longrightarrow>
   progress_ok st' \<and> map fst objs = map e_path es"
proof (induction fault out rs es st arbitrary: w objs rule: rebuild_objects.induct)
  case (2 fault out rs e es st)
  then show ?case
    by (fastforce simp: runs split: prod.splits dest: rebuild_object_ok)
qed (simp add: runs)

lemma reconstruct_InrD:
  assumes "reconstruct verify depth mraw eraw trust expected now rs out fault w = (Inr r, v)"
  obtains m a w1 objs st w2 where "authenticate verify depth mraw eraw trust expected now = Inr (m, a)"
    "1 \<le> length rs" "length rs \<le> 16"
    "rebuild_objects fault out rs (m_objects m) \<lparr>p_bad_count = 0, p_bad = [], p_evidence = 0\<rparr> w1 = (Inr (objs, st), w2)"
    "r = make_report m expected objs st"
  using assms
  by (auto simp: reconstruct_def runs Let_def split: prod.splits)

lemma reconstruct_report:
  assumes "reconstruct verify depth mraw eraw trust expected now rs out fault w = (Inr r, v)"
  shows "\<exists>m a. authenticate verify depth mraw eraw trust expected now = Inr (m, a) \<and>
    map fst (r_objects r) = map e_path (m_objects m) \<and> r_complete r = (\<forall>(p, good)\<in>set (r_objects r). good) \<and>
    length (r_bad r) = min 256 (r_bad_count r)"
  using assms
proof (rule reconstruct_InrD)
  fix m a w1 objs st w2
  assume *: "authenticate verify depth mraw eraw trust expected now = Inr (m, a)"
    "rebuild_objects fault out rs (m_objects m) \<lparr>p_bad_count = 0, p_bad = [], p_evidence = 0\<rparr> w1 = (Inr (objs, st), w2)"
    "r = make_report m expected objs st"
  have "progress_ok \<lparr>p_bad_count = 0, p_bad = [], p_evidence = 0\<rparr>" by (simp add: progress_ok_def)
  with rebuild_objects_ok [OF *(2)] * show ?thesis
    by (auto simp: make_report_def progress_ok_def)
qed

section \<open>What a verified object stands for\<close>

text \<open>A selected copy has the hash and the length that were asked for.\<close>

lemma judge_copy_selected:
  "judge_copy out ch sz ri st sel res w = (Inr (st', Some b), v) \<Longrightarrow>
   sel = Some b \<or> (res = Inr b \<and> int (length b) = sz \<and> sha b = ch)"
  by (cases res) (auto simp: judge_copy_def runs split: if_splits)

lemma try_replicas_selected:
  "try_replicas out ch sz ri rs acc w = (Inr (st, Some b), v) \<Longrightarrow>
   snd acc = Some b \<or> (int (length b) = sz \<and> sha b = ch)"
proof (induction out ch sz ri rs acc arbitrary: w rule: try_replicas.induct)
  case (2 out ch sz ri r rs acc)
  then obtain acc1 u where step: "try_replica out ch sz ri r acc w = (Inr acc1, u)"
    and rest: "try_replicas out ch sz (ri + 1) rs acc1 u = (Inr (st, Some b), v)"
    by (auto simp: runs)
  have "snd acc1 = Some b \<Longrightarrow> snd acc = Some b \<or> (int (length b) = sz \<and> sha b = ch)"
    using step by (cases acc1) (auto simp: try_replica_def seq_Inr_iff dest: judge_copy_selected)
  with "2.IH" [OF rest] show ?case by blast
qed (auto simp: runs)

text \<open>Pieces cut as \<open>reconstruct\<close> expects them, one for each chunk name.\<close>

fun cut_at :: "int \<Rightarrow> int \<Rightarrow> bytes list \<Rightarrow> bool" where
  "cut_at sz n [] \<longleftrightarrow> True"
| "cut_at sz n (p # ps) \<longleftrightarrow> int (length p) = min CHUNK (sz - n * CHUNK) \<and> cut_at sz (n + 1) ps"

lemma chunk_loop_pieces:
  "chunk_loop fault out fd rs sz n chs data st w = (Inr (good, data', st'), v) \<Longrightarrow>
   \<exists>ps. data' = data @ concat ps \<and> map sha ps = take (length ps) chs \<and> cut_at sz n ps \<and>
     (good \<longrightarrow> map sha ps = chs)"
proof (induction fault out fd rs sz n chs data st arbitrary: w rule: chunk_loop.induct)
  case (2 fault out fd rs sz n ch chs data st)
  then obtain st1 sel u where step: "try_replicas out ch (min CHUNK (sz - n * CHUNK)) 0 rs (st, None) w = (Inr (st1, sel), u)"
    by (auto simp: runs split: prod.splits)
  show ?case
  proof (cases sel)
    case None
    with 2(2) step show ?thesis by (intro exI [of _ "[]"]) (auto simp: runs)
  next
    case (Some b)
    with 2(2) step obtain u' where
      "chunk_loop fault out fd rs sz (n + 1) chs (data @ b) st1 u' = (Inr (good, data', st'), v)"
      by (auto simp: runs)
    from "2.IH" [OF this] obtain ps where
      "data' = (data @ b) @ concat ps" "map sha ps = take (length ps) chs" "cut_at sz (n + 1) ps"
      "good \<longrightarrow> map sha ps = chs" by blast
    moreover have "int (length b) = min CHUNK (sz - n * CHUNK)" "sha b = ch"
      using try_replicas_selected [OF step [unfolded Some]] by simp_all
    ultimately show ?thesis by (intro exI [of _ "b # ps"]) auto
  qed
qed (auto simp: runs intro!: exI [of _ "[]"])

section \<open>What reaches the payload file\<close>

text \<open>
  \<open>spares fd m G\<close>: run while \<open>fd\<close> is open, \<open>m\<close> writes nothing to it, leaves it open, and returns a
  value that satisfies \<open>G\<close>.
\<close>

definition spares :: "nat \<Rightarrow> 'a io \<Rightarrow> ('a \<Rightarrow> bool) \<Rightarrow> bool" where
  "spares fd m G \<longleftrightarrow> (\<forall>w r v. fd \<in> set (w_fds w) \<longrightarrow> m w = (r, v) \<longrightarrow>
     (\<exists>l. w_log v = w_log w @ l \<and> written fd l = []) \<and> fd \<in> set (w_fds v) \<and> (\<forall>x. r = Inr x \<longrightarrow> G x))"

named_theorems spares_rules

lemma sparesI:
  "(\<And>w r v. fd \<in> set (w_fds w) \<Longrightarrow> m w = (r, v) \<Longrightarrow>
     (\<exists>l. w_log v = w_log w @ l \<and> written fd l = []) \<and> fd \<in> set (w_fds v) \<and> (\<forall>x. r = Inr x \<longrightarrow> G x)) \<Longrightarrow>
   spares fd m G"
  unfolding spares_def by blast

lemma sparesE:
  assumes "spares fd m G" "fd \<in> set (w_fds w)" "m w = (r, v)"
  obtains l where "w_log v = w_log w @ l" "written fd l = []" "fd \<in> set (w_fds v)" "\<And>x. r = Inr x \<Longrightarrow> G x"
proof -
  have "(\<exists>l. w_log v = w_log w @ l \<and> written fd l = []) \<and> fd \<in> set (w_fds v) \<and> (\<forall>x. r = Inr x \<longrightarrow> G x)"
    by (rule assms(1) [unfolded spares_def, rule_format, OF assms(2,3)])
  with that show thesis by blast
qed

lemma written_append [simp]: "written fd (l @ l') = written fd l @ written fd l'"
  by (simp add: written_def)

lemma written_Nil [simp]: "written fd [] = []"
  by (simp add: written_def)

lemma spares_pure [spares_rules]:
  "G x \<Longrightarrow> spares fd (ret x) G" "spares fd (raise e) G" "spares fd (lift q) (\<lambda>_. True)"
  "spares fd (check b e) (\<lambda>_. True)"
  by (auto simp: spares_def ret_def raise_def lift_def check_def)

lemma spares_mono: "spares fd m H \<Longrightarrow> (\<And>x. H x \<Longrightarrow> G x) \<Longrightarrow> spares fd m G"
  unfolding spares_def by blast

lemma spares_seq:
  assumes m: "spares fd m H" and f: "\<And>x. H x \<Longrightarrow> spares fd (f x) G"
  shows "spares fd (seq m f) G"
proof (rule sparesI)
  fix w r v assume w: "fd \<in> set (w_fds w)" and run: "seq m f w = (r, v)"
  obtain r1 v1 where mw: "m w = (r1, v1)" by (cases "m w")
  from m w mw obtain l where l: "w_log v1 = w_log w @ l" "written fd l = []" "fd \<in> set (w_fds v1)"
    "\<And>x. r1 = Inr x \<Longrightarrow> H x" by (rule sparesE) blast
  show "(\<exists>l. w_log v = w_log w @ l \<and> written fd l = []) \<and> fd \<in> set (w_fds v) \<and> (\<forall>x. r = Inr x \<longrightarrow> G x)"
  proof (cases r1)
    case (Inl e)
    with run mw l show ?thesis by (auto simp: seq_def)
  next
    case (Inr x)
    with run mw have fx: "f x v1 = (r, v)" by (simp add: seq_def)
    obtain l' where "w_log v = w_log v1 @ l'" "written fd l' = []" "fd \<in> set (w_fds v)" "\<And>x. r = Inr x \<Longrightarrow> G x"
      by (rule sparesE [OF f [OF l(4) [OF Inr]] l(3) fx]) blast
    with l show ?thesis by (auto intro!: exI [of _ "l @ l'"])
  qed
qed

lemma spares_seq_any [spares_rules]:
  "spares fd m (\<lambda>_. True) \<Longrightarrow> (\<And>x. spares fd (f x) G) \<Longrightarrow> spares fd (seq m f) G"
  by (rule spares_seq)

text \<open>Any program run after another, with what the first one has shown.\<close>

lemma spares_then:
  assumes m: "spares fd m H" and k: "\<And>r. (\<And>x. r = Inr x \<Longrightarrow> H x) \<Longrightarrow> spares fd (k r) G"
  shows "spares fd (\<lambda>w. case m w of (r, v) \<Rightarrow> k r v) G"
proof (rule sparesI)
  fix w r v assume w: "fd \<in> set (w_fds w)" and run: "(case m w of (r, v) \<Rightarrow> k r v) = (r, v)"
  obtain r1 v1 where mw: "m w = (r1, v1)" by (cases "m w")
  from m w mw obtain l where l: "w_log v1 = w_log w @ l" "written fd l = []" "fd \<in> set (w_fds v1)"
    "\<And>x. r1 = Inr x \<Longrightarrow> H x" by (rule sparesE) blast
  from run mw have kv: "k r1 v1 = (r, v)" by simp
  obtain l' where "w_log v = w_log v1 @ l'" "written fd l' = []" "fd \<in> set (w_fds v)" "\<And>x. r = Inr x \<Longrightarrow> G x"
    by (rule sparesE [OF k [OF l(4)] l(3) kv]) blast+
  with l show "(\<exists>l. w_log v = w_log w @ l \<and> written fd l = []) \<and> fd \<in> set (w_fds v) \<and> (\<forall>x. r = Inr x \<longrightarrow> G x)"
    by (auto intro!: exI [of _ "l @ l'"])
qed

lemma spares_catch [spares_rules]:
  assumes "spares fd m G" "\<And>e. spares fd (h e) G"
  shows "spares fd (catch P m h) G"
proof -
  have "spares fd (\<lambda>w. case m w of (r, v) \<Rightarrow>
      (case r of Inl e \<Rightarrow> if P e then h e else raise e | Inr x \<Rightarrow> ret x) v) G"
    by (rule spares_then [OF assms(1)]) (auto split: sum.splits intro: assms(2) spares_pure)
  moreover have "catch P m h = (\<lambda>w. case m w of (r, v) \<Rightarrow>
      (case r of Inl e \<Rightarrow> if P e then h e else raise e | Inr x \<Rightarrow> ret x) v)"
    by (auto simp: fun_eq_iff catch_def raise_def ret_def split: prod.splits sum.splits)
  ultimately show ?thesis by simp
qed

lemma spares_always [spares_rules]:
  assumes "spares fd m G" "spares fd c (\<lambda>_. True)"
  shows "spares fd (always m c) G"
proof -
  have lift: "spares fd (lift r) G" if "\<And>x. r = Inr x \<Longrightarrow> G x" for r
    using that by (auto simp: spares_def lift_def)
  have "spares fd (\<lambda>w. case m w of (r, v) \<Rightarrow> seq c (\<lambda>_. lift r) v) G"
    by (rule spares_then [OF assms(1)]) (intro spares_seq [OF assms(2)] lift)
  moreover have "always m c = (\<lambda>w. case m w of (r, v) \<Rightarrow> seq c (\<lambda>_. lift r) v)"
    by (auto simp: fun_eq_iff always_def seq_def lift_def split: prod.splits sum.splits)
  ultimately show ?thesis by simp
qed

lemma spares_on_error [spares_rules]:
  assumes "spares fd m G" "spares fd c (\<lambda>_. True)"
  shows "spares fd (on_error m c) G"
proof -
  have "spares fd (\<lambda>w. case m w of (r, v) \<Rightarrow>
      (case r of Inl e \<Rightarrow> seq c (\<lambda>_. raise e) | Inr x \<Rightarrow> ret x) v) G"
    by (rule spares_then [OF assms(1)]) (auto split: sum.splits intro!: spares_seq [OF assms(2)] spares_pure)
  moreover have "on_error m c = (\<lambda>w. case m w of (r, v) \<Rightarrow>
      (case r of Inl e \<Rightarrow> seq c (\<lambda>_. raise e) | Inr x \<Rightarrow> ret x) v)"
    by (auto simp: fun_eq_iff on_error_def seq_def raise_def ret_def split: prod.splits sum.splits)
  ultimately show ?thesis by simp
qed

lemma spares_attempt [spares_rules]: "spares fd m (\<lambda>_. True) \<Longrightarrow> spares fd (attempt P m) (\<lambda>_. True)"
  unfolding attempt_def by (intro spares_rules) simp_all

lemma spares_if [spares_rules]:
  "(b \<Longrightarrow> spares fd m G) \<Longrightarrow> (\<not> b \<Longrightarrow> spares fd n G) \<Longrightarrow> spares fd (if b then m else n) G"
  by simp

lemma spares_prod [spares_rules]:
  "(\<And>x y. p = (x, y) \<Longrightarrow> spares fd (f x y) G) \<Longrightarrow> spares fd (case p of (x, y) \<Rightarrow> f x y) G"
  by (cases p) simp

lemma spares_sum [spares_rules]:
  "(\<And>a. r = Inl a \<Longrightarrow> spares fd (f a) G) \<Longrightarrow> (\<And>b. r = Inr b \<Longrightarrow> spares fd (g b) G) \<Longrightarrow>
   spares fd (case r of Inl a \<Rightarrow> f a | Inr b \<Rightarrow> g b) G"
  by (cases r) simp_all

lemma spares_option [spares_rules]:
  "(r = None \<Longrightarrow> spares fd m G) \<Longrightarrow> (\<And>b. r = Some b \<Longrightarrow> spares fd (g b) G) \<Longrightarrow>
   spares fd (case r of None \<Rightarrow> m | Some b \<Rightarrow> g b) G"
  by (cases r) simp_all

text \<open>Calls: a new descriptor is not \<open>fd\<close>, and only a write to \<open>fd\<close> counts.\<close>

lemma written_other: "\<forall>b. c \<noteq> Write fd b \<Longrightarrow> written fd [(c, a)] = []"
  by (cases "(fd, (c, a))" rule: accepted.cases) (auto simp: written_def)

lemma spares_call [spares_rules]:
  "\<forall>b. c \<noteq> Write fd b \<Longrightarrow> spares fd (sys_unit c) (\<lambda>_. True)"
  "\<forall>b. c \<noteq> Write fd b \<Longrightarrow> spares fd (sys_stat c) (\<lambda>_. True)"
  "\<forall>b. c \<noteq> Write fd b \<Longrightarrow> spares fd (sys_int c) (\<lambda>_. True)"
  "\<forall>b. c \<noteq> Write fd b \<Longrightarrow> spares fd (sys_names c) (\<lambda>_. True)"
  "\<forall>b. c \<noteq> Write fd b \<Longrightarrow> spares fd (sys_bytes c) (\<lambda>_. True)"
  by (auto simp: spares_def sys_unit_def sys_stat_def sys_int_def sys_names_def sys_bytes_def logged_def
      written_other split: answer.splits)

lemma spares_fd: "\<forall>b. c \<noteq> Write fd b \<Longrightarrow> spares fd (sys_fd c) (\<lambda>x. x \<noteq> fd)"
  using fresh_fd_notin
  by (auto simp: spares_def sys_fd_def logged_def written_other Let_def split: answer.splits)

lemma spares_open:
  "spares fd (sys_open dir n fl) (\<lambda>x. x \<noteq> fd)" "spares fd (sys_dup f) (\<lambda>x. x \<noteq> fd)"
  unfolding sys_open_def sys_dup_def by (intro spares_fd; simp)+

lemma spares_close: "x \<noteq> fd \<Longrightarrow> spares fd (sys_close x) (\<lambda>_. True)"
  by (auto simp: spares_def sys_close_def logged_def written_other Let_def in_set_remove1 split: answer.splits)

lemma spares_close_both: "x \<noteq> fd \<Longrightarrow> p \<noteq> fd \<Longrightarrow> spares fd (close_both x p) (\<lambda>_. True)"
  unfolding close_both_def by (intro spares_seq_any spares_close)

lemma spares_read_loop: "spares fd (read_loop f limit out) (\<lambda>_. True)"
proof (induction f limit out rule: read_loop.induct)
  case (1 f limit out)
  then show ?case
    by (subst read_loop.simps) (auto simp: sys_read_def intro!: spares_rules)
qed

lemma spares_write_all: "f \<noteq> fd \<Longrightarrow> spares fd (write_all f b) (\<lambda>_. True)"
proof (induction f b rule: write_all.induct)
  case (1 f b)
  then show ?case
    by (subst write_all.simps) (auto simp: sys_write_def intro!: spares_rules)
qed

lemma spares_mountid: "spares fd (mountid f) (\<lambda>_. True)"
  unfolding mountid_def by (intro spares_rules) simp

lemma spares_same_mount: "spares fd (same_mount d n) (\<lambda>_. True)"
  unfolding same_mount_def by (intro spares_rules spares_mountid) simp_all

lemma spares_parent_loop: "f \<noteq> fd \<Longrightarrow> spares fd (parent_loop d c f ps) (\<lambda>n. n \<noteq> fd)"
proof (induction d c f ps rule: parent_loop.induct)
  case (2 d c f part parts)
  have made: "spares fd (make_directory c f part) (\<lambda>_. True)"
    unfolding make_directory_def by (intro spares_rules) simp_all
  show ?case
    unfolding parent_loop.simps
    by (rule spares_seq [where H = "\<lambda>n. n \<noteq> fd"], rule spares_on_error, rule spares_seq_any [OF made],
        rule spares_seq [OF spares_open(1)])
      (use 2 in \<open>auto intro!: spares_seq_any spares_same_mount spares_close spares_pure spares_if\<close>)
qed (simp add: spares_pure)

lemma spares_parent: "spares fd (parent d path c) (\<lambda>(n, _). n \<noteq> fd)"
  unfolding parent_def Let_def
  by (intro spares_seq_any [OF spares_pure(3)] spares_seq [OF spares_open(2)]
      spares_seq [OF spares_parent_loop] spares_pure) auto

lemma spares_open_file: "spares fd (open_file d path limit) (\<lambda>(f, p, n, s). f \<noteq> fd \<and> p \<noteq> fd)"
  unfolding open_file_def
proof (rule spares_seq [OF spares_parent], clarify, goal_cases)
  case (1 p n)
  show ?case
    by (rule spares_seq [where H = "\<lambda>(s, f). f \<noteq> fd"], rule spares_on_error)
      (use 1 in \<open>auto intro!: spares_seq_any spares_call spares_pure spares_seq [OF spares_open(1)]
          spares_close spares_on_error spares_mountid\<close>)
qed

lemma spares_dir_read: "spares fd (dir_read d path limit) (\<lambda>_. True)"
  unfolding dir_read_def check_unchanged_def
  by (rule spares_seq [OF spares_open_file])
    (auto intro!: spares_always spares_seq_any spares_read_loop spares_call spares_pure spares_close_both)

lemma spares_create: "spares fd (create d path) (\<lambda>(f, p). f \<noteq> fd \<and> p \<noteq> fd)"
  unfolding create_def
  by (rule spares_seq [OF spares_parent])
    (auto intro!: spares_on_error spares_seq [OF spares_fd] spares_pure spares_close)

lemma spares_write_new: "spares fd (write_new d path b) (\<lambda>_. True)"
  unfolding write_new_def
  by (rule spares_seq [OF spares_create])
    (auto intro!: spares_always spares_seq_any spares_write_all spares_call spares_close_both)

lemma spares_try_replicas: "spares fd (try_replicas out ch sz ri rs acc) (\<lambda>_. True)"
proof (induction out ch sz ri rs acc rule: try_replicas.induct)
  case (2 out ch sz ri r rs acc)
  have "spares fd (quarantine out b st) (\<lambda>_. True)" for b st
    unfolding quarantine_def by (intro spares_rules spares_write_new spares_dir_read) simp_all
  then show ?case
    unfolding try_replicas.simps try_replica_def judge_copy_def
    by (intro spares_seq_any spares_attempt spares_dir_read spares_sum spares_if spares_pure 2) simp_all
qed (simp add: spares_pure)

lemma chunk_loop_written:
  "chunk_loop fault (Some d) fd rs sz n chs data st w = (Inr (good, data', st'), v) \<Longrightarrow> fd \<in> set (w_fds w) \<Longrightarrow>
   \<exists>l. w_log v = w_log w @ l \<and> data' = data @ written fd l"
proof (induction fault "Some d" fd rs sz n chs data st arbitrary: w rule: chunk_loop.induct)
  case (2 fault fd rs sz n ch chs data st)
  obtain st1 sel w1 where step: "try_replicas (Some d) ch (min CHUNK (sz - n * CHUNK)) 0 rs (st, None) w = (Inr (st1, sel), w1)"
    and cont: "(case sel of None \<Rightarrow> ret (False, data, st1) | Some b \<Rightarrow> seq (emit_chunk fault (Some d) fd b)
      (\<lambda>_. chunk_loop fault (Some d) fd rs sz (n + 1) chs (data @ b) st1)) w1 = (Inr (good, data', st'), v)"
    using 2(2) by (auto simp: seq_Inr_iff)
  obtain l1 where l1: "w_log w1 = w_log w @ l1" "written fd l1 = []" "fd \<in> set (w_fds w1)"
    by (rule sparesE [OF spares_try_replicas 2(3) step]) blast
  show ?case
  proof (cases sel)
    case None
    with cont l1 show ?thesis by (auto simp: runs)
  next
    case (Some b)
    with cont obtain w2 where w2: "write_all fd b w1 = (Inr (), w2)"
      and rest: "chunk_loop fault (Some d) fd rs sz (n + 1) chs (data @ b) st1 w2 = (Inr (good, data', st'), v)"
      by (auto simp: emit_chunk_def runs)
    from write_all_written [OF w2] obtain l2 where l2: "w_log w2 = w_log w1 @ l2" "written fd l2 = b" by blast
    have "w_fds (snd (write_all fd b w1)) = w_fds w1"
      using keeps_write_all by (simp add: keeps_fds_def)
    with w2 l1 have "fd \<in> set (w_fds w2)" by simp
    from "2.hyps" [OF rest this] obtain l3 where "w_log v = w_log w2 @ l3" "data' = (data @ b) @ written fd l3"
      by blast
    with l1 l2 show ?thesis by (intro exI [of _ "l1 @ l2 @ l3"]) auto
  qed
qed (auto simp: runs)

lemma sys_fd_open: "sys_fd c w = (Inr fd, v) \<Longrightarrow> fd \<in> set (w_fds v)"
  by (cases "answer_of c w") (auto simp: sys_fd_def Let_def)

lemma create_open: "create d path w = (Inr (fd, up), v) \<Longrightarrow> fd \<in> set (w_fds v)"
  by (auto simp: create_def runs split: prod.splits dest: sys_fd_open)

text \<open>The payload of an object, from the creation of its file to the end of the loop.\<close>

lemma rebuild_object_payload:
  assumes "rebuild_object fault (Some d) rs e st w = (Inr (good, st'), v)"
  obtains fd up w1 l post ps where "create d (str ''payload/'' @ e_path e) w = (Inr (fd, up), w1)"
    "w_log v = w_log w1 @ l @ post" "written fd l = concat ps" "cut_at (e_size e) 0 ps"
    "good \<Longrightarrow> map sha ps = e_chunks e \<and> int (length (concat ps)) = e_size e \<and> sha (concat ps) = e_sha256 e"
proof -
  from assms obtain fd up w1 res w2 w3 where
    c: "create d (str ''payload/'' @ e_path e) w = (Inr (fd, up), w1)" and
    loop: "chunk_loop fault (Some d) fd rs (e_size e) 0 (e_chunks e) [] st w1 = (Inr res, w2)" and
    rest: "seq (sys_unit (Fsync fd)) (\<lambda>_. seq (sys_unit (Fsync up)) (\<lambda>_. seq (lift (fault ''after-object''))
      (\<lambda>_. ret (object_good e res, snd (snd res))))) w2 = (Inr (good, st'), w3)" and
    close: "close_both fd up w3 = (Inr (), v)"
    by (auto simp: rebuild_object_def seq_Inr_iff always_Inr_iff split: prod.splits)
  obtain g data st1 where res: "res = (g, data, st1)" by (cases res)
  from chunk_loop_written [OF loop [unfolded res] create_open [OF c]] obtain l where
    l: "w_log w2 = w_log w1 @ l" "data = written fd l" by auto
  from chunk_loop_pieces [OF loop [unfolded res]] obtain ps where
    ps: "data = concat ps" "cut_at (e_size e) 0 ps" "g \<longrightarrow> map sha ps = e_chunks e" by auto
  have "only (\<lambda>_. True) (seq (sys_unit (Fsync fd)) (\<lambda>_. seq (sys_unit (Fsync up)) (\<lambda>_. seq (lift (fault ''after-object''))
      (\<lambda>_. ret (object_good e res, snd (snd res))))))" "only (\<lambda>_. True) (close_both fd up)"
    unfolding close_both_def by (intro only_rules TrueI)+
  then obtain l3 l4 where "w_log w3 = w_log w2 @ l3" "w_log v = w_log w3 @ l4"
    using rest close unfolding only_def by (metis snd_conv)
  with l have "w_log v = w_log w1 @ l @ l3 @ l4" by simp
  moreover have "good = object_good e res" using rest by (auto simp: runs)
  ultimately show thesis
    using that [OF c, of l "l3 @ l4" ps] l ps res by (auto simp: object_good_def)
qed

section \<open>The ready marker\<close>

definition no_open :: "pystr \<Rightarrow> call \<Rightarrow> bool" where
  "no_open nm c \<longleftrightarrow> (\<forall>dir fl mode. c \<noteq> Open dir nm fl mode)"

lemma no_open_simps [simp]:
  "no_open nm (Open dir n fl mode) \<longleftrightarrow> n \<noteq> nm" "no_open nm (Close f)" "no_open nm (Dup f)" "no_open nm (Fstat f)"
  "no_open nm (Stat f n)" "no_open nm (Read f i)" "no_open nm (Write f b)" "no_open nm (Mkdir f n i)"
  "no_open nm (Fsync f)" "no_open nm (Listdir f)" "no_open nm (Statvfs f)" "no_open nm (Fdinfo f)"
  by (auto simp: no_open_def)

definition MARKER :: pystr where
  "MARKER = str ''candidate-ready.json''"

lemma no_open_parent_loop: "nm \<notin> set ps \<Longrightarrow> only (no_open nm) (parent_loop d c fd ps)"
  by (induction d c fd ps rule: parent_loop.induct;
      unfold parent_loop.simps make_directory_def same_mount_def mountid_def; intro only_rules) auto

lemma parent_name: "parent d path c w = (Inr (p, n), v) \<Longrightarrow> n = last (split_on 47 path)"
  by (auto simp: parent_def Let_def runs)

lemma no_open_parent:
  assumes "nm \<notin> set (split_on 47 path)"
  shows "only (no_open nm) (parent d path c)"
proof -
  have "nm \<notin> set (butlast (split_on 47 path))"
    using assms by (meson in_set_butlastD)
  then show ?thesis
    unfolding parent_def Let_def
    by (intro only_seq_yields [OF only_pure(3)] only_rules)
      (auto simp: lift_def intro: no_open_parent_loop)
qed

lemma no_open_last: "nm \<notin> set (split_on 47 path) \<Longrightarrow> last (split_on 47 path) \<noteq> nm"
  by (metis last_in_set split_on_not_Nil)

lemma no_open_dir_read:
  assumes "nm \<notin> set (split_on 47 path)"
  shows "only (no_open nm) (dir_read d path limit)"
proof -
  have loop: "only (no_open nm) (read_loop f l out)" for f l out
  proof (induction f l out rule: read_loop.induct)
    case (1 f l out)
    then show ?case by (subst read_loop.simps) (auto simp: sys_read_def intro!: only_rules)
  qed
  have "only (no_open nm) (open_file d path limit)"
    unfolding open_file_def mountid_def
    by (intro only_seq_yields [OF no_open_parent [OF assms]])
      (auto intro!: only_rules dest!: parent_name simp: no_open_last [OF assms])
  then show ?thesis
    unfolding dir_read_def check_unchanged_def close_both_def
    by (intro only_rules loop) simp_all
qed

lemma no_open_write_all: "only (no_open nm) (write_all fd b)"
proof (induction fd b rule: write_all.induct)
  case (1 fd b)
  then show ?case by (subst write_all.simps) (auto simp: sys_write_def intro!: only_rules)
qed

lemma no_open_create:
  assumes "nm \<notin> set (split_on 47 path)"
  shows "only (no_open nm) (create d path)"
  unfolding create_def
  by (intro only_seq_yields [OF no_open_parent [OF assms]])
    (auto intro!: only_rules dest!: parent_name simp: no_open_last [OF assms])

lemma no_open_write_new: "nm \<notin> set (split_on 47 path) \<Longrightarrow> only (no_open nm) (write_new d path b)"
  unfolding write_new_def close_both_def by (intro only_rules no_open_create no_open_write_all) simp_all

lemma split_dir: "47 \<notin> set p \<Longrightarrow> split_on 47 (p @ str ''/'' @ q) = p # split_on 47 q"
  using split_on_append [of 47 p q] by (simp add: str_def)

lemma digest_name: "is_digest h \<Longrightarrow> split_on 47 h = [h] \<and> h \<noteq> MARKER"
proof -
  assume h: "is_digest h"
  then have "47 \<notin> set h" by (auto simp: is_digest_def list_all_iff is_hex_def is_digit_def)
  moreover have "h \<noteq> MARKER" using h by (auto simp: is_digest_def MARKER_def)
  ultimately show ?thesis by (simp add: split_on_single)
qed

lemma marker_free:
  "is_digest h \<Longrightarrow> MARKER \<notin> set (split_on 47 (str ''objects/'' @ h))"
  "is_digest h \<Longrightarrow> MARKER \<notin> set (split_on 47 (str ''evidence/'' @ h))"
  "MARKER \<notin> set (split_on 47 p) \<Longrightarrow> MARKER \<notin> set (split_on 47 (str ''payload/'' @ p))"
  "MARKER \<notin> set (split_on 47 (str ''intent.json''))" "MARKER \<notin> set (split_on 47 (str ''manifest.json''))"
  "MARKER \<notin> set (split_on 47 (str ''anchor.json''))" "MARKER \<notin> set (split_on 47 (str ''report.json''))"
  using split_dir [of "str ''objects''" h] split_dir [of "str ''evidence''" h] split_dir [of "str ''payload''" p]
    digest_name [of h]
  by (auto simp: MARKER_def str_def)

lemma no_open_rebuild_objects:
  assumes "\<forall>e\<in>set es. MARKER \<notin> set (split_on 47 (e_path e)) \<and> list_all is_digest (e_chunks e)"
  shows "only (no_open MARKER) (rebuild_objects fault out rs es st)"
proof -
  have quar: "only (no_open MARKER) (quarantine out b st)" for out b st
    unfolding quarantine_def
    by (intro only_rules no_open_write_new no_open_dir_read marker_free is_digest_sha)
  have tries: "only (no_open MARKER) (try_replicas out ch sz ri rs acc)" if "is_digest ch" for out ch sz ri acc rs
    using that
    by (induction out ch sz ri rs acc rule: try_replicas.induct;
        unfold try_replicas.simps try_replica_def judge_copy_def;
        intro only_rules no_open_dir_read marker_free quar) simp_all
  have loop: "only (no_open MARKER) (chunk_loop fault out fd rs sz n chs data st)"
    if "list_all is_digest chs" for fault out fd rs sz n chs data st
    using that
    by (induction fault out fd rs sz n chs data st rule: chunk_loop.induct;
        unfold chunk_loop.simps emit_chunk_def; intro only_rules tries no_open_write_all) auto
  have object: "only (no_open MARKER) (rebuild_object fault out rs e st)"
    if "MARKER \<notin> set (split_on 47 (e_path e))" "list_all is_digest (e_chunks e)" for fault out rs e st
    unfolding rebuild_object_def close_both_def
    by (intro only_rules loop no_open_create marker_free that) simp_all
  show ?thesis
    using assms
    by (induction fault out rs es st rule: rebuild_objects.induct; unfold rebuild_objects.simps;
        intro only_rules object) auto
qed

lemma no_marker:
  assumes run: "reconstruct verify depth mraw eraw trust expected now rs (Some d) fault w = (Inr r, v)"
    and incomplete: "\<not> r_complete r"
    and names: "\<And>m a. authenticate verify depth mraw eraw trust expected now = Inr (m, a) \<Longrightarrow>
      \<forall>e\<in>set (m_objects m). MARKER \<notin> set (split_on 47 (e_path e))"
  shows "\<exists>l. w_log v = w_log w @ l \<and> (\<forall>ev\<in>set l. no_open MARKER (fst ev))"
proof -
  from run obtain m a w1 objs st w2 where
    auth: "authenticate verify depth mraw eraw trust expected now = Inr (m, a)" and
    prep: "prepare fault rs d m mraw eraw expected w = (Inr (), w1)" and
    objs: "rebuild_objects fault (Some d) rs (m_objects m) \<lparr>p_bad_count = 0, p_bad = [], p_evidence = 0\<rparr> w1 = (Inr (objs, st), w2)" and
    fin: "finish fault d expected r w2 = (Inr (), v)"
    by (auto simp: reconstruct_def seq_Inr_iff pure_Inr_iff Let_def split: prod.splits)
  have "only (no_open MARKER) (prepare fault rs d m mraw eraw expected)"
    unfolding prepare_def by (intro only_rules no_open_write_new marker_free) simp_all
  then obtain l1 where l1: "w_log w1 = w_log w @ l1" "\<forall>ev\<in>set l1. no_open MARKER (fst ev)"
    using onlyE [of "no_open MARKER" "prepare fault rs d m mraw eraw expected" w] prep by auto
  have "manifest_ok m"
    using authenticate_InrD [OF auth] by blast
  then have "\<forall>e\<in>set (m_objects m). list_all is_digest (e_chunks e)"
    by (auto simp: manifest_ok_def entry_ok_def list_all_iff)
  with names [OF auth] have only: "only (no_open MARKER) (rebuild_objects fault (Some d) rs (m_objects m) st0)" for st0
    by (intro no_open_rebuild_objects) blast
  obtain l2 where l2: "w_log w2 = w_log w1 @ l2" "\<forall>ev\<in>set l2. no_open MARKER (fst ev)"
    using onlyE [OF only, of "\<lparr>p_bad_count = 0, p_bad = [], p_evidence = 0\<rparr>" w1] objs by auto
  have "only (no_open MARKER) (finish fault d expected r)"
    using incomplete unfolding finish_def by (auto intro!: only_rules no_open_write_new marker_free)
  then obtain l3 where l3: "w_log v = w_log w2 @ l3" "\<forall>ev\<in>set l3. no_open MARKER (fst ev)"
    using onlyE [of "no_open MARKER" "finish fault d expected r" w2] fin by auto
  from l1 l2 l3 show ?thesis by (intro exI [of _ "l1 @ l2 @ l3"]) auto
qed

end
