(* ===== verification/Reconstruct_Live.thy ===== *)
theory Reconstruct_Live
  imports Reconstruct_Values
begin

text \<open>
  When \<open>reconstruct\<close> succeeds: which copies the replicas must hold, what the file system of the
  candidate must do, and that the run then returns a complete report. A dry run raises nothing; a run
  with a candidate can still stop because the evidence of damaged copies exceeds its budget.
\<close>

section \<open>Enough intact copies\<close>

text \<open>
  What \<open>reconstruct\<close> needs of the replicas for one chunk: one of them returns the piece, and none
  returns other bytes with the same hash (the rest may fail, lie or change between two reads).
\<close>

definition holds :: "(event list \<Rightarrow> call \<Rightarrow> answer) \<Rightarrow> directory \<Rightarrow> pystr \<Rightarrow> bytes \<Rightarrow> bool" where
  "holds os r ch b \<longleftrightarrow> ends os (\<lambda>_. False) (\<lambda>x. x = b) (dir_read r (str ''objects/'' @ ch) CHUNK)"

definition harmless :: "(event list \<Rightarrow> call \<Rightarrow> answer) \<Rightarrow> directory \<Rightarrow> pystr \<Rightarrow> bytes \<Rightarrow> bool" where
  "harmless os r ch b \<longleftrightarrow>
     ends os os_or_invalid (\<lambda>x. sha x = ch \<longrightarrow> x = b) (dir_read r (str ''objects/'' @ ch) CHUNK)"

definition available :: "(event list \<Rightarrow> call \<Rightarrow> answer) \<Rightarrow> directory list \<Rightarrow> bytes \<Rightarrow> bool" where
  "available os rs b \<longleftrightarrow> (\<exists>r\<in>set rs. holds os r (sha b) b) \<and> (\<forall>r\<in>set rs. harmless os r (sha b) b)"

lemma ends_attempted:
  assumes m: "ends os P Q m" and "\<And>e. P e \<Longrightarrow> C e"
  shows "ends os (\<lambda>_. False) (\<lambda>r. case r of Inl e \<Rightarrow> P e | Inr x \<Rightarrow> Q x) (attempt C m)"
proof (rule endsI)
  fix w :: world assume w: "w_os w = os"
  obtain r v where mw: "m w = (r, v)" by (cases "m w")
  with endsD [OF m w] assms(2) show "end_post os (\<lambda>_. False) (\<lambda>r. case r of Inl e \<Rightarrow> P e | Inr x \<Rightarrow> Q x) (attempt C m w)"
    by (cases r) (auto simp: attempt_def catch_def seq_def ret_def)
qed

text \<open>
  What the run does besides reading: keeping evidence and writing payload. \<open>P\<close> bounds what that may
  raise.
\<close>

definition storing :: "(event list \<Rightarrow> call \<Rightarrow> answer) \<Rightarrow> (exn \<Rightarrow> bool) \<Rightarrow> (string \<Rightarrow> unit res) \<Rightarrow> directory option \<Rightarrow> bool" where
  "storing os P fault out \<longleftrightarrow> (\<forall>b st. ends os P (\<lambda>_. True) (quarantine out b st)) \<and>
     (\<forall>fd b. ends os P (\<lambda>_. True) (emit_chunk fault out fd b))"

lemma storing_None: "storing os (\<lambda>_. False) fault None"
  by (simp add: storing_def quarantine_def emit_chunk_def ends_ret)

lemma ends_try_replica:
  assumes out: "storing os P fault out" and sel: "sel \<in> {None, Some b}" and h: "harmless os r (sha b) b"
  shows "ends os P (\<lambda>acc. snd acc \<in> {None, Some b} \<and> (sel = Some b \<longrightarrow> snd acc = Some b) \<and>
      (holds os r (sha b) b \<longrightarrow> snd acc = Some b))
    (try_replica out (sha b) (int (length b)) ri r (st, sel))"
proof -
  define Q where "Q x \<longleftrightarrow> (sha x = sha b \<longrightarrow> x = b) \<and> (holds os r (sha b) b \<longrightarrow> x = b)" for x
  have read: "ends os (\<lambda>e. os_or_invalid e \<and> \<not> holds os r (sha b) b) Q (dir_read r (str ''objects/'' @ sha b) CHUNK)"
    using h unfolding harmless_def holds_def Q_def ends_def end_post_def
    by (auto split: sum.splits)
  have att: "ends os P (\<lambda>r'. case r' of Inl e \<Rightarrow> os_or_invalid e \<and> \<not> holds os r (sha b) b | Inr x \<Rightarrow> Q x)
      (attempt os_or_invalid (dir_read r (str ''objects/'' @ sha b) CHUNK))"
    by (rule ends_mono [OF ends_attempted [OF read]]) simp_all
  show ?thesis
    unfolding try_replica_def
  proof (rule ends_seq [OF att])
    fix res :: "bytes res" assume "case res of Inl e \<Rightarrow> os_or_invalid e \<and> \<not> holds os r (sha b) b | Inr x \<Rightarrow> Q x"
    with sel out show "ends os P (\<lambda>acc. snd acc \<in> {None, Some b} \<and> (sel = Some b \<longrightarrow> snd acc = Some b) \<and>
        (holds os r (sha b) b \<longrightarrow> snd acc = Some b))
      (judge_copy out (sha b) (int (length b)) ri (fst (st, sel)) (snd (st, sel)) res)"
      by (cases res) (auto simp: judge_copy_def storing_def Q_def intro!: ends_ret ends_seq_any)
  qed
qed

lemma ends_try_replicas:
  assumes "storing os P fault out" "\<forall>r\<in>set rs. harmless os r (sha b) b" "snd acc \<in> {None, Some b}"
    "snd acc = Some b \<or> (\<exists>r\<in>set rs. holds os r (sha b) b)"
  shows "ends os P (\<lambda>acc'. snd acc' = Some b) (try_replicas out (sha b) (int (length b)) ri rs acc)"
  using assms
proof (induction rs arbitrary: ri acc)
  case (Cons r rs)
  obtain st sel where acc: "acc = (st, sel)" by (cases acc)
  show ?case
    unfolding try_replicas.simps acc
    by (rule ends_seq [OF ends_try_replica]) (use Cons acc in auto)
qed (simp add: ends_ret)

lemma ends_chunk_loop:
  "storing os P fault out \<Longrightarrow> \<forall>b\<in>set ps. available os rs b \<Longrightarrow> cut_at sz n ps \<Longrightarrow>
   ends os P (\<lambda>res. fst res \<and> fst (snd res) = data @ concat ps)
     (chunk_loop fault out fd rs sz n (map sha ps) data st)"
proof (induction ps arbitrary: n data st)
  case (Cons b ps)
  have len: "min CHUNK (sz - n * CHUNK) = int (length b)"
    using Cons.prems(3) by simp
  have tries: "ends os P (\<lambda>acc'. snd acc' = Some b) (try_replicas out (sha b) (int (length b)) 0 rs (st, None))"
    using Cons.prems(1,2) by (intro ends_try_replicas) (auto simp: available_def)
  have "ends os P (\<lambda>res. fst res \<and> fst (snd res) = (data @ b) @ concat ps)
      (chunk_loop fault out fd rs sz (n + 1) (map sha ps) (data @ b) st')" for st'
    using Cons.prems by (intro Cons.IH) auto
  moreover have "ends os P (\<lambda>_. True) (emit_chunk fault out fd b)" for fd
    using Cons.prems(1) by (simp add: storing_def)
  ultimately show ?case
    unfolding list.map chunk_loop.simps len
    by (intro ends_seq [OF tries]) (auto intro!: ends_seq_any)
qed (simp add: ends_ret)

text \<open>The content of an object, cut as the manifest says, every piece available.\<close>

definition recoverable :: "(event list \<Rightarrow> call \<Rightarrow> answer) \<Rightarrow> directory list \<Rightarrow> entry \<Rightarrow> bool" where
  "recoverable os rs e \<longleftrightarrow>
     (\<exists>ps. e_chunks e = map sha ps \<and> cut_at (e_size e) 0 ps \<and> int (length (concat ps)) = e_size e \<and>
        sha (concat ps) = e_sha256 e \<and> (\<forall>b\<in>set ps. available os rs b))"

section \<open>The file system of the candidate\<close>

text \<open>
  A file system on which the candidate can be written: no call that the run makes to it fails, all
  directories are on the device and mount of \<open>d\<close>, \<open>d\<close> is empty, and there is room.
\<close>

definition answers :: "(event list \<Rightarrow> call \<Rightarrow> answer) \<Rightarrow> (call \<Rightarrow> bool) \<Rightarrow> (answer \<Rightarrow> bool) \<Rightarrow> bool" where
  "answers os C A \<longleftrightarrow> (\<forall>l c. C c \<longrightarrow> A (os l c))"

fun effects :: "call \<Rightarrow> bool" where
  "effects (Open _ _ _ _) = True" | "effects (Dup _) = True" | "effects (Close _) = True"
| "effects (Mkdir _ _ _) = True" | "effects (Fsync _) = True"
| "effects _ = False"

definition willing :: "(event list \<Rightarrow> call \<Rightarrow> answer) \<Rightarrow> directory \<Rightarrow> bool" where
  "willing os d \<longleftrightarrow> answers os effects (\<lambda>a. \<forall>n. a \<noteq> Fails n) \<and>
     (\<forall>l fd b. os l (Write fd b) = Is_int (int (length b))) \<and>
     (\<forall>l fd. \<exists>s. os l (Fstat fd) = Is_stat s \<and> st_dev s = d_dev d) \<and>
     (\<forall>l fd. \<exists>ls. os l (Fdinfo fd) = Is_names ls \<and> mount_line ls = Inr (d_mount d)) \<and>
     (\<forall>l. os l (Listdir (d_fd d)) = Is_names []) \<and>
     (\<forall>l. \<exists>a b. os l (Statvfs (d_fd d)) = Is_vfs a b \<and> MAX_TOTAL + 4 * int LIMIT \<le> a * b)"

lemma willing_answers:
  assumes "willing os d" "effects c"
  shows "os l c \<noteq> Fails n"
  using assms by (simp add: willing_def answers_def)

lemma ends_effects:
  assumes "willing os d"
  shows "effects c \<Longrightarrow> ends os P (\<lambda>_. True) (sys_unit c)" "effects c \<Longrightarrow> ends os P (\<lambda>_. True) (sys_fd c)"
    "ends os P (\<lambda>_. True) (sys_close fd)" "ends os P (\<lambda>_. True) (sys_dup fd)" "ends os P (\<lambda>_. True) (sys_open dir n fl)"
  using willing_answers [OF assms]
  by (auto simp: ends_def sys_unit_def sys_fd_def sys_close_def sys_dup_def sys_open_def logged_def answer_of_def
      Let_def split: answer.splits)

lemma ends_write_willing:
  assumes "willing os d"
  shows "ends os P (\<lambda>n. n = int (length b)) (sys_write fd b)"
proof -
  have "os l (Write fd b) = Is_int (int (length b))" for l
    using assms by (simp add: willing_def)
  then show ?thesis
    by (auto simp: ends_def sys_write_def seq_def sys_int_def answer_of_def logged_def ret_def)
qed

lemma ends_write_all_willing: "willing os d \<Longrightarrow> ends os P (\<lambda>_. True) (write_all fd b)"
  by (subst write_all.simps, cases "b = []")
    (auto intro!: ends_ret ends_seq [OF ends_write_willing], subst write_all.simps, simp add: ends_ret)

lemma ends_same_mount:
  assumes "willing os d"
  shows "ends os P id (same_mount d n)"
proof (rule endsI)
  fix w :: world assume w: "w_os w = os"
  obtain s where s: "os (w_log w) (Fstat n) = Is_stat s" "st_dev s = d_dev d"
    using assms unfolding willing_def by blast
  obtain ls where "os (w_log w @ [(Fstat n, Is_stat s)]) (Fdinfo n) = Is_names ls" "mount_line ls = Inr (d_mount d)"
    using assms unfolding willing_def by blast
  with w s show "end_post os P id (same_mount d n w)"
    by (simp add: same_mount_def mountid_def seq_def sys_stat_def sys_names_def answer_of_def lift_def ret_def logged_def)
qed

lemma ends_parent_willing:
  assumes os: "willing os d" and p: "is_relative p"
  shows "ends os P (\<lambda>_. True) (parent d p c)"
proof -
  note eff = ends_effects [OF os]
  have make: "ends os P (\<lambda>_. True) (make_directory c fd part)" for fd part
    unfolding make_directory_def
    by (intro ends_if ends_catch ends_seq_any eff ends_ret) simp_all
  have loop: "ends os P (\<lambda>_. True) (parent_loop d c fd ps)" for fd ps
  proof (induction ps arbitrary: fd)
    case (Cons part parts)
    have body: "ends os P (\<lambda>_. True) (seq (same_mount d n) (\<lambda>same.
        seq (if same then ret () else seq (sys_close n) (\<lambda>_. raise (Invalid ''mount crossing''))) (\<lambda>_.
        seq (sys_close fd) (\<lambda>_. ret n))))" for n
      by (rule ends_seq [OF ends_same_mount [OF os]]) (auto intro!: ends_seq_any eff ends_ret)
    show ?case
      unfolding parent_loop.simps
      by (rule ends_seq_any [OF ends_on_error [OF ends_seq_any [OF make ends_seq_any [OF eff(5) body]] eff(3)] Cons.IH])
  qed (simp add: ends_ret)
  show ?thesis
    using p loop unfolding parent_def Let_def
    by (intro ends_seq [OF ends_lift [where Q = "\<lambda>q. q = p"]] ends_seq_any eff) (auto intro: ends_ret)
qed

lemma ends_create_willing:
  assumes os: "willing os d" and p: "is_relative p"
  shows "ends os P (\<lambda>_. True) (create d p)"
  unfolding create_def
  by (intro ends_seq_any [OF ends_parent_willing [OF os p]] ends_prod ends_on_error ends_seq_any
      ends_effects [OF os] ends_ret) simp_all

lemma ends_write_new_willing:
  assumes os: "willing os d" and p: "is_relative p"
  shows "ends os P (\<lambda>_. True) (write_new d p b)"
  unfolding write_new_def close_both_def
  by (intro ends_seq_any [OF ends_create_willing [OF os p]] ends_prod ends_always ends_seq_any
      ends_write_all_willing [OF os] ends_effects [OF os]) simp_all

section \<open>The names the run gives\<close>

lemma relative_under:
  assumes "is_component d" "is_relative p" "length d + length p < 1024" "length (split_on 47 p) < 32"
  shows "is_relative (d @ str ''/'' @ p)"
proof -
  have "47 \<notin> set d" "92 \<notin> set d" "0 \<notin> set d" using component_chars [OF assms(1)] by force+
  with assms show ?thesis
    by (auto simp: is_relative_def split_dir) (simp_all add: str_def)
qed

lemma run_names [simp]:
  "is_component (str ''payload'')" "is_component (str ''evidence'')" "is_component (str ''objects'')"
  "is_relative (str ''intent.json'')" "is_relative (str ''manifest.json'')" "is_relative (str ''anchor.json'')"
  "is_relative (str ''report.json'')" "is_relative (str ''candidate-ready.json'')"
  by code_simp+

lemma relative_digest:
  assumes h: "is_digest h"
  shows "is_relative h" "length h = 64"
proof -
  have hex: "48 \<le> c \<and> c \<le> 57 \<or> 97 \<le> c \<and> c \<le> 102" if "c \<in> set h" for c
    using h that by (auto simp: is_digest_def list_all_iff is_hex_def is_digit_def)
  show 64: "length h = 64" using h by (simp add: is_digest_def)
  have "is_component h"
    using hex 64 by (force simp: is_component_def list_all_iff is_alnum_def is_digit_def is_lower_def is_upper_def str_def)
  then show "is_relative h"
    using hex 64 digest_name [OF h] by (force simp: is_relative_def)
qed

lemma evidence_name: "is_relative (str ''evidence/'' @ sha b)"
  using relative_under [of "str ''evidence''" "sha b"] relative_digest [of "sha b"] digest_name [of "sha b"] run_names(2)
  by (simp add: str_def)

text \<open>The payload of a path has one component more: the longest paths a manifest may name do not fit.\<close>

definition placeable :: "entry \<Rightarrow> bool" where
  "placeable e \<longleftrightarrow> is_relative (e_path e) \<and> length (e_path e) \<le> 1016 \<and> length (split_on 47 (e_path e)) < 32"

lemma payload_name: "placeable e \<Longrightarrow> is_relative (str ''payload/'' @ e_path e)"
  using relative_under [of "str ''payload''" "e_path e"] run_names(1) by (simp add: placeable_def str_def)

section \<open>A complete run\<close>

definition evidence_exhausted :: "exn \<Rightarrow> bool" where
  "evidence_exhausted e \<longleftrightarrow> e = Incomplete ''evidence capacity exhausted''"

abbreviation no_fault :: "string \<Rightarrow> unit res" where
  "no_fault \<equiv> \<lambda>_. Inr ()"

text \<open>A handler that never runs.\<close>

lemma ends_safe:
  assumes m: "ends os (\<lambda>_. False) Q m"
  shows "ends os P Q (catch C m h)"
proof (rule endsI)
  fix w :: world assume w: "w_os w = os"
  obtain r v where mw: "m w = (r, v)" by (cases "m w")
  with endsD [OF m w] show "end_post os P Q (catch C m h w)"
    by (cases r) (auto simp: catch_def)
qed

lemma ends_no_fault: "ends os P (\<lambda>_. True) (lift (no_fault s))"
  by (rule ends_lift) simp_all

lemma storing_candidate:
  assumes "willing os d"
  shows "storing os evidence_exhausted no_fault (Some d)"
proof -
  have "ends os P (\<lambda>_. True) (seq (write_new d (str ''evidence/'' @ sha b) b)
      (\<lambda>_. ret (st\<lparr>p_evidence := p_evidence st + length b\<rparr>)))" for P b st
    by (intro ends_seq_any [OF ends_write_new_willing [OF assms evidence_name]] ends_ret) simp
  then have "ends os evidence_exhausted (\<lambda>_. True) (quarantine (Some d) b st)" for b st
    unfolding quarantine_def option.case
    by (intro ends_seq_check ends_safe) (auto simp: evidence_exhausted_def)
  moreover have "ends os evidence_exhausted (\<lambda>_. True) (emit_chunk no_fault (Some d) fd b)" for fd b
    by (simp add: emit_chunk_def ends_seq_any [OF ends_write_all_willing [OF assms]] ends_no_fault)
  ultimately show ?thesis by (simp add: storing_def)
qed

lemma ends_prepare:
  assumes os: "willing os d" and m: "manifest_ok m" and apart: "\<forall>r\<in>set rs. \<not> overlaps d r"
  shows "ends os P (\<lambda>_. True) (prepare no_fault rs d m mraw eraw expected)"
proof -
  have v: "validate_manifest (manifest_json m) = Inr (m, total_size (m_objects m))"
    using m by (simp add: validate_manifest_iff json_ok_distinct manifest_json_ok)
  have names: "ends os P (\<lambda>ns. ns = []) (sys_names (Listdir (d_fd d)))"
  proof -
    have "os l (Listdir (d_fd d)) = Is_names []" for l using os by (simp add: willing_def)
    then show ?thesis by (auto simp: ends_def sys_names_def answer_of_def logged_def)
  qed
  have room: "ends os P (\<lambda>(a, b). MAX_TOTAL + 4 * int LIMIT \<le> a * b) (sys_statvfs (d_fd d))"
  proof (rule endsI)
    fix w :: world assume w: "w_os w = os"
    obtain a b where "os (w_log w) (Statvfs (d_fd d)) = Is_vfs a b" "MAX_TOTAL + 4 * int LIMIT \<le> a * b"
      using os unfolding willing_def by blast
    with w show "end_post os P (\<lambda>(a, b). MAX_TOTAL + 4 * int LIMIT \<le> a * b) (sys_statvfs (d_fd d) w)"
      by (simp add: sys_statvfs_def answer_of_def logged_def)
  qed
  have written: "ends os P (\<lambda>_. True) (seq (write_new d (str ''intent.json'') x) (\<lambda>_.
      seq (lift (no_fault ''after-intent'')) (\<lambda>_. seq (write_new d (str ''manifest.json'') mraw) (\<lambda>_.
      write_new d (str ''anchor.json'') eraw))))" for x
    by (intro ends_seq_any [OF ends_write_new_willing [OF os]] ends_seq_any [OF ends_no_fault]
        ends_write_new_willing [OF os]) simp_all
  have small: "total_size (m_objects m) \<le> MAX_TOTAL" using m by (simp add: manifest_ok_def)
  show ?thesis
    unfolding prepare_def v
    by (intro ends_seq_check ends_seq [OF names] ends_seq [OF room] ends_prod
        ends_seq [OF ends_lift [where Q = "\<lambda>p. p = (m, total_size (m_objects m))"]])
      (use apart small written in auto)
qed

text \<open>The candidate that the run may be given, or none; what each may raise.\<close>

definition ready_for :: "(event list \<Rightarrow> call \<Rightarrow> answer) \<Rightarrow> directory list \<Rightarrow> directory option \<Rightarrow> manifest \<Rightarrow> bool" where
  "ready_for os rs out m \<longleftrightarrow>
     (case out of None \<Rightarrow> True
      | Some d \<Rightarrow> willing os d \<and> list_all (\<lambda>r. \<not> overlaps d r) rs \<and> list_all placeable (m_objects m))"

definition may_stop :: "directory option \<Rightarrow> exn \<Rightarrow> bool" where
  "may_stop out e \<longleftrightarrow> out \<noteq> None \<and> evidence_exhausted e"

lemma may_stop_simps [simp]: "may_stop None = (\<lambda>_. False)" "may_stop (Some d) = evidence_exhausted"
  by (auto simp: may_stop_def fun_eq_iff)

lemma ends_rebuild_object:
  assumes rec: "recoverable os rs e" and ready: "case out of None \<Rightarrow> True | Some d \<Rightarrow> willing os d \<and> placeable e"
  shows "ends os (may_stop out) fst (rebuild_object no_fault out rs e st)"
proof -
  obtain ps where ps: "e_chunks e = map sha ps" "cut_at (e_size e) 0 ps" "int (length (concat ps)) = e_size e"
    "sha (concat ps) = e_sha256 e" "\<forall>b\<in>set ps. available os rs b"
    using rec unfolding recoverable_def by blast
  have loop: "ends os P (object_good e) (chunk_loop no_fault out fd rs (e_size e) 0 (map sha ps) [] st)"
    if "storing os P no_fault out" for P fd
    by (rule ends_mono [OF ends_chunk_loop [OF that ps(5,2)]]) (use ps in \<open>auto simp: object_good_def\<close>)
  show ?thesis
  proof (cases out)
    case None
    then show ?thesis
      unfolding rebuild_object_def ps(1) None option.case may_stop_simps
      by (intro ends_seq [OF loop [unfolded None, OF storing_None]] ends_ret) simp
  next
    case (Some d)
    with ready have os: "willing os d" and e: "placeable e" by simp_all
    show ?thesis
      unfolding rebuild_object_def ps(1) Some option.case may_stop_simps close_both_def
      by (intro ends_seq_any [OF ends_create_willing [OF os payload_name [OF e]]] ends_prod ends_always
          ends_seq [OF loop [unfolded Some, OF storing_candidate [OF os]]] ends_seq_any
          ends_effects [OF os] ends_no_fault ends_ret) simp_all
  qed
qed

lemma ends_rebuild_objects:
  assumes "\<forall>e\<in>set es. recoverable os rs e \<and> (case out of None \<Rightarrow> True | Some d \<Rightarrow> willing os d \<and> placeable e)"
  shows "ends os (may_stop out) (\<lambda>res. \<forall>(p, good)\<in>set (fst res). good) (rebuild_objects no_fault out rs es st)"
  using assms
proof (induction es arbitrary: st)
  case (Cons e es)
  then show ?case
    unfolding rebuild_objects.simps
    by (intro ends_seq [OF ends_rebuild_object] ends_prod ends_seq [OF Cons.IH] ends_ret) auto
qed (simp add: ends_ret)

lemma ends_finish:
  assumes os: "willing os d"
  shows "ends os P (\<lambda>_. True) (finish no_fault d expected r)"
  unfolding finish_def
  by (intro ends_seq_any [OF ends_write_new_willing [OF os]] ends_seq_any [OF ends_no_fault] ends_if
      ends_no_fault ends_ret) simp_all

lemma ends_recovers:
  assumes auth: "authenticate verify depth mraw eraw trust expected now = Inr (m, a)"
    and len: "1 \<le> length rs" "length rs \<le> 16" and rec: "\<forall>e\<in>set (m_objects m). recoverable os rs e"
    and ready: "ready_for os rs out m"
  shows "ends os (may_stop out) r_complete
    (reconstruct verify depth mraw eraw trust expected now rs out no_fault)"
proof -
  have m: "manifest_ok m" using authenticate_InrD [OF auth] by blast
  have auth': "seq (lift (authenticate verify depth mraw eraw trust expected now)) f = f (m, a)" for f :: "_ \<Rightarrow> report io"
    by (simp add: fun_eq_iff seq_def lift_def auth)
  have objects: "ends os (may_stop out) (\<lambda>res. \<forall>(p, good)\<in>set (fst res). good)
      (rebuild_objects no_fault out rs (m_objects m) st)" for st
    using rec ready by (intro ends_rebuild_objects) (auto simp: ready_for_def list_all_iff split: option.splits)
  have prep: "ends os (may_stop out) (\<lambda>_. True) (case out of None \<Rightarrow> ret () | Some d \<Rightarrow> prepare no_fault rs d m mraw eraw expected)"
    using ready ends_prepare [OF _ m]
    by (auto simp: ready_for_def list_all_iff split: option.splits intro!: ends_ret)
  have fin: "ends os (may_stop out) (\<lambda>_. True) (case out of None \<Rightarrow> ret () | Some d \<Rightarrow> finish no_fault d expected r)" for r
    using ready by (auto simp: ready_for_def split: option.splits intro!: ends_ret ends_finish)
  show ?thesis
    unfolding reconstruct_def auth' prod.case Let_def
    by (intro ends_seq_check ends_seq_any [OF prep] ends_seq [OF objects] ends_prod ends_seq_any [OF fin] ends_ret)
      (use len in \<open>auto simp: make_report_def\<close>)
qed

text \<open>Without any replica that serves the chunks, the same run ends with an incomplete report.\<close>

definition unserved :: "(event list \<Rightarrow> call \<Rightarrow> answer) \<Rightarrow> directory list \<Rightarrow> bool" where
  "unserved os rs \<longleftrightarrow> (\<forall>r\<in>set rs. \<forall>ch. ends os os_or_invalid (\<lambda>_. False) (dir_read r (str ''objects/'' @ ch) CHUNK))"

lemma ends_unserved_chunks:
  assumes un: "unserved os rs"
  shows "ends os P (\<lambda>res. chs \<noteq> [] \<longrightarrow> \<not> fst res) (chunk_loop fault out fd rs sz n chs data st)"
proof (cases chs)
  case (Cons ch chs')
  have one: "ends os P (\<lambda>acc. snd acc = sel) (try_replica out ch sz' ri r (st', sel))" if "r \<in> set rs" for r ri sz' st' sel
  proof -
    have "ends os os_or_invalid (\<lambda>_. False) (dir_read r (str ''objects/'' @ ch) CHUNK)"
      using un that unfolding unserved_def by blast
    from ends_attempted [OF this, of os_or_invalid]
    have "ends os P isl (attempt os_or_invalid (dir_read r (str ''objects/'' @ ch) CHUNK))"
      by (rule ends_mono) (auto split: sum.splits)
    then show ?thesis
      unfolding try_replica_def
      by (rule ends_seq) (auto simp: judge_copy_def isl_def intro!: ends_ret)
  qed
  have all: "ends os P (\<lambda>acc'. snd acc' = snd acc) (try_replicas out ch sz' ri rs' acc)" if "set rs' \<subseteq> set rs" for rs' ri sz' acc
    using that
  proof (induction rs' arbitrary: ri acc)
    case (Cons r rs')
    obtain st' sel where acc: "acc = (st', sel)" by (cases acc)
    show ?case
      unfolding try_replicas.simps acc
    proof (rule ends_seq [OF one])
      show "r \<in> set rs" using Cons.prems by simp
    next
      fix acc' :: "progress \<times> bytes option" assume "snd acc' = sel"
      with Cons.IH [of acc' "ri + 1"] Cons.prems
      show "ends os P (\<lambda>x. snd x = snd (st', sel)) (try_replicas out ch sz' (ri + 1) rs' acc')" by simp
    qed
  qed (simp add: ends_ret)
  show ?thesis
    unfolding Cons chunk_loop.simps
    by (rule ends_seq [OF all [OF subset_refl]]) (auto intro!: ends_ret split: prod.splits)
qed (simp add: ends_ret)

lemma ends_unserved_object:
  assumes un: "unserved os rs" and os: "willing os d" and e: "placeable e"
  shows "ends os P (\<lambda>res. e_chunks e \<noteq> [] \<longrightarrow> \<not> fst res) (rebuild_object no_fault (Some d) rs e st)"
  unfolding rebuild_object_def option.case close_both_def
  by (intro ends_seq_any [OF ends_create_willing [OF os payload_name [OF e]]] ends_prod ends_always
      ends_seq [OF ends_unserved_chunks [OF un]] ends_seq_any ends_effects [OF os] ends_no_fault ends_ret)
    (auto simp: object_good_def)

lemma ends_unserved_objects:
  assumes un: "unserved os rs" and os: "willing os d" and es: "list_all placeable es"
  shows "ends os P (\<lambda>res. (\<exists>e\<in>set es. e_chunks e \<noteq> []) \<longrightarrow> \<not> (\<forall>(p, good)\<in>set (fst res). good))
    (rebuild_objects no_fault (Some d) rs es st)"
  using es
proof (induction es arbitrary: st)
  case (Cons e es)
  then show ?case
    unfolding rebuild_objects.simps
    by (intro ends_seq [OF ends_unserved_object [OF un os]] ends_prod ends_seq [OF Cons.IH] ends_ret) auto
qed (simp add: ends_ret)

lemma ends_reconstruct_unserved:
  assumes auth: "authenticate verify depth mraw eraw trust expected now = Inr (m, a)"
    and len: "1 \<le> length rs" "length rs \<le> 16" and un: "unserved os rs" and ready: "ready_for os rs (Some d) m"
    and e: "\<exists>e\<in>set (m_objects m). e_chunks e \<noteq> []"
  shows "ends os P (\<lambda>r. \<not> r_complete r)
    (reconstruct verify depth mraw eraw trust expected now rs (Some d) no_fault)"
proof -
  have m: "manifest_ok m" using authenticate_InrD [OF auth] by blast
  have os: "willing os d" "list_all placeable (m_objects m)" "\<forall>r\<in>set rs. \<not> overlaps d r"
    using ready by (simp_all add: ready_for_def list_all_iff)
  have auth': "seq (lift (authenticate verify depth mraw eraw trust expected now)) f = f (m, a)" for f :: "_ \<Rightarrow> report io"
    by (simp add: fun_eq_iff seq_def lift_def auth)
  show ?thesis
    unfolding reconstruct_def auth' prod.case Let_def option.case
    by (intro ends_seq_check ends_seq_any [OF ends_prepare [OF os(1) m os(3)]]
        ends_seq [OF ends_unserved_objects [OF un os(1,2)]] ends_prod ends_seq_any [OF ends_finish [OF os(1)]] ends_ret)
      (use len e in \<open>auto simp: make_report_def\<close>)
qed

end
