(* ===== verification/Examples_Run.thy ===== *)
theory Examples_Run
  imports Directory_Leak Reconstruct_Live
begin

text \<open>
  Replicas on which \<open>reconstruct\<close> is evaluated: one that holds the bytes of the example cohort, one
  whose reads all fail, and a candidate directory that is written to.
\<close>

text \<open>As \<open>demo_os\<close>, but the first read of a chunk delivers its three bytes.\<close>

fun store_os :: "event list \<Rightarrow> call \<Rightarrow> answer" where
  "store_os l (Read _ n) = (if n = 65536 then Is_bytes [1, 2, 3] else Is_bytes [])"
| "store_os l c = demo_os l c"

text \<open>As \<open>demo_os\<close>, with an I/O error on every read.\<close>

fun dead_os :: "event list \<Rightarrow> call \<Rightarrow> answer" where
  "dead_os l (Read _ n) = Fails 5"
| "dead_os l c = demo_os l c"

definition demo_candidate :: directory where
  "demo_candidate = \<lparr>d_path = [str ''/'', str ''new''], d_fd = 4, d_dev = 1, d_mount = 7\<rparr>"

lemma objects_name: "is_relative (str ''objects/'' @ sha b)"
  using relative_under [of "str ''objects''" "sha b"] relative_digest [of "sha b"] digest_name [of "sha b"] run_names(3)
  by (simp add: str_def)

lemma chunk_path:
  "relative (JStr (str ''objects/'' @ sha b)) = Inr (str ''objects/'' @ sha b)"
  "split_on 47 (str ''objects/'' @ sha b) = [str ''objects'', sha b]"
  using objects_name [of b] digest_name [of "sha b"] split_dir [of "str ''objects''" "sha b"]
  by (auto simp: str_def)

lemma store_reads:
  "w_os w = store_os \<Longrightarrow> \<exists>v. dir_read demo_directory (str ''objects/'' @ sha [1, 2, 3]) CHUNK w = (Inr [1, 2, 3], v) \<and> w_os v = store_os"
  using demo_mount
  by (simp add: dir_read_def open_file_def parent_def chunk_path seq_def lift_def Let_def sys_dup_def sys_fd_def
      answer_of_def logged_def demo_directory_def on_error_def make_directory_def ret_def sys_open_def
      same_mount_def sys_stat_def sys_close_def raise_def os_error_def demo_stat_def
      mountid_def sys_names_def check_def snapshot_def always_def close_both_def check_unchanged_def
      S_ISREG_def read_loop.simps sys_read_def sys_bytes_def CHUNK_def)

lemma store_holds: "holds store_os demo_directory (sha [1, 2, 3]) [1, 2, 3]"
  using store_reads by (fastforce simp: holds_def ends_def)

lemma store_available: "available store_os [demo_directory] [1, 2, 3]"
  using store_holds by (auto simp: available_def harmless_def holds_def intro: ends_mono)

lemma store_recoverable: "list_all (recoverable store_os [demo_directory]) (m_objects demo_manifest)"
proof -
  have "recoverable store_os [demo_directory] (demo_entry p k ps)" if "ps \<in> {[], [[1, 2, 3]]}" for p k ps
    unfolding recoverable_def
    by (rule exI [of _ ps]) (use that store_available in \<open>auto simp: demo_entry_def CHUNK_def\<close>)
  then show ?thesis by (simp add: demo_manifest_def)
qed

lemma demo_effects: "effects c \<Longrightarrow> store_os l c \<noteq> Fails n" "effects c \<Longrightarrow> dead_os l c \<noteq> Fails n"
  by (cases c; simp)+

lemma candidate_ready:
  "ready_for store_os [demo_directory] (Some demo_candidate) demo_manifest"
  "ready_for dead_os [demo_directory] (Some demo_candidate) demo_manifest"
proof -
  have names: "length (str ''db/catalog'') \<le> 1016 \<and> length (split_on 47 (str ''db/catalog'')) < 32"
    "length (str ''db/checkpoint'') \<le> 1016 \<and> length (split_on 47 (str ''db/checkpoint'')) < 32"
    "length (str ''journal'') \<le> 1016 \<and> length (split_on 47 (str ''journal'')) < 32"
    by code_simp+
  have "list_all placeable (m_objects demo_manifest)"
    using names by (simp add: demo_manifest_def placeable_def demo_entry_def)
  moreover have "\<not> overlaps demo_candidate demo_directory" by code_simp
  moreover have "willing store_os demo_candidate" "willing dead_os demo_candidate"
    using demo_effects demo_mount
    by (simp_all add: willing_def answers_def demo_candidate_def demo_stat_def MAX_TOTAL_def MAX_CHUNKS_def CHUNK_def LIMIT_def)
  ultimately show "ready_for store_os [demo_directory] (Some demo_candidate) demo_manifest"
    "ready_for dead_os [demo_directory] (Some demo_candidate) demo_manifest"
    by (simp_all add: ready_for_def)
qed

text \<open>On \<open>dead_os\<close> every read of a replica fails.\<close>

lemma dead_steady: "steady dead_os"
  using demo_mount by (auto simp: steady_def quiet_def)

lemma dead_unserved: "unserved dead_os [demo_directory]"
proof -
  have read: "ends dead_os os_or_invalid (\<lambda>_. False) (sys_read fd n)" for fd n
    by (auto simp: ends_def sys_read_def seq_def sys_bytes_def answer_of_def logged_def)
  have loop: "ends dead_os os_or_invalid (\<lambda>_. False) (read_loop fd CHUNK [])" for fd
    by (subst read_loop.simps) (simp add: CHUNK_def ends_seq [OF read])
  have "ends dead_os os_or_invalid (\<lambda>_. False) (dir_read demo_directory p CHUNK)" for p
    unfolding dir_read_def close_both_def
    by (intro ends_seq_any [OF ends_open_file [OF dead_steady]] ends_prod ends_always ends_seq [OF loop] ends_rules) auto
  then show ?thesis by (simp add: unserved_def)
qed

section \<open>The example cohort authenticates\<close>

lemma demo_authenticates:
  "authenticate demo_verify 10 (canonical (manifest_json demo_manifest)) (canonical demo_envelope)
     (trust_json demo_trust) demo_expected 1500 = Inr (demo_manifest, demo_anchor)"
proof (rule authenticate_complete [where t = demo_trust and e = "sort_keys demo_envelope" and ss = demo_signers])
  show "sort_keys (sort_keys demo_envelope) =
      sort_keys (envelope_json demo_anchor (map (\<lambda>(k, s). (k_id k, s)) demo_signers))"
    using sort_keys_idem [OF json_ok_distinct [OF demo_envelope_ok(1)]] by (simp add: demo_envelope_def)
qed (use demo_validate_trust demo_manifest_ok demo_manifest_small demo_anchor_ok demo_binds
    demo_decode_envelope demo_quorum demo_signers_ok in \<open>simp_all add: INT_MAX_def demo_expected_def\<close>)

lemma demo_has_chunk: "\<exists>e\<in>set (m_objects demo_manifest). e_chunks e \<noteq> []"
  by (simp add: demo_manifest_def demo_entry_def)

lemma demo_no_marker: "list_all (\<lambda>e. MARKER \<notin> set (split_on 47 (e_path e))) (m_objects demo_manifest)"
proof -
  have "MARKER \<notin> set (split_on 47 (str ''db/catalog''))" "MARKER \<notin> set (split_on 47 (str ''db/checkpoint''))"
    "MARKER \<notin> set (split_on 47 (str ''journal''))"
    by code_simp+
  then show ?thesis by (simp add: demo_manifest_def demo_entry_def)
qed

text \<open>A run whose exceptions are impossible returns.\<close>

lemma ends_run:
  assumes "ends os (\<lambda>_. False) Q m" "w_os w = os"
  obtains x v where "m w = (Inr x, v)" "Q x"
  using endsD [OF assms] that by (cases "m w"; cases "fst (m w)") auto

text \<open>A path of \<open>n\<close> components.\<close>

fun deep_path :: "nat \<Rightarrow> pystr" where
  "deep_path 0 = []"
| "deep_path (Suc 0) = str ''a''"
| "deep_path (Suc n) = str ''a/'' @ deep_path n"

lemma store_steady: "steady store_os"
  using demo_mount by (auto simp: steady_def quiet_def)

end
