(* ===== verification/Export.thy ===== *)
theory Export
  imports Reconstruct_Spec Manifest_Text
begin

unbundle bit_operations_syntax

text \<open>
  \<open>export\<close> of \<open>tools/nia_recovery.py\<close>: the offline exporter that copies a closed source directory
  into a content-addressed store and writes the manifest last. The specification it is given and
  the manifest it builds are dicts, as in the source.
\<close>

section \<open>The specification\<close>

record export_item =
  x_path :: pystr
  x_mode :: int
  x_items :: "(pystr \<times> json) list"

text \<open>\<open>i['kind'] not in KINDS\<close>: a list or a dict is unhashable, so the test itself raises.\<close>

definition export_kind :: "json \<Rightarrow> unit res" where
  "export_kind k =
     (case k of
        JStr s \<Rightarrow> ensure (s \<in> set KINDS) (Invalid ''export class'')
      | JArr _ \<Rightarrow> Inl TypeError
      | JObj _ \<Rightarrow> Inl TypeError
      | _ \<Rightarrow> Inl (Invalid ''export class''))"

definition dict_items :: "json \<Rightarrow> (pystr \<times> json) list" where
  "dict_items j = (case j of JObj kvs \<Rightarrow> kvs | _ \<Rightarrow> [])"

definition export_item :: "json \<Rightarrow> export_item res" where
  "export_item i =
     rbind (dict_fields i [''path'', ''kind'', ''mode'']) (\<lambda>_.
     item i ''path'' (\<lambda>j. rbind (relative j) (\<lambda>p.
     item i ''mode'' (\<lambda>j. rbind (integer j 0 511) (\<lambda>mode.
     item i ''kind'' (\<lambda>j. rbind (export_kind j) (\<lambda>_.
     Inr \<lparr>x_path = p, x_mode = mode, x_items = dict_items i\<rparr>)))))))"

definition validate_spec :: "json \<Rightarrow> export_item list res" where
  "validate_spec spec =
     rbind (dict_fields spec [''node'', ''cohort'', ''generation'', ''trust_epoch'', ''catalog_path'',
       ''checkpoint_path'', ''pending'', ''objects'']) (\<lambda>_.
     item spec ''node'' (\<lambda>j. rbind (ident j) (\<lambda>_.
     item spec ''cohort'' (\<lambda>j. rbind (digest j) (\<lambda>_.
     item spec ''generation'' (\<lambda>j. rbind (integer j 1 INT_MAX) (\<lambda>_.
     item spec ''trust_epoch'' (\<lambda>j. rbind (integer j 1 INT_MAX) (\<lambda>_.
     item spec ''objects'' (\<lambda>j.
     rbind (the_list j (\<lambda>n. 1 \<le> n \<and> n \<le> MAX_OBJECTS) ''export count'') (\<lambda>os.
     rbind (for_each export_item os) (\<lambda>xs.
     rbind (ensure (distinct (map x_path xs)) (Invalid ''duplicate export'')) (\<lambda>_.
     Inr xs)))))))))))))"

section \<open>Copying one file\<close>

text \<open>\<open>while len(b) < goal\<close>: a chunk is read in full or the export fails.\<close>

function read_exact :: "nat \<Rightarrow> int \<Rightarrow> bytes \<Rightarrow> bytes io" where
  "read_exact fd goal b =
     (if goal \<le> int (length b) then ret b
      else seq (sys_read fd (goal - int (length b))) (\<lambda>x.
        if x = [] then raise (Invalid ''export truncated'') else read_exact fd goal (b @ x)))"
  by pat_completeness auto
termination
  by (relation "measure (\<lambda>(fd, goal, b). nat (goal - int (length b)))") auto

declare read_exact.simps [simp del]

definition store_chunk :: "directory \<Rightarrow> bytes \<Rightarrow> unit io" where
  "store_chunk out b =
     catch (\<lambda>e. e = FileExistsError)
       (write_new out (str ''objects/'' @ sha b) b)
       (\<lambda>_. seq (dir_read out (str ''objects/'' @ sha b) CHUNK) (\<lambda>b'.
            check (b' = b) (Invalid ''existing object mismatch'')))"

text \<open>
  \<open>while count < s.st_size\<close>: \<open>data\<close> is what \<open>h\<close> has been fed (so \<open>count\<close> is its length), the result
  adds the names of the chunks. A chunk is never empty, so the loop ends.
\<close>

lemma read_exact_length:
  "read_exact fd goal b w = (Inr r, v) \<Longrightarrow> int (length r) \<ge> goal \<and> length b \<le> length r"
proof (induction fd goal b arbitrary: w rule: read_exact.induct)
  case (1 fd goal b)
  then show ?case
    by (subst (asm) (2) read_exact.simps)
      (fastforce simp: seq_def raise_def ret_def split: if_splits prod.splits sum.splits)
qed

function export_chunks :: "directory \<Rightarrow> nat \<Rightarrow> int \<Rightarrow> bytes \<Rightarrow> (bytes \<times> pystr list) io" where
  "export_chunks out fd sz data w =
     (if sz \<le> int (length data) then ret (data, []) w
      else seq (read_exact fd (min CHUNK (sz - int (length data))) []) (\<lambda>b.
        seq (store_chunk out b) (\<lambda>_.
        seq (export_chunks out fd sz (data @ b)) (\<lambda>(all, chs). ret (all, sha b # chs)))) w)"
  by pat_completeness auto
termination
  by (relation "measure (\<lambda>(out, fd, sz, data, w). nat (sz - int (length data)))")
    (auto dest!: read_exact_length simp: CHUNK_def)

declare export_chunks.simps [simp del]

definition object_json :: "export_item \<Rightarrow> stat \<Rightarrow> (pystr \<times> pystr) list \<Rightarrow> bytes \<Rightarrow> pystr list \<Rightarrow> json" where
  "object_json x s xs data chs =
     JObj (x_items x @ [(str ''uid'', JInt (st_uid s)), (str ''gid'', JInt (st_gid s)),
       (str ''xattrs'', JArr (map xattr_json xs)), (str ''size'', JInt (int (length data))),
       (str ''sha256'', JStr (sha data)), (str ''chunks'', JArr (map JStr chs))])"

definition export_object :: "directory \<Rightarrow> directory \<Rightarrow> int \<Rightarrow> export_item \<Rightarrow> (json \<times> int) io" where
  "export_object source out tot x =
     seq (open_file source (x_path x) (MAX_TOTAL - tot)) (\<lambda>(fd, p, n, s).
     always
       (seq (check (st_mode s AND 4095 = x_mode x) (Invalid ''source mode differs from intended inventory'')) (\<lambda>_.
        seq (read_xattrs fd) (\<lambda>attrs.
        seq (export_chunks out fd (st_size s) []) (\<lambda>(data, chs).
        seq (sys_read fd 1) (\<lambda>more.
        seq (check (more = []) (Invalid ''export modified'')) (\<lambda>_.
        seq (check_unchanged s fd p n (Invalid ''export modified'')) (\<lambda>_.
        seq (read_xattrs fd) (\<lambda>attrs'.
        seq (check (attrs = attrs') (Invalid ''xattrs changed'')) (\<lambda>_.
        ret (object_json x s attrs data chs, tot + int (length data)))))))))))
       (close_both fd p))"

fun export_objects :: "directory \<Rightarrow> directory \<Rightarrow> int \<Rightarrow> export_item list \<Rightarrow> json list io" where
  "export_objects source out tot [] = ret []"
| "export_objects source out tot (x # xs) =
     seq (export_object source out tot x) (\<lambda>(j, tot').
     seq (export_objects source out tot' xs) (\<lambda>js. ret (j # js)))"

section \<open>export\<close>

definition export_manifest :: "json \<Rightarrow> attributes \<Rightarrow> (pystr \<times> attributes) list \<Rightarrow> json list \<Rightarrow> json" where
  "export_manifest spec root dirs objs =
     JObj (filter (\<lambda>(k, v). k \<noteq> str ''objects'') (dict_items spec) @
       [(str ''format'', JStr (str ''nia-recovery-manifest-v1'')), (str ''objects'', JArr objs),
        (str ''root_attributes'', attributes_json root), (str ''directories'', JArr (map directory_json dirs))])"

text \<open>The last comparison of the inventories and attributes with what the manifest says.\<close>

definition still_closed :: "directory \<Rightarrow> pystr list \<times> pystr list \<Rightarrow> manifest \<Rightarrow> unit io" where
  "still_closed source before m =
     seq (closed_inventory source) (\<lambda>after.
     seq (check (before = after \<and> before = (map e_path (m_objects m), expected_directories m))
            (Invalid ''export inventory not complete/stable'')) (\<lambda>_.
     seq (attributes_exact source m) (\<lambda>same.
     check same (Invalid ''directory metadata changed during export''))))"

definition export :: "directory \<Rightarrow> json \<Rightarrow> directory \<Rightarrow> json io" where
  "export source spec out =
     seq (check (\<not> overlaps out source) (Invalid ''export output/source overlap'')) (\<lambda>_.
     seq (sys_names (Listdir (d_fd out))) (\<lambda>ns.
     seq (check (ns = []) (Invalid ''export output must be empty'')) (\<lambda>_.
     seq (lift (validate_spec spec)) (\<lambda>xs.
     seq (closed_inventory source) (\<lambda>before.
     seq (check (fst before = sort (map x_path xs)) (Invalid ''export input not closed before copying'')) (\<lambda>_.
     seq (directory_attributes source None) (\<lambda>root.
     seq (each (\<lambda>d. seq (directory_attributes source (Some d)) (\<lambda>a. ret (d, a))) (snd before)) (\<lambda>dirs.
     seq (export_objects source out 0 (sort_key x_path xs)) (\<lambda>objs.
     let j = export_manifest spec root dirs objs in
     seq (lift (validate_manifest j)) (\<lambda>(m, _).
     seq (still_closed source before m) (\<lambda>_.
     seq (check (length (canonical j) \<le> LIMIT) (Invalid ''manifest size'')) (\<lambda>_.
     seq (write_new out (str ''manifest.json'') (canonical j)) (\<lambda>_.
     ret j)))))))))))))"

end
