(* ===== verification/Export_Spec.thy ===== *)
theory Export_Spec
  imports Export Reconstruct_Values
begin

text \<open>
  What \<open>export\<close> promises: it reads the source and creates private files in the output only, leaves no
  descriptor open, names every chunk by the hash of its bytes, cuts every file where \<open>reconstruct\<close>
  expects the cuts, and returns a manifest that passes the validation of the reader.
\<close>

section \<open>Exceptions of the checks\<close>

definition invalid_or_type :: "exn \<Rightarrow> bool" where
  "invalid_or_type e \<longleftrightarrow> is_invalid e \<or> e = TypeError"

lemmas raises_invalid_or_type = raises_mono [where P = is_invalid and Q = invalid_or_type]

lemma raises_export_kind: "raises invalid_or_type (export_kind j)"
  by (auto simp: export_kind_def raises_def invalid_or_type_def ensure_def split: json.splits if_splits)

lemma invalid_or_type_Invalid [simp]: "is_invalid e \<Longrightarrow> invalid_or_type e"
  by (simp add: invalid_or_type_def)

lemma raises_export_item: "raises invalid_or_type (export_item i)"
  unfolding export_item_def
  by (intro raises_rules raises_export_kind) (auto intro!: raises_rules raises_export_kind raises_item
      intro: raises_invalid_or_type [OF raises_dict_fields] raises_invalid_or_type [OF raises_relative]
        raises_invalid_or_type [OF raises_integer])

lemma raises_validate_spec: "raises invalid_or_type (validate_spec spec)"
  unfolding validate_spec_def
  by (intro raises_rules) (auto intro!: raises_rules raises_item raises_export_item
      intro: raises_invalid_or_type [OF raises_dict_fields] raises_invalid_or_type [OF raises_ident]
        raises_invalid_or_type [OF raises_digest] raises_invalid_or_type [OF raises_integer]
        raises_invalid_or_type [OF raises_the_list])

section \<open>Reading a chunk\<close>

lemma read_exact_exact:
  "read_exact fd goal b w = (Inr r, v) \<Longrightarrow> int (length b) \<le> goal \<Longrightarrow> int (length r) = goal"
proof (induction fd goal b arbitrary: w rule: read_exact.induct)
  case (1 fd goal b)
  show ?case
  proof (cases "goal \<le> int (length b)")
    case True
    with 1 show ?thesis by (subst (asm) (2) read_exact.simps) (auto simp: runs)
  next
    case False
    with "1.prems"(1) obtain x u where x: "sys_read fd (goal - int (length b)) w = (Inr x, u)" "x \<noteq> []"
      "read_exact fd goal (b @ x) u = (Inr r, v)"
      by (subst (asm) read_exact.simps) (auto simp: runs split: if_splits)
    from x(1) have "int (length x) \<le> goal - int (length b)"
      using False by (auto simp: sys_read_def runs)
    with x "1.IH" [OF False x(2,3)] show ?thesis by simp
  qed
qed

lemma keeps_read_exact [keeps]: "keeps_fds (read_exact fd goal b)"
proof (induction fd goal b rule: read_exact.induct)
  case (1 fd goal b)
  have "keeps_fds (seq (sys_read fd (goal - int (length b))) (\<lambda>x.
      if x = [] then raise e else read_exact fd goal (b @ x)))" if "\<not> goal \<le> int (length b)" for e
    using 1 that by (intro keeps) auto
  then show ?case by (subst read_exact.simps) (auto intro: keeps)
qed

lemma only_read_exact [only_rules]: "only observes (read_exact fd goal b)"
proof (induction fd goal b rule: read_exact.induct)
  case (1 fd goal b)
  then show ?case by (subst read_exact.simps) (auto simp: sys_read_def intro!: only_rules)
qed

lemma ends_read_exact [ends_rules]: "ends os os_or_invalid (\<lambda>_. True) (read_exact fd goal b)"
proof (induction fd goal b rule: read_exact.induct)
  case (1 fd goal b)
  then show ?case by (subst read_exact.simps) (auto intro!: ends_rules)
qed

section \<open>The chunk loop\<close>

lemma export_chunks_unfold:
  "export_chunks out fd sz data =
     (if sz \<le> int (length data) then ret (data, [])
      else seq (read_exact fd (min CHUNK (sz - int (length data))) []) (\<lambda>b.
        seq (store_chunk out b) (\<lambda>_.
        seq (export_chunks out fd sz (data @ b)) (\<lambda>(all, chs). ret (all, sha b # chs)))))"
  by (rule ext) (subst export_chunks.simps, simp)

text \<open>A property of the loop follows from the step, because every step reads something.\<close>

lemma export_chunks_induct [case_names step]:
  fixes data :: bytes and sz :: int
  assumes step: "\<And>data :: bytes. (\<And>b. \<not> sz \<le> int (length data) \<Longrightarrow>
      int (length b) = min CHUNK (sz - int (length data)) \<Longrightarrow> P (data @ b)) \<Longrightarrow> P data"
  shows "P data"
proof (induction "nat (sz - int (length data))" arbitrary: data rule: less_induct)
  case less
  show ?case by (rule step, rule less) (auto simp: CHUNK_def)
qed

lemma read_chunk_length:
  "\<not> sz \<le> int (length data) \<Longrightarrow> read_exact fd (min CHUNK (sz - int (length data))) [] w = (Inr b, v) \<Longrightarrow>
   int (length b) = min CHUNK (sz - int (length data))"
  by (rule read_exact_exact) (auto simp: CHUNK_def)

lemma only_store_chunk [only_rules]: "only creates_private (store_chunk out b)"
  unfolding store_chunk_def by (intro only_rules only_private [OF only_dir_read])

lemma only_export_chunks [only_rules]: "only creates_private (export_chunks out fd sz data)"
proof (induction data rule: export_chunks_induct [where sz = sz])
  case (step data)
  then show ?case
    by (subst export_chunks_unfold)
      (auto intro!: only_rules only_seq_yields only_private [OF only_read_exact] dest: read_chunk_length)
qed

lemma balanced_store_chunk: "steady os \<Longrightarrow> balanced os s (store_chunk out b)"
  unfolding store_chunk_def by (intro balanced_rules)

lemma balanced_export_chunks [balanced_rules]: "steady os \<Longrightarrow> balanced os s (export_chunks out fd sz data)"
proof (induction data rule: export_chunks_induct [where sz = sz])
  case (step data)
  have "balanced os s (seq (read_exact fd (min CHUNK (sz - int (length data))) []) (\<lambda>b.
      seq (store_chunk out b) (\<lambda>_. seq (export_chunks out fd sz (data @ b)) (\<lambda>(all, chs). ret (all, sha b # chs)))))"
    if big: "\<not> sz \<le> int (length data)"
  proof (rule fdt_seq [where H = "\<lambda>b t. t = s \<and> int (length b) = min CHUNK (sz - int (length data))"])
    show "fdt os s s (read_exact fd (min CHUNK (sz - int (length data))) [])
        (\<lambda>b t. t = s \<and> int (length b) = min CHUNK (sz - int (length data)))"
      by (rule fdt_yields [OF keeps_read_exact refl], rule conjI [OF refl], rule read_chunk_length [OF big])
  next
    fix b :: bytes and t assume b: "t = s \<and> int (length b) = min CHUNK (sz - int (length data))"
    then have "balanced os s (export_chunks out fd sz (data @ b))"
      using step big by blast
    with b show "fdt os t s (seq (store_chunk out b) (\<lambda>_.
        seq (export_chunks out fd sz (data @ b)) (\<lambda>(all, chs). ret (all, sha b # chs)))) (\<lambda>_ t. t = s)"
      using balanced_store_chunk [OF step.prems] by (auto intro!: fdt_seq_balanced fdt_prod fdt_ret)
  qed
  then show ?case by (subst export_chunks_unfold) (auto intro: fdt_ret)
qed

lemma ends_store_chunk [ends_rules]: "steady os \<Longrightarrow> ends os os_or_invalid (\<lambda>_. True) (store_chunk out b)"
  unfolding store_chunk_def by (intro ends_rules ends_mono [OF ends_write_new]) simp_all

lemma ends_export_chunks [ends_rules]:
  "steady os \<Longrightarrow> ends os os_or_invalid (\<lambda>_. True) (export_chunks out fd sz data)"
proof (induction data rule: export_chunks_induct [where sz = sz])
  case (step data)
  have "ends os os_or_invalid (\<lambda>_. True) (seq (read_exact fd (min CHUNK (sz - int (length data))) []) (\<lambda>b.
      seq (store_chunk out b) (\<lambda>_. seq (export_chunks out fd sz (data @ b)) (\<lambda>(all, chs). ret (all, sha b # chs)))))"
    if big: "\<not> sz \<le> int (length data)"
  proof (rule ends_seq [where R = "\<lambda>b. int (length b) = min CHUNK (sz - int (length data))"])
    show "ends os os_or_invalid (\<lambda>b. int (length b) = min CHUNK (sz - int (length data)))
        (read_exact fd (min CHUNK (sz - int (length data))) [])"
      by (rule ends_yields [OF ends_read_exact], rule read_chunk_length [OF big])
  next
    fix b :: bytes assume b: "int (length b) = min CHUNK (sz - int (length data))"
    then have "ends os os_or_invalid (\<lambda>_. True) (export_chunks out fd sz (data @ b))"
      using step big by blast
    then show "ends os os_or_invalid (\<lambda>_. True) (seq (store_chunk out b) (\<lambda>_.
        seq (export_chunks out fd sz (data @ b)) (\<lambda>(all, chs). ret (all, sha b # chs))))"
      by (intro ends_rules step.prems) simp_all
  qed
  then show ?case by (subst export_chunks_unfold) (auto intro: ends_ret)
qed

text \<open>
  How a file is cut: every piece but the last has \<open>CHUNK\<close> bytes, none is empty. The length of
  piece number \<open>n\<close> is what \<open>reconstruct\<close> demands of it (\<open>expected_size\<close>).
\<close>

lemma export_chunks_pieces:
  "export_chunks out fd sz data w = (Inr (all, chs), v) \<Longrightarrow> int (length data) = n * CHUNK \<or> sz \<le> int (length data) \<Longrightarrow>
   \<exists>ps. all = data @ concat ps \<and> chs = map sha ps \<and> cut_at sz n ps \<and> sz \<le> int (length all) \<and>
     (sz \<le> int (length data) \<longrightarrow> ps = [])"
proof (induction data arbitrary: w chs n rule: export_chunks_induct [where sz = sz])
  case (step data)
  show ?case
  proof (cases "sz \<le> int (length data)")
    case True
    with step.prems show ?thesis
      by (subst (asm) export_chunks_unfold) (auto simp: runs intro!: exI [of _ "[]"])
  next
    case False
    with step.prems obtain b w1 w2 chs' where
      b: "read_exact fd (min CHUNK (sz - int (length data))) [] w = (Inr b, w1)" and
      rest: "export_chunks out fd sz (data @ b) w2 = (Inr (all, chs'), v)" and chs: "chs = sha b # chs'"
      by (subst (asm) export_chunks_unfold) (auto simp: runs split: prod.splits)
    have len: "int (length b) = min CHUNK (sz - int (length data))"
      by (rule read_chunk_length [OF False b])
    with False step.prems(2) have "int (length (data @ b)) = (n + 1) * CHUNK \<or> sz \<le> int (length (data @ b))"
      by (auto simp: min_def algebra_simps split: if_splits)
    from step.IH [OF False len rest this] obtain ps where
      ps: "all = (data @ b) @ concat ps" "chs' = map sha ps" "cut_at sz (n + 1) ps" "sz \<le> int (length all)"
      by blast
    have "int (length b) = min CHUNK (sz - n * CHUNK)"
      using len False step.prems(2) by auto
    with ps chs False show ?thesis by (intro exI [of _ "b # ps"]) auto
  qed
qed

section \<open>Objects and the whole export\<close>

lemma only_export_object [only_rules]: "only creates_private (export_object source out tot x)"
  unfolding export_object_def close_both_def sys_read_def
  by (intro only_rules only_private [OF only_open_file] only_private [OF only_read_xattrs]
      only_private [OF only_check_unchanged]) simp_all

lemma only_export_objects [only_rules]: "only creates_private (export_objects source out tot xs)"
  by (induction source out tot xs rule: export_objects.induct; unfold export_objects.simps;
      intro only_rules)

lemma only_export: "only creates_private (export source spec out)"
  unfolding export_def still_closed_def Let_def
  by (intro only_rules only_private [OF only_closed_inventory] only_private [OF only_directory_attributes]
      only_private [OF only_attributes_exact]) simp_all

lemma balanced_export_object:
  assumes os: "steady os"
  shows "balanced os s (export_object source out tot x)"
  unfolding export_object_def
proof (rule fdt_seq [OF fdt_open_file [OF os]], clarify, goal_cases)
  case (1 fd p n st)
  then show ?case
    by (intro fdt_always [where s' = "fd # p # s"] fdt_seq_balanced [OF balanced_export_chunks [OF os]]
        fdt_seq_keeps keeps fdt_seq_check fdt_prod fdt_ret fdt_close_both steady_quiet os refl) auto
qed

lemma balanced_export:
  assumes os: "steady os"
  shows "balanced os s (export source spec out)"
proof -
  have "balanced os s (export_objects source out tot xs)" for tot xs
    by (induction source out tot xs rule: export_objects.induct; unfold export_objects.simps;
        intro balanced_rules balanced_export_object os)
  then show ?thesis
    unfolding export_def still_closed_def Let_def
    by (intro balanced_rules balanced_each os)
qed

lemma ends_export_object:
  assumes os: "steady os"
  shows "ends os os_or_invalid (\<lambda>_. True) (export_object source out tot x)"
  unfolding export_object_def check_unchanged_def close_both_def
  by (intro ends_rules os) simp_all

definition export_raises :: "exn \<Rightarrow> bool" where
  "export_raises e \<longleftrightarrow> os_or_invalid e \<or> e = TypeError"

lemma ends_export:
  assumes os: "steady os"
  shows "ends os export_raises (\<lambda>_. True) (export source spec out)"
proof -
  have up: "ends os export_raises (\<lambda>_. True) m" if "ends os os_or_invalid (\<lambda>_. True) m" for m :: "'a io"
    using that by (rule ends_mono) (auto simp: export_raises_def)
  have objects: "ends os export_raises (\<lambda>_. True) (export_objects source out tot xs)" for tot xs
    by (induction source out tot xs rule: export_objects.induct; unfold export_objects.simps;
        intro ends_rules ends_mono [OF ends_export_object [OF os]]) (auto simp: export_raises_def)
  have spec: "ends os export_raises (\<lambda>_. True) (lift (validate_spec j))" for j
    by (rule raises_lift [OF raises_validate_spec]) (auto simp: export_raises_def invalid_or_type_def)
  have each: "ends os export_raises (\<lambda>_. True) (each (\<lambda>d. seq (directory_attributes source (Some d)) (\<lambda>a. ret (d, a))) ds)" for ds
    by (induction ds) (auto intro!: ends_rules ends_mono [OF ends_directory_attributes [OF os]] simp: export_raises_def)
  have exact: "ends os export_raises (\<lambda>_. True) (attributes_exact source m)" for m
    by (rule up [OF ends_attributes_exact [OF os]])
  show ?thesis
    unfolding export_def still_closed_def Let_def
    by (intro ends_rules spec objects each exact raises_lift [OF raises_validate_manifest]
        ends_mono [OF ends_closed_inventory [OF os]] ends_mono [OF ends_directory_attributes [OF os]]
        ends_mono [OF ends_write_new [OF os]]) (simp_all add: export_raises_def)
qed

section \<open>The exported manifest\<close>

lemma export_item_distinct:
  assumes "export_item i = Inr x" "json_distinct i"
  shows "distinct (map fst (x_items x))" "list_all (\<lambda>(k, v). json_distinct v) (x_items x)"
    "fst ` set (x_items x) = {str ''path'', str ''kind'', str ''mode''}"
proof -
  obtain kvs where "i = JObj kvs" "x_items x = kvs" "fst ` set kvs = {str ''path'', str ''kind'', str ''mode''}"
    using assms(1) by (cases i) (fastforce simp: export_item_def dict_fields_def dict_items_def)+
  with assms(2) show "distinct (map fst (x_items x))" "list_all (\<lambda>(k, v). json_distinct v) (x_items x)"
    "fst ` set (x_items x) = {str ''path'', str ''kind'', str ''mode''}" by simp_all
qed

lemma attributes_json_distinct: "json_distinct (JArr (map xattr_json xs))" "json_distinct (attributes_json a)"
  by (auto simp: attributes_json_def list_all_iff)

lemma object_json_distinct:
  assumes "distinct (map fst (x_items x))" "list_all (\<lambda>(k, v). json_distinct v) (x_items x)"
    "fst ` set (x_items x) = {str ''path'', str ''kind'', str ''mode''}"
  shows "json_distinct (object_json x s xs data chs)"
  using assms attributes_json_distinct
  by (auto simp: object_json_def list_all_iff simp del: json_distinct.simps(1)) (auto simp: list_all_iff)

lemma export_objects_items:
  "export_objects source out tot xs w = (Inr js, v) \<Longrightarrow> j \<in> set js \<Longrightarrow>
   \<exists>x\<in>set xs. \<exists>s a data chs. j = object_json x s a data chs"
proof (induction source out tot xs arbitrary: w js rule: export_objects.induct)
  case (2 source out tot x xs)
  then show ?case
    by (fastforce simp: seq_Inr_iff export_object_def always_Inr_iff pure_Inr_iff split: prod.splits)
qed (simp add: runs)

lemma export_manifest_distinct:
  assumes spec: "validate_spec spec = Inr xs" "json_distinct spec" and objs: "\<forall>j\<in>set objs. json_distinct j"
  shows "json_distinct (export_manifest spec root dirs objs)"
proof -
  obtain kvs where kvs: "spec = JObj kvs" "fst ` set kvs = str ` {''node'', ''cohort'', ''generation'',
      ''trust_epoch'', ''catalog_path'', ''checkpoint_path'', ''pending'', ''objects''}"
    using spec(1) by (auto simp: validate_spec_def dict_fields_def split: json.splits)
  have d: "distinct (map fst kvs)" "list_all (\<lambda>(k, v). json_distinct v) kvs"
    using spec(2) kvs by simp_all
  have keys: "str k \<notin> fst ` set kvs" if "k \<in> {''format'', ''root_attributes'', ''directories''}" for k
    using that kvs(2) by auto
  have "json_distinct (JArr (map directory_json dirs))"
    using attributes_json_distinct by (auto simp: list_all_iff)
  then show ?thesis
    using d objs attributes_json_distinct(2) [of root] keys
    by (force simp: export_manifest_def dict_items_def kvs(1) list_all_iff distinct_map_filter image_iff)
qed

lemma export_returns:
  assumes run: "export source spec out w = (Inr j, v)" and spec: "json_distinct spec"
  obtains m where "manifest_ok m" "validate_manifest j = Inr (m, total_size (m_objects m))"
    "canonical j = canonical (manifest_json m)" "length (canonical j) \<le> LIMIT"
proof -
  from run obtain xs w1 w2 root dirs objs m t where
    xs: "validate_spec spec = Inr xs" and
    objs: "export_objects source out 0 (sort_key x_path xs) w1 = (Inr objs, w2)" and
    j: "j = export_manifest spec root dirs objs" and
    m: "validate_manifest j = Inr (m, t)" "length (canonical j) \<le> LIMIT"
    by (auto simp: export_def Let_def runs split: prod.splits)
  have item: "\<exists>i. export_item i = Inr x \<and> json_distinct i" if "x \<in> set xs" for x
  proof -
    from xs obtain os where os: "getitem spec ''objects'' = Inr (JArr os)" "for_each export_item os = Inr xs"
      by (auto simp: validate_spec_def)
    then have "\<forall>i\<in>set os. json_distinct i"
      using getitem_distinct [OF os(1) spec] by (simp add: list_all_iff)
    with os(2) that show ?thesis
      by (auto simp: for_each_Inr_iff list_all2_conv_all_nth in_set_conv_nth) (metis nth_mem)
  qed
  have "json_distinct jo" if "jo \<in> set objs" for jo
  proof -
    from export_objects_items [OF objs that] obtain x s a data chs where
      x: "x \<in> set xs" and jo: "jo = object_json x s a data chs" by auto
    from item [OF x] obtain i where i: "export_item i = Inr x" "json_distinct i" by blast
    show ?thesis unfolding jo by (rule object_json_distinct [OF export_item_distinct [OF i]])
  qed
  with xs spec have "json_distinct j"
    unfolding j by (intro export_manifest_distinct) auto
  with m have "manifest_ok m \<and> t = total_size (m_objects m) \<and> sort_keys j = sort_keys (manifest_json m)"
    using validate_manifest_iff by blast
  with m that show thesis by (metis canonical_sort_keys)
qed

text \<open>The pieces of an exported file are what \<open>reconstruct\<close> accepts as that object.\<close>

lemma exported_object_good:
  assumes "export_chunks out fd sz [] w = (Inr (data, chs), v)" "e_chunks e = chs" "e_size e = int (length data)"
    "e_sha256 e = sha data" "int (length data) = sz"
  shows "\<exists>ps. e_chunks e = map sha ps \<and> cut_at (e_size e) 0 ps \<and> concat ps = data \<and>
    object_good e (True, concat ps, st)"
proof -
  from export_chunks_pieces [OF assms(1), of 0] obtain ps where
    "data = concat ps" "chs = map sha ps" "cut_at sz 0 ps" by auto
  with assms show ?thesis by (intro exI [of _ ps]) (auto simp: object_good_def)
qed

end
