(* ===== verification/Command.thy ===== *)
theory Command
  imports Export
begin

text \<open>
  \<open>main\<close> of \<open>tools/nia_recovery.py\<close> after \<open>argparse\<close> has read the command line: the commands
  \<open>verify\<close>, \<open>reconstruct\<close> and \<open>inspect\<close>, the exit codes, and the handler at the end of the module.
  The clock is the argument \<open>now\<close>.
\<close>

datatype command = Verify | Rebuild pystr | Inspect pystr

record arguments =
  g_command :: command
  g_anchor :: pystr
  g_trust :: pystr
  g_expected :: pystr
  g_manifest :: "pystr option"
  g_replicas :: "pystr list"

text \<open>What the process prints and the code it exits with.\<close>

datatype outcome = Printed json int | Usage | Failed exn

fun exit_code :: "outcome \<Rightarrow> int" where
  "exit_code (Printed _ n) = n"
| "exit_code Usage = 2"
| "exit_code (Failed _) = 2"

definition verdict_text :: "verdict \<Rightarrow> string" where
  "verdict_text v =
     (case v of Matched \<Rightarrow> ''matched'' | Mismatch \<Rightarrow> ''mismatch'' | Missing \<Rightarrow> ''missing-unreadable-or-unsafe'')"

definition inspection_json :: "inspection \<Rightarrow> json" where
  "inspection_json i = JObj
     [(str ''objects'', JArr (map (\<lambda>(p, v). JObj [(str ''path'', JStr p), (str ''result'', JStr (str (verdict_text v)))])
        (i_objects i))),
      (str ''complete'', JBool (i_complete i)), (str ''inventory_exact'', JBool (i_exact i)),
      (str ''execution_permit'', JBool False), (str ''inventory_scope_only'', JBool True)]"

text \<open>\<open>Directory(x)\<close> resolves its argument against the working directory.\<close>

definition open_argument :: "pystr \<Rightarrow> bool \<Rightarrow> (directory \<Rightarrow> 'a io) \<Rightarrow> 'a io" where
  "open_argument x priv body w = with_dir (absolute (w_cwd w) x) priv body w"

text \<open>The \<open>ExitStack\<close>: entered in order, left in the reverse order.\<close>

fun with_replicas :: "pystr list \<Rightarrow> (directory list \<Rightarrow> 'a io) \<Rightarrow> 'a io" where
  "with_replicas [] body = body []"
| "with_replicas (x # xs) body =
     open_argument x False (\<lambda>d. with_replicas xs (\<lambda>ds. body (d # ds)))"

definition explicit_manifest :: "pystr option \<Rightarrow> bytes option io" where
  "explicit_manifest arg =
     (case arg of
        None \<Rightarrow> ret None
      | Some p \<Rightarrow>
          if p = [] then ret None
          else seq (attempt is_os_error (argument_file p)) (\<lambda>r.
            ret (case r of Inl _ \<Rightarrow> None | Inr b \<Rightarrow> Some b)))"

definition perform ::
  "verifier \<Rightarrow> nat \<Rightarrow> int \<Rightarrow> arguments \<Rightarrow> directory list \<Rightarrow> bytes \<Rightarrow> json \<Rightarrow> bytes \<Rightarrow> (json \<times> bool) io" where
  "perform verify d now a replicas eraw trust raw =
     (case g_command a of
        Inspect root \<Rightarrow>
          open_argument root False (\<lambda>source.
          seq (inspect_original verify d raw eraw trust (g_expected a) now source) (\<lambda>i.
          ret (inspection_json i, i_complete i)))
      | Rebuild cand \<Rightarrow>
          open_argument cand True (\<lambda>c.
          seq (reconstruct verify d raw eraw trust (g_expected a) now replicas (Some c) (\<lambda>_. Inr ())) (\<lambda>r.
          ret (report_json r, r_complete r)))
      | Verify \<Rightarrow>
          seq (reconstruct verify d raw eraw trust (g_expected a) now replicas None (\<lambda>_. Inr ())) (\<lambda>r.
          ret (report_json r, r_complete r)))"

definition main :: "verifier \<Rightarrow> nat \<Rightarrow> int \<Rightarrow> arguments \<Rightarrow> outcome io" where
  "main verify d now a =
     seq (sys_int Geteuid) (\<lambda>uid.
     if uid = 0 then ret Usage
     else with_replicas (g_replicas a) (\<lambda>replicas.
       seq (argument_file (g_anchor a)) (\<lambda>eraw.
       seq (argument_file (g_trust a)) (\<lambda>traw.
       seq (lift (decode d traw)) (\<lambda>trust.
       seq (explicit_manifest (g_manifest a)) (\<lambda>explicit.
       seq (find_manifest d replicas eraw explicit) (\<lambda>raw.
       seq (perform verify d now a replicas eraw trust raw) (\<lambda>(j, complete).
       ret (Printed j (if complete then 0 else 2))))))))))"

text \<open>\<open>try: raise SystemExit(main()) except (OSError, ValueError)\<close>\<close>

definition cli :: "verifier \<Rightarrow> nat \<Rightarrow> int \<Rightarrow> arguments \<Rightarrow> outcome io" where
  "cli verify d now a =
     catch (\<lambda>e. is_os_error e \<or> is_value_error e) (main verify d now a) (\<lambda>e. ret (Failed e))"

end
