(* ===== verification/Command_Spec.thy ===== *)
theory Command_Spec
  imports Command Export_Spec
begin

text \<open>
  What the command line promises: a privileged user does nothing, only \<open>reconstruct\<close> can change a file
  system, every run closes what it opened, the exit code is 0 only for a complete report on an
  authenticated manifest, and one exception only can leave the process uncaught.
\<close>

section \<open>Programs that look at the world first\<close>

lemma only_world: "(\<And>x. only C (f x)) \<Longrightarrow> only C (\<lambda>w. f (g w) w)"
  unfolding only_def by blast

lemma fdt_world: "(\<And>x. fdt os s e (f x) G) \<Longrightarrow> fdt os s e (\<lambda>w. f (g w) w) G"
  unfolding fdt_def by blast

lemma ends_world: "(\<And>x. ends os P Q (f x)) \<Longrightarrow> ends os P Q (\<lambda>w. f (g w) w)"
  unfolding ends_def by blast

section \<open>Calls\<close>

lemma only_with_dir:
  assumes "\<And>c. observes c \<Longrightarrow> C c" "\<And>d. only C (body d)"
  shows "only C (with_dir path priv body)"
  unfolding with_dir_def dir_close_def
  by (intro only_rules only_mono [OF only_dir_open] assms) simp_all

lemma only_argument_file: "only observes (argument_file p)"
proof -
  have "only observes (\<lambda>w. (\<lambda>cwd. let f = absolute cwd p; dir = if length f \<le> 1 then f else butlast f;
      name = if length f \<le> 1 then [] else last f in with_dir dir False (\<lambda>d. dir_read d name (int LIMIT))) (w_cwd w) w)"
    by (rule only_world) (auto simp: Let_def intro!: only_with_dir only_rules)
  moreover have "argument_file p = (\<lambda>w. (\<lambda>cwd. let f = absolute cwd p; dir = if length f \<le> 1 then f else butlast f;
      name = if length f \<le> 1 then [] else last f in with_dir dir False (\<lambda>d. dir_read d name (int LIMIT))) (w_cwd w) w)"
    by (simp add: fun_eq_iff argument_file_def Let_def)
  ultimately show ?thesis by simp
qed

lemma only_open_argument:
  assumes "\<And>c. observes c \<Longrightarrow> C c" "\<And>d. only C (body d)"
  shows "only C (open_argument x priv body)"
  unfolding open_argument_def
  by (rule only_world [where f = "\<lambda>cwd. with_dir (absolute cwd x) priv body" and g = w_cwd])
    (intro only_with_dir assms)

lemma only_with_replicas:
  assumes "\<And>c. observes c \<Longrightarrow> C c" "\<And>ds. only C (body ds)"
  shows "only C (with_replicas xs body)"
  using assms(2)
  by (induction xs arbitrary: body) (auto intro!: only_open_argument assms(1))

definition permitted :: "command \<Rightarrow> call \<Rightarrow> bool" where
  "permitted cmd c \<longleftrightarrow> (case cmd of Rebuild _ \<Rightarrow> creates_private c | _ \<Rightarrow> observes c)"

lemma permitted_observe: "observes c \<Longrightarrow> permitted cmd c"
  by (cases cmd) (simp_all add: permitted_def observes_private)

lemma permitted_eq [simp]:
  "permitted Verify = observes" "permitted (Inspect root) = observes" "permitted (Rebuild cand) = creates_private"
  by (auto simp: permitted_def fun_eq_iff)

lemmas only_permitted = only_mono [OF _ permitted_observe]

lemma only_perform: "only (permitted (g_command a)) (perform verify d now a rs eraw trust raw)"
proof (cases "g_command a")
  case Verify
  have "only observes (reconstruct verify d raw eraw trust (g_expected a) now rs None f)" for f
    by (rule only_mono [OF only_reconstruct]) (simp add: allowed_def)
  with Verify show ?thesis
    by (auto simp: perform_def intro!: only_rules)
next
  case (Rebuild cand)
  have "only creates_private (reconstruct verify d raw eraw trust (g_expected a) now rs (Some c) f)" for c f
    by (rule only_mono [OF only_reconstruct]) (simp add: allowed_def)
  with Rebuild show ?thesis
    by (auto simp: perform_def intro!: only_open_argument only_rules observes_private)
next
  case (Inspect root)
  then show ?thesis
    by (auto simp: perform_def intro!: only_open_argument only_rules only_inspect)
qed

lemma only_cli: "only (permitted (g_command a)) (cli verify d now a)"
proof -
  have "only (permitted (g_command a)) (explicit_manifest arg)" for arg
    unfolding explicit_manifest_def by (cases arg) (auto intro!: only_permitted only_rules only_argument_file)
  then show ?thesis
    unfolding cli_def main_def
    by (intro only_rules only_with_replicas only_permitted [OF only_argument_file] only_perform
        only_permitted [OF only_find_manifest] permitted_observe) simp_all
qed

section \<open>Descriptors\<close>

lemma balanced_open_argument:
  assumes "steady os" "\<And>d t. balanced os t (body d)"
  shows "balanced os s (open_argument x priv body)"
  unfolding open_argument_def
  by (rule fdt_world [where f = "\<lambda>cwd. with_dir (absolute cwd x) priv body" and g = w_cwd])
    (intro balanced_with_dir steady_quiet assms)

lemma balanced_with_replicas:
  assumes "steady os" "\<And>ds t. balanced os t (body ds)"
  shows "balanced os s (with_replicas xs body)"
  using assms(2)
  by (induction xs arbitrary: body s) (auto intro!: balanced_open_argument assms(1))

lemma balanced_perform:
  "steady os \<Longrightarrow> balanced os s (perform verify d now a rs eraw trust raw)"
  unfolding perform_def
  by (cases "g_command a")
    (auto intro!: fdt_seq_balanced [OF balanced_reconstruct] fdt_seq_balanced [OF balanced_inspect]
      balanced_open_argument fdt_ret)

lemma balanced_cli:
  assumes os: "steady os"
  shows "balanced os s (cli verify d now a)"
proof -
  have "balanced os s (explicit_manifest arg)" for arg s
    unfolding explicit_manifest_def
    by (intro balanced_rules balanced_argument_file os)
  then show ?thesis
    unfolding cli_def main_def
    by (intro fdt_catch fdt_seq_keeps keeps refl fdt_if fdt_ret balanced_with_replicas os
        fdt_seq_balanced [OF balanced_argument_file] fdt_seq_balanced [OF balanced_find_manifest]
        fdt_seq_balanced [OF balanced_perform] fdt_seq_balanced fdt_prod)
qed

section \<open>Exceptions\<close>

lemma ends_dir_open: "steady os \<Longrightarrow> ends os os_or_invalid (\<lambda>_. True) (dir_open path priv)"
proof -
  assume os: "steady os"
  have "ends os os_or_invalid (\<lambda>_. True) (descend path priv fd parts)" for fd parts
    by (induction path priv fd parts rule: descend.induct; unfold descend.simps private_check_def;
        intro ends_rules os) simp_all
  then show ?thesis
    unfolding dir_open_def by (intro ends_rules) simp_all
qed

definition may_leave :: "exn \<Rightarrow> bool" where
  "may_leave e \<longleftrightarrow> is_os_error e \<or> is_value_error e \<or> e = AttributeError"

lemma may_leave_simps [simp]:
  "os_or_invalid e \<Longrightarrow> may_leave e" "is_os_error e \<Longrightarrow> may_leave e" "is_value_error e \<Longrightarrow> may_leave e"
  by (auto simp: may_leave_def os_or_invalid_def dest: is_value_error_invalid)

lemma ends_with_dir:
  assumes "steady os" "\<And>d. ends os may_leave (\<lambda>_. True) (body d)"
  shows "ends os may_leave (\<lambda>_. True) (with_dir path priv body)"
  unfolding with_dir_def dir_close_def
  by (intro ends_rules ends_mono [OF ends_dir_open] assms) simp_all

lemma ends_open_argument:
  assumes "steady os" "\<And>d. ends os may_leave (\<lambda>_. True) (body d)"
  shows "ends os may_leave (\<lambda>_. True) (open_argument x priv body)"
  unfolding open_argument_def
  by (rule ends_world [where f = "\<lambda>cwd. with_dir (absolute cwd x) priv body" and g = w_cwd])
    (intro ends_with_dir assms)

lemma ends_with_replicas:
  assumes "steady os" "\<And>ds. ends os may_leave (\<lambda>_. True) (body ds)"
  shows "ends os may_leave (\<lambda>_. True) (with_replicas xs body)"
  using assms(2)
  by (induction xs arbitrary: body) (auto intro!: ends_open_argument assms(1))

lemma ends_argument_file:
  assumes "steady os"
  shows "ends os may_leave (\<lambda>_. True) (argument_file p)"
proof -
  have "ends os may_leave (\<lambda>_. True) (with_dir dir False (\<lambda>d. dir_read d name (int LIMIT)))" for dir name
    by (intro ends_with_dir ends_mono [OF ends_dir_read] assms) simp_all
  then show ?thesis unfolding ends_def argument_file_def Let_def by blast
qed

lemma ends_reconstruct:
  assumes os: "steady os"
  shows "ends os may_leave (\<lambda>_. True)
    (reconstruct verify d mraw eraw trust expected now rs out (\<lambda>_. Inr ()))"
proof -
  have ok: "ends os may_leave (\<lambda>_. True) (lift (Inr ()))"
    by (rule ends_lift) simp_all
  have up: "ends os may_leave (\<lambda>_. True) m" if "ends os os_or_invalid (\<lambda>_. True) m" for m :: "'a io"
    using that by (rule ends_mono) simp_all
  have wr: "ends os may_leave (\<lambda>_. True) (write_new c p b)" for c p b
    by (rule up [OF ends_write_new [OF os]])
  have quar: "ends os may_leave (\<lambda>_. True) (quarantine out b st)" for b st
    unfolding quarantine_def
    by (intro ends_rules os ends_mono [OF ends_write_new [OF os]] up [OF ends_dir_read [OF os]])
      (auto simp: may_leave_def os_or_invalid_def is_value_error_invalid)
  have tries: "ends os may_leave (\<lambda>_. True) (try_replicas out ch sz ri rs acc)" for ch sz ri rs acc
    by (induction rs arbitrary: ri acc; unfold try_replicas.simps try_replica_def judge_copy_def;
        intro ends_rules os ends_mono [OF ends_caught] quar) simp_all
  have loop: "ends os may_leave (\<lambda>_. True) (chunk_loop (\<lambda>_. Inr ()) out fd rs sz n chs data st)" for fd sz n chs data st
    by (induction chs arbitrary: n data st; unfold chunk_loop.simps emit_chunk_def;
        intro ends_rules tries up [OF ends_write_all] ok) simp_all
  have object: "ends os may_leave (\<lambda>_. True) (rebuild_object (\<lambda>_. Inr ()) out rs e st)" for e st
    unfolding rebuild_object_def close_both_def
    by (cases out) (use loop in \<open>auto intro!: ends_rules up [OF ends_create [OF os]] ok\<close>)
  have objects: "ends os may_leave (\<lambda>_. True) (rebuild_objects (\<lambda>_. Inr ()) out rs es st)" for es st
    by (induction es arbitrary: st; unfold rebuild_objects.simps; intro ends_rules object) simp_all
  have prep: "ends os may_leave (\<lambda>_. True) (prepare (\<lambda>_. Inr ()) rs c m mraw eraw expected)" for c m
    unfolding prepare_def
    by (intro ends_rules wr ok raises_lift [OF raises_validate_manifest]) (simp_all add: may_leave_def is_value_error_invalid)
  have fin: "ends os may_leave (\<lambda>_. True) (finish (\<lambda>_. Inr ()) c expected r)" for c r
    unfolding finish_def by (intro ends_rules wr ok) simp_all
  show ?thesis
    unfolding reconstruct_def Let_def
    by (intro ends_rules objects prep fin raises_lift [OF raises_authenticate]) (simp_all add: may_leave_def)
qed

lemma raises_anchored_hash: "raises may_leave (anchored_hash d eraw)"
proof -
  have val: "raises may_leave r" if "raises is_value_error r" for r :: "'a res"
    using that by (rule raises_mono) simp
  have invalid: "raises may_leave r" if "raises is_invalid r" for r :: "'a res"
    using that by (rule raises_mono) (simp add: is_value_error_invalid)
  have get: "raises may_leave (json_get a k)" for a k
    by (auto simp: json_get_def raises_def may_leave_def split: json.splits)
  show ?thesis
    unfolding anchored_hash_def
    by (intro raises_rbind val [OF raises_decode] invalid [OF raises_dict_fields] invalid [OF raises_digest] get)
      (erule raises_item, simp, intro raises_rbind get invalid [OF raises_digest])
qed

lemma ends_find_manifest:
  assumes os: "steady os"
  shows "ends os may_leave (\<lambda>_. True) (find_manifest d rs eraw explicit)"
proof -
  have "ends os may_leave (\<lambda>_. True) (search_replicas h rs)" for h rs
    by (induction rs; unfold search_replicas.simps;
        intro ends_rules os ends_mono [OF ends_caught]) (simp_all add: may_leave_def)
  then show ?thesis
    unfolding find_manifest_def
    by (intro ends_rules raises_lift [OF raises_anchored_hash]) simp_all
qed

lemma ends_main:
  assumes os: "steady os"
  shows "ends os may_leave (\<lambda>_. True) (main verify d now a)"
proof -
  have explicit: "ends os may_leave (\<lambda>_. True) (explicit_manifest arg)" for arg
  proof -
    have "ends os may_leave (\<lambda>_. True) (attempt is_os_error (argument_file p))" for p
      by (rule ends_mono [OF ends_attempt [OF ends_mono [OF ends_argument_file [OF os]]]]) auto
    then show ?thesis unfolding explicit_manifest_def by (intro ends_rules) simp_all
  qed
  have run: "ends os may_leave (\<lambda>_. True) (perform verify d now a rs eraw trust raw)" for rs eraw trust raw
    unfolding perform_def
    by (cases "g_command a")
      (auto intro!: ends_rules ends_open_argument os ends_reconstruct ends_mono [OF ends_inspect [OF os]])
  show ?thesis
    unfolding main_def
    by (intro ends_rules ends_with_replicas os ends_argument_file explicit ends_find_manifest run
        raises_lift [OF raises_decode]) simp_all
qed

lemma ends_cli: "steady os \<Longrightarrow> ends os (\<lambda>e. e = AttributeError) (\<lambda>_. True) (cli verify d now a)"
  unfolding cli_def
  by (intro ends_catch ends_ret ends_mono [OF ends_main]) (auto simp: may_leave_def)

section \<open>Exit codes\<close>

text \<open>What code 0 stands for: a complete report, or a complete inspection, of an authenticated manifest.\<close>

definition accomplished :: "arguments \<Rightarrow> manifest \<Rightarrow> json \<Rightarrow> bool" where
  "accomplished a m j \<longleftrightarrow>
     (case g_command a of
        Inspect _ \<Rightarrow> \<exists>i. j = inspection_json i \<and> i_exact i \<and> i_complete i \<and>
          map fst (i_objects i) = map e_path (m_objects m) \<and> (\<forall>(p, v)\<in>set (i_objects i). v = Matched)
      | _ \<Rightarrow> \<exists>r. j = report_json r \<and> r_complete r \<and>
          map fst (r_objects r) = map e_path (m_objects m) \<and> (\<forall>(p, good)\<in>set (r_objects r). good))"

lemma open_argument_Inr: "open_argument x priv body w = (Inr y, v) \<Longrightarrow> \<exists>c u u'. body c u = (Inr y, u')"
  by (auto simp: open_argument_def with_dir_def runs)

lemma with_replicas_Inr: "with_replicas xs body w = (Inr y, v) \<Longrightarrow> \<exists>ds u u'. body ds u = (Inr y, u')"
proof (induction xs arbitrary: body w v)
  case (Cons x xs)
  then obtain c u u' where "with_replicas xs (\<lambda>ds. body (c # ds)) u = (Inr y, u')"
    by (auto dest: open_argument_Inr)
  then show ?case using Cons.IH by blast
next
  case Nil
  then show ?case by (metis with_replicas.simps(1))
qed

lemma each_items:
  "each (\<lambda>e. seq (f e) (\<lambda>v. ret (g e, v))) es w = (Inr items, v) \<Longrightarrow> map fst items = map g es"
  by (induction es arbitrary: w items) (auto simp: runs)

lemma inspect_Inr:
  assumes "inspect_original verify d mraw eraw trust expected now source w = (Inr i, v)"
  obtains m an where "authenticate verify d mraw eraw trust expected now = Inr (m, an)"
    "map fst (i_objects i) = map e_path (m_objects m)"
    "i_complete i \<longleftrightarrow> i_exact i \<and> (\<forall>(p, v)\<in>set (i_objects i). v = Matched)"
  using assms by (auto simp: inspect_original_def runs Let_def split: prod.splits dest!: each_items)

lemma perform_accomplished:
  assumes "perform verify d now a rs eraw trust raw w = (Inr (j, True), v)"
  shows "\<exists>m an. authenticate verify d raw eraw trust (g_expected a) now = Inr (m, an) \<and> accomplished a m j"
proof (cases "g_command a")
  case (Inspect root)
  with assms obtain source u u' i where
    "inspect_original verify d raw eraw trust (g_expected a) now source u = (Inr i, u')"
    "j = inspection_json i" "i_complete i"
    by (auto simp: perform_def runs dest!: open_argument_Inr)
  then show ?thesis
    by (elim inspect_Inr) (auto simp: accomplished_def Inspect)
next
  case (Rebuild cand)
  with assms obtain c u u' r where
    "reconstruct verify d raw eraw trust (g_expected a) now rs (Some c) (\<lambda>_. Inr ()) u = (Inr r, u')"
    "j = report_json r" "r_complete r"
    by (auto simp: perform_def runs dest!: open_argument_Inr)
  with reconstruct_report [OF this(1)] show ?thesis by (auto simp: accomplished_def Rebuild)
next
  case Verify
  with assms obtain u' r where
    "reconstruct verify d raw eraw trust (g_expected a) now rs None (\<lambda>_. Inr ()) w = (Inr r, u')"
    "j = report_json r" "r_complete r"
    by (auto simp: perform_def runs)
  with reconstruct_report [OF this(1)] show ?thesis by (auto simp: accomplished_def Verify)
qed

lemma cli_zero:
  assumes run: "cli verify d now a w = (Inr res, v)" and zero: "exit_code res = 0"
  shows "\<exists>j mraw eraw trust m an. res = Printed j 0 \<and>
    authenticate verify d mraw eraw trust (g_expected a) now = Inr (m, an) \<and> accomplished a m j"
proof -
  from run zero have "main verify d now a w = (Inr res, v)"
    by (auto simp: cli_def runs)
  with zero obtain rs eraw trust raw j u u' where
    "perform verify d now a rs eraw trust raw u = (Inr (j, True), u')" "res = Printed j 0"
    by (auto simp: main_def runs split: if_splits dest!: with_replicas_Inr)
  with perform_accomplished [OF this(1)] show ?thesis by blast
qed

text \<open>A privileged user gets the usage message; the question who it is is the only call.\<close>

lemma cli_privileged:
  assumes "answer_of Geteuid w = Is_int 0"
  shows "cli verify d now a w = (Inr Usage, logged Geteuid w)"
  using assms by (simp add: cli_def main_def catch_def seq_def sys_int_def ret_def)

end
