(* ===== verification/Guard.thy ===== *)
theory Guard
  imports Directory
begin

unbundle bit_operations_syntax

text \<open>
  \<open>ci/proof-guard.py\<close>: one proof command at a time, under per-process limits, with its session
  sampled until it ends or has to be stopped, and every process of it reaped. Times are integers in
  nanoseconds. Exceptions of the handler clauses are told apart by their errno.
\<close>

section \<open>Constants\<close>

definition MIB :: int where "MIB = 1024 * 1024"
definition ADDRESS_MIB :: int where "ADDRESS_MIB = 1536"
definition SESSION_MIB :: int where "SESSION_MIB = 2048"
definition RESERVE_MIB :: int where "RESERVE_MIB = 2048"
definition SECOND :: int where "SECOND = 1000000000"
definition SECONDS :: int where "SECONDS = 3600 * SECOND"
definition INTERVAL :: int where "INTERVAL = 100000000"

section \<open>Calls\<close>

datatype gcall =
    Clock
  | Sleep int
  | Meminfo
  | Proc_names
  | Proc_stat pystr
  | Children
  | Page_size
  | Euid
  | Open_lock pystr
  | Lock_stat nat
  | Flock nat
  | Close_lock nat
  | Getrlimit nat
  | Setrlimit nat int
  | Nice int
  | Exec "pystr list"
  | Sigchld_default
  | Get_subreaper
  | Set_subreaper int
  | Set_handler nat
  | Restore_handler nat int
  | Popen int int "pystr list"
  | Peek int
  | Killpg int
  | Kill int
  | Reap int
  | Wait_child int
  | Signal_seen

text \<open>\<open>Undecodable\<close> is a text file that is not in the locale's encoding, \<open>Expired\<close> a wait that ran out.\<close>

datatype ganswer =
    Errno nat
  | Fine
  | Num int
  | Said bool
  | Text pystr
  | Names "pystr list"
  | Inode int int int
  | Undecodable
  | Expired

type_synonym 'a guarded = "(gcall, ganswer, 'a) prog"

definition g_call :: "gcall \<Rightarrow> (ganswer \<Rightarrow> 'a res) \<Rightarrow> 'a guarded" where
  "g_call c f w =
     (case answer_of c w of
        Errno n \<Rightarrow> Inl (os_error n)
      | Undecodable \<Rightarrow> Inl ValueError
      | Expired \<Rightarrow> Inl TimeoutExpired
      | r \<Rightarrow> f r, logged c w)"

definition g_unit :: "gcall \<Rightarrow> unit guarded" where
  "g_unit c = g_call c (\<lambda>_. Inr ())"

definition g_num :: "gcall \<Rightarrow> int guarded" where
  "g_num c = g_call c (\<lambda>r. case r of Num i \<Rightarrow> Inr i | _ \<Rightarrow> Inl (OSError 0))"

definition g_said :: "gcall \<Rightarrow> bool guarded" where
  "g_said c = g_call c (\<lambda>r. case r of Said b \<Rightarrow> Inr b | _ \<Rightarrow> Inl (OSError 0))"

definition g_text :: "gcall \<Rightarrow> pystr guarded" where
  "g_text c = g_call c (\<lambda>r. case r of Text t \<Rightarrow> Inr t | _ \<Rightarrow> Inl (OSError 0))"

definition g_names :: "gcall \<Rightarrow> pystr list guarded" where
  "g_names c = g_call c (\<lambda>r. case r of Names ns \<Rightarrow> Inr ns | _ \<Rightarrow> Inl (OSError 0))"

text \<open>
  \<open>time.monotonic()\<close> never goes back, and \<open>time.sleep(d)\<close> returns \<open>d\<close> later at the earliest. Both are
  kept in \<open>w_time\<close>: the environment only chooses how much later it is.
\<close>

definition clock :: "int guarded" where
  "clock w =
     (let t = (case answer_of Clock w of Num i \<Rightarrow> max i (w_time w) | _ \<Rightarrow> w_time w)
      in (Inr t, (logged Clock w)\<lparr>w_time := t\<rparr>))"

definition sleep :: "int \<Rightarrow> unit guarded" where
  "sleep d w =
     (let late = (case answer_of (Sleep d) w of Num i \<Rightarrow> max i 0 | _ \<Rightarrow> 0)
      in (Inr (), (logged (Sleep d) w)\<lparr>w_time := w_time w + d + late\<rparr>))"

section \<open>Text of procfs\<close>

definition int_of :: "pystr \<Rightarrow> int res" where
  "int_of s = (case py_int s of None \<Rightarrow> Inl ValueError | Some i \<Rightarrow> Inr i)"

definition field :: "'a list \<Rightarrow> nat \<Rightarrow> 'a res" where
  "field xs n = (if n < length xs then Inr (xs ! n) else Inl IndexError)"

section \<open>Observations\<close>

definition mem_available :: "pystr \<Rightarrow> int res" where
  "mem_available text =
     (case find (\<lambda>l. take 13 l = str ''MemAvailable:'') (split_lines [] text) of
        None \<Rightarrow> Inl (RuntimeError ''MemAvailable is unavailable'')
      | Some l \<Rightarrow> rbind (field (split_space [] l) 1) (\<lambda>x. rbind (int_of x) (\<lambda>i. Inr (i * 1024))))"

definition available_bytes :: "int guarded" where
  "available_bytes = seq (g_text Meminfo) (\<lambda>t. lift (mem_available t))"

text \<open>\<open>text.rsplit(')', 1)[1]\<close>.\<close>

definition after_paren :: "pystr \<Rightarrow> pystr res" where
  "after_paren t = (if 41 \<in> set t then Inr (rev (takeWhile (\<lambda>c. c \<noteq> 41) (rev t))) else Inl IndexError)"

definition stat_pages :: "int \<Rightarrow> pystr \<Rightarrow> int res" where
  "stat_pages session text =
     rbind (after_paren text) (\<lambda>r.
     let fs = split_space [] r in
     rbind (field fs 3) (\<lambda>x. rbind (int_of x) (\<lambda>s.
     if s \<noteq> session then Inr 0
     else rbind (field fs 21) (\<lambda>y. rbind (int_of y) (\<lambda>p. Inr (max 0 p))))))"

definition is_gone :: "exn \<Rightarrow> bool" where
  "is_gone e \<longleftrightarrow> e = OSError 2 \<or> e = OSError 3"

fun sum_pages :: "int \<Rightarrow> pystr list \<Rightarrow> int guarded" where
  "sum_pages session [] = ret 0"
| "sum_pages session (n # ns) =
     (if n = [] \<or> \<not> list_all is_digit n then sum_pages session ns
      else seq (attempt is_gone (seq (g_text (Proc_stat n)) (\<lambda>t. lift (stat_pages session t)))) (\<lambda>r.
        seq (sum_pages session ns) (\<lambda>rest.
        ret (case r of Inl _ \<Rightarrow> rest | Inr p \<Rightarrow> p + rest))))"

definition session_rss :: "int \<Rightarrow> int guarded" where
  "session_rss session =
     seq (g_names Proc_names) (\<lambda>ns.
     seq (sum_pages session ns) (\<lambda>pages.
     seq (g_num Page_size) (\<lambda>size. ret (pages * size))))"

definition direct_children :: "int list guarded" where
  "direct_children = seq (g_text Children) (\<lambda>t. lift (for_each int_of (split_space [] t)))"

definition subreaper :: "int option \<Rightarrow> int guarded" where
  "subreaper v =
     seq (g_num Get_subreaper) (\<lambda>previous.
     case v of
       None \<Rightarrow> ret previous
     | Some i \<Rightarrow> seq (g_unit (Set_subreaper i)) (\<lambda>_. ret previous))"

section \<open>The lock\<close>

definition open_lock :: "pystr \<Rightarrow> nat guarded" where
  "open_lock path w =
     (case answer_of (Open_lock path) w of
        Errno n \<Rightarrow> (Inl (os_error n), logged (Open_lock path) w)
      | _ \<Rightarrow> let fd = fresh_fd (w_fds w)
             in (Inr fd, (logged (Open_lock path) w)\<lparr>w_fds := fd # w_fds w\<rparr>))"

definition close_lock :: "nat \<Rightarrow> unit guarded" where
  "close_lock fd w =
     (let w' = (logged (Close_lock fd) w)\<lparr>w_fds := remove1 fd (w_fds w)\<rparr>
      in case answer_of (Close_lock fd) w of Errno n \<Rightarrow> (Inl (os_error n), w') | _ \<Rightarrow> (Inr (), w'))"

definition lock_stat :: "nat \<Rightarrow> (int \<times> int \<times> int) guarded" where
  "lock_stat fd = g_call (Lock_stat fd) (\<lambda>r. case r of Inode m u l \<Rightarrow> Inr (m, u, l) | _ \<Rightarrow> Inl (OSError 0))"

definition not_private :: exn where
  "not_private = RuntimeError ''proof lock must be a private regular file owned by this user''"

definition acquire_lock :: "nat guarded" where
  "acquire_lock =
     seq (g_num Euid) (\<lambda>uid.
     seq (open_lock (str ''/tmp/niaos-proof-'' @ dec_int uid @ str ''.lock'')) (\<lambda>fd.
     on_error
       (seq (lock_stat fd) (\<lambda>(mode, owner, links).
        seq (check (S_ISREG mode) not_private) (\<lambda>_.
        seq (g_num Euid) (\<lambda>uid'.
        seq (check (owner = uid' \<and> mode AND 63 = 0 \<and> links = 1) not_private) (\<lambda>_.
        seq (g_unit (Flock fd)) (\<lambda>_.
        ret fd))))))
       (close_lock fd)))"

section \<open>The child\<close>

definition RLIMIT_CPU :: nat where "RLIMIT_CPU = 0"
definition RLIMIT_CORE :: nat where "RLIMIT_CORE = 4"
definition RLIMIT_AS :: nat where "RLIMIT_AS = 9"

text \<open>\<open>RLIM_INFINITY\<close> is -1 in Python.\<close>

definition lower_limit :: "nat \<Rightarrow> int \<Rightarrow> unit guarded" where
  "lower_limit kind v =
     seq (g_num (Getrlimit kind)) (\<lambda>hard.
     g_unit (Setrlimit kind (if hard \<noteq> - 1 then min v hard else v)))"

text \<open>\<open>execvp\<close> does not return when it succeeds: the last call is the end of this program.\<close>

definition child_main :: "pystr list \<Rightarrow> unit guarded" where
  "child_main args =
     seq (lift (rbind (field args 0) int_of)) (\<lambda>memory.
     seq (lift (rbind (field args 1) int_of)) (\<lambda>cpu.
     seq (lower_limit RLIMIT_AS (memory * MIB)) (\<lambda>_.
     seq (lower_limit RLIMIT_CORE 0) (\<lambda>_.
     seq (lower_limit RLIMIT_CPU cpu) (\<lambda>_.
     seq (g_unit (Nice 15)) (\<lambda>_.
     seq (lift (field args 2)) (\<lambda>_.
     g_unit (Exec (drop 2 args)))))))))"

section \<open>Stopping and reaping\<close>

text \<open>Control flow applied to the machine, so that the function package sees into it.\<close>

definition branch :: "bool \<Rightarrow> ('q, 'r, 'a) prog \<Rightarrow> ('q, 'r, 'a) prog \<Rightarrow> ('q, 'r, 'a) prog" where
  "branch b m n w = (if b then m w else n w)"

lemma branch_cong [fundef_cong]:
  "b = b' \<Longrightarrow> (b' \<Longrightarrow> m w = m' w) \<Longrightarrow> (\<not> b' \<Longrightarrow> n w = n' w) \<Longrightarrow> branch b m n w = branch b' m' n' w"
  by (simp add: branch_def)

definition no_process :: "exn \<Rightarrow> bool" where
  "no_process e \<longleftrightarrow> e = OSError 3"

fun kill_others :: "int \<Rightarrow> int list \<Rightarrow> unit guarded" where
  "kill_others child [] = ret ()"
| "kill_others child (pid # pids) =
     (if pid = child then kill_others child pids
      else seq (catch no_process (g_unit (Kill pid)) (\<lambda>_. ret ())) (\<lambda>_.
        seq (g_unit (Reap pid)) (\<lambda>_. kill_others child pids)))"

text \<open>\<open>observed is not None and direct_children() == [child.pid]\<close>\<close>

definition all_reaped :: "int \<Rightarrow> bool guarded" where
  "all_reaped child =
     seq (g_said (Peek child)) (\<lambda>observed.
     if observed then seq direct_children (\<lambda>pids. ret (pids = [child])) else ret False)"

definition reap_round :: "int \<Rightarrow> bool guarded" where
  "reap_round child =
     seq direct_children (\<lambda>pids. seq (kill_others child pids) (\<lambda>_. all_reaped child))"

text \<open>Time does not go back, so a loop that sleeps before every further round ends.\<close>

definition later :: "'a guarded \<Rightarrow> bool" where
  "later m \<longleftrightarrow> (\<forall>w. w_time w \<le> w_time (snd (m w)))"

named_theorems later_rules

lemma laterD: "later m \<Longrightarrow> m w = (r, v) \<Longrightarrow> w_time w \<le> w_time v"
  unfolding later_def by (metis snd_conv)

lemma later_call [later_rules]: "later (g_call c f)" "later (g_unit c)" "later (g_num c)" "later (g_said c)"
    "later (g_text c)" "later (g_names c)"
  by (auto simp: later_def g_unit_def g_num_def g_said_def g_text_def g_names_def g_call_def logged_def)

lemma later_pure [later_rules]: "later (ret x)" "later (raise e)" "later (lift r)" "later (check b e)"
  by (auto simp: later_def ret_def raise_def lift_def check_def)

lemma later_seq [later_rules]: "later m \<Longrightarrow> (\<And>x. later (f x)) \<Longrightarrow> later (seq m f)"
  unfolding later_def seq_def
  by (auto split: prod.splits sum.splits) (metis order_trans snd_conv)+

lemma later_catch [later_rules]: "later m \<Longrightarrow> (\<And>e. later (h e)) \<Longrightarrow> later (catch P m h)"
  unfolding later_def catch_def
  by (auto split: prod.splits sum.splits) (metis order_trans snd_conv)+

lemma later_attempt [later_rules]: "later m \<Longrightarrow> later (attempt P m)"
  unfolding attempt_def by (intro later_rules)

lemma later_if [later_rules]: "(b \<Longrightarrow> later m) \<Longrightarrow> (\<not> b \<Longrightarrow> later n) \<Longrightarrow> later (if b then m else n)"
  by simp

lemma later_option [later_rules]:
  "(\<And>x. later (f x)) \<Longrightarrow> later m \<Longrightarrow> later (case r of None \<Rightarrow> m | Some x \<Rightarrow> f x)"
  by (cases r) simp_all

lemma later_observe [later_rules]:
  "later available_bytes" "later direct_children" "later (session_rss s)" "later (subreaper v)"
proof -
  have "later (sum_pages s ns)" for ns
    by (induction ns) (auto intro!: later_rules)
  then show "later available_bytes" "later direct_children" "later (session_rss s)" "later (subreaper v)"
    unfolding available_bytes_def direct_children_def session_rss_def subreaper_def
    by (auto intro!: later_rules)
qed

lemma later_reap_round [later_rules]: "later (reap_round child)"
proof -
  have "later (kill_others child pids)" for pids
    by (induction pids) (auto intro!: later_rules)
  then show ?thesis unfolding reap_round_def all_reaped_def by (intro later_rules)
qed

lemma clock_time: "clock w = (r, v) \<Longrightarrow> r = Inr (w_time v) \<and> w_time w \<le> w_time v"
  by (auto simp: clock_def Let_def split: ganswer.splits)

lemma sleep_time: "sleep d w = (r, v) \<Longrightarrow> r = Inr () \<and> w_time w + d \<le> w_time v"
  by (auto simp: sleep_def Let_def split: ganswer.splits)

function reap_loop :: "int \<Rightarrow> int \<Rightarrow> int guarded" where
  "reap_loop child deadline w =
     seq clock (\<lambda>t.
       branch (t < deadline)
         (seq (reap_round child) (\<lambda>alone.
            branch alone (g_num (Wait_child child))
              (seq (sleep 10000000) (\<lambda>_. reap_loop child deadline))))
         (raise (RuntimeError ''tool descendants were not all reaped within cleanup deadline''))) w"
  by pat_completeness auto
termination
proof (relation "measure (\<lambda>(child, deadline, w). nat (deadline - w_time w))")
  fix child deadline w t w1 alone w2 u w3
  assume "clock w = (Inr t, w1)" "t < deadline" "reap_round child w1 = (Inr alone, w2)"
    "sleep 10000000 w2 = (Inr u, w3)"
  then show "((child, deadline, w3), child, deadline, w) \<in> measure (\<lambda>(child, deadline, w). nat (deadline - w_time w))"
    by (auto dest!: clock_time sleep_time laterD [OF later_reap_round])
qed simp

declare reap_loop.simps [simp del]

definition stop_children :: "int \<Rightarrow> int guarded" where
  "stop_children child =
     seq (g_said (Peek child)) (\<lambda>_.
     seq (catch no_process (g_unit (Killpg child)) (\<lambda>_. ret ())) (\<lambda>_.
     seq clock (\<lambda>t. reap_loop child (t + 5 * SECOND))))"

section \<open>supervise\<close>

record limits =
  l_seconds :: int
  l_address :: int
  l_session :: int
  l_reserve :: int

definition tightened :: "limits \<Rightarrow> bool" where
  "tightened l \<longleftrightarrow> 0 < l_seconds l \<and> l_seconds l \<le> SECONDS \<and> 32 \<le> l_address l \<and> l_address l \<le> ADDRESS_MIB \<and>
     1 \<le> l_session l \<and> l_session l \<le> SESSION_MIB \<and> RESERVE_MIB \<le> l_reserve l"

text \<open>The texts of \<open>result['reason']\<close>; those that quote an exception carry it.\<close>

datatype reason =
    Another_proof
  | Insufficient_memory
  | Interrupted
  | Session_memory
  | Host_memory
  | Wall_time
  | Ownership_lost
  | Guard_error exn
  | Cleanup_failed exn
  | Restore_failed exn

text \<open>The local variables that the handlers and the \<open>finally\<close> clause read.\<close>

record guard =
  s_reason :: "reason option"
  s_code :: "int option"
  s_peak :: int
  s_lock :: "nat option"
  s_child :: "int option"
  s_owned :: bool
  s_handlers :: "(nat \<times> int) list"
  s_previous :: "int option"

definition fresh_guard :: guard where
  "fresh_guard = \<lparr>s_reason = None, s_code = None, s_peak = 0, s_lock = None, s_child = None,
     s_owned = False, s_handlers = [], s_previous = None\<rparr>"

text \<open>
  How the \<open>try\<close> block ends: \<open>Raised\<close> carries the exception to the handlers, together with the
  variables as they are then. \<open>under s m k\<close> runs \<open>m\<close> while the variables are \<open>s\<close>.
\<close>

datatype status = Finished | Raised exn

type_synonym attempted = "(guard \<times> status) guarded"

definition under :: "'s \<Rightarrow> ('q, 'r, 'a) prog \<Rightarrow> ('a \<Rightarrow> ('q, 'r, 's \<times> status) prog) \<Rightarrow> ('q, 'r, 's \<times> status) prog" where
  "under s m k w = (case m w of (Inl e, w') \<Rightarrow> (Inr (s, Raised e), w') | (Inr x, w') \<Rightarrow> k x w')"

definition go_on :: "('q, 'r, 's \<times> status) prog \<Rightarrow> ('s \<Rightarrow> ('q, 'r, 's \<times> status) prog) \<Rightarrow> ('q, 'r, 's \<times> status) prog" where
  "go_on m k = seq m (\<lambda>(s, st). case st of Finished \<Rightarrow> k s | Raised e \<Rightarrow> ret (s, Raised e))"

definition stop :: "guard \<Rightarrow> reason \<Rightarrow> attempted" where
  "stop s r = ret (s\<lparr>s_reason := Some r\<rparr>, Finished)"

lemma under_cong [fundef_cong]:
  "s = s' \<Longrightarrow> m w = m' w' \<Longrightarrow> (\<And>x v. m' w' = (Inr x, v) \<Longrightarrow> k x v = k' x v) \<Longrightarrow> under s m k w = under s' m' k' w'"
  by (auto simp: under_def split: prod.splits sum.splits)

text \<open>The sampling loop: the order of the tests is the order of the source.\<close>

function watch :: "limits \<Rightarrow> int \<Rightarrow> int \<Rightarrow> guard \<Rightarrow> attempted" where
  "watch l start child s w =
     under s (g_said (Peek child)) (\<lambda>observed.
     under s (g_said Signal_seen) (\<lambda>signalled.
     branch signalled (stop s Interrupted)
       (under s (session_rss child) (\<lambda>rss.
        branch (l_session l * MIB < rss)
          (stop (s\<lparr>s_peak := max (s_peak s) rss\<rparr>) Session_memory)
          (under (s\<lparr>s_peak := max (s_peak s) rss\<rparr>) available_bytes (\<lambda>free.
           branch (free < l_reserve l * MIB)
             (stop (s\<lparr>s_peak := max (s_peak s) rss\<rparr>) Host_memory)
             (under (s\<lparr>s_peak := max (s_peak s) rss\<rparr>) clock (\<lambda>t.
              branch (l_seconds l \<le> t - start)
                (stop (s\<lparr>s_peak := max (s_peak s) rss\<rparr>) Wall_time)
                (branch observed
                  (ret (s\<lparr>s_peak := max (s_peak s) rss\<rparr>, Finished))
                  (under (s\<lparr>s_peak := max (s_peak s) rss\<rparr>) (sleep INTERVAL) (\<lambda>_.
                   watch l start child (s\<lparr>s_peak := max (s_peak s) rss\<rparr>)))))))))))) w"
  by pat_completeness auto
termination
  by (relation "measure (\<lambda>(l, start, child, s, w). nat (start + l_seconds l - w_time w))")
    (auto dest!: clock_time sleep_time laterD [OF later_observe(1)] laterD [OF later_observe(3)]
      laterD [OF later_call(4)] simp: INTERVAL_def)

declare watch.simps [simp del]

fun install_handlers :: "nat list \<Rightarrow> guard \<Rightarrow> attempted" where
  "install_handlers [] s = ret (s, Finished)"
| "install_handlers (n # ns) s =
     under s (g_num (Set_handler n)) (\<lambda>old.
     install_handlers ns (s\<lparr>s_handlers := s_handlers s @ [(n, old)]\<rparr>))"

definition SIGNALS :: "nat list" where
  "SIGNALS = [2, 15, 1]"

definition supervised :: "limits \<Rightarrow> int \<Rightarrow> pystr list \<Rightarrow> attempted" where
  "supervised l start command =
     (let s = fresh_guard in
     under s acquire_lock (\<lambda>fd.
     let s = s\<lparr>s_lock := Some fd\<rparr> in
     under s available_bytes (\<lambda>free.
     if free < (l_reserve l + l_session l) * MIB then stop s Insufficient_memory
     else under s (g_said Sigchld_default) (\<lambda>default.
     if \<not> default then
       ret (s, Raised (RuntimeError ''default SIGCHLD and exclusive child ownership required''))
     else under s direct_children (\<lambda>cs.
     if cs \<noteq> [] then
       ret (s, Raised (RuntimeError ''guard requires an isolated process with no existing children''))
     else under s (subreaper (Some 1)) (\<lambda>previous.
     go_on (install_handlers SIGNALS (s\<lparr>s_previous := Some previous\<rparr>)) (\<lambda>s.
     under s (g_num (Popen (l_address l) (max 1 (l_seconds l div SECOND)) command)) (\<lambda>child.
     watch l start child (s\<lparr>s_child := Some child, s_owned := True\<rparr>)))))))))"

text \<open>
  The handlers: \<open>BlockingIOError\<close>, \<open>ChildProcessError\<close>, then the others it names; anything else goes
  on after the \<open>finally\<close> clause.
\<close>

definition is_blocking :: "exn \<Rightarrow> bool" where
  "is_blocking e \<longleftrightarrow> e \<in> OSError ` {11, 114, 115}"

definition is_no_child :: "exn \<Rightarrow> bool" where
  "is_no_child e \<longleftrightarrow> e = OSError 10"

definition is_runtime :: "exn \<Rightarrow> bool" where
  "is_runtime e \<longleftrightarrow> (case e of RuntimeError _ \<Rightarrow> True | _ \<Rightarrow> False)"

definition handled :: "guard \<Rightarrow> status \<Rightarrow> guard \<times> exn option" where
  "handled s st =
     (case st of
        Finished \<Rightarrow> (s, None)
      | Raised e \<Rightarrow>
          if is_blocking e then (s\<lparr>s_reason := Some Another_proof\<rparr>, None)
          else if is_no_child e then (s\<lparr>s_owned := False, s_reason := Some Ownership_lost\<rparr>, None)
          else if is_os_error e \<or> is_runtime e \<or> is_value_error e \<or> e = IndexError
          then (s\<lparr>s_reason := Some (Guard_error e)\<rparr>, None)
          else (s, Some e))"

definition cleanup_error :: "exn \<Rightarrow> bool" where
  "cleanup_error e \<longleftrightarrow> is_os_error e \<or> is_runtime e \<or> e = TimeoutExpired"

fun restore_handlers :: "(nat \<times> int) list \<Rightarrow> unit guarded" where
  "restore_handlers [] = ret ()"
| "restore_handlers ((n, old) # hs) =
     seq (g_unit (Restore_handler n old)) (\<lambda>_. restore_handlers hs)"

definition reap_child :: "guard \<Rightarrow> guard guarded" where
  "reap_child s =
     (case s_child s of
        Some child \<Rightarrow>
          if s_owned s then
            seq (attempt cleanup_error (stop_children child)) (\<lambda>r.
            ret (case r of Inr code \<Rightarrow> s\<lparr>s_code := Some code\<rparr>
                         | Inl e \<Rightarrow> s\<lparr>s_reason := Some (Cleanup_failed e)\<rparr>))
          else ret s
      | None \<Rightarrow> ret s)"

definition restore_subreaper :: "guard \<Rightarrow> guard guarded" where
  "restore_subreaper s =
     (case s_previous s of
        None \<Rightarrow> ret s
      | Some p \<Rightarrow>
          seq (attempt is_os_error (subreaper (Some p))) (\<lambda>r.
          ret (case r of Inl e \<Rightarrow> s\<lparr>s_reason := Some (Restore_failed e)\<rparr> | Inr _ \<Rightarrow> s)))"

datatype verdict_of_run = Not_run | Passed | Not_passed

record result =
  o_result :: verdict_of_run
  o_reason :: "reason option"
  o_code :: "int option"
  o_peak :: int
  o_limits :: limits
  o_seconds :: int

definition result_of :: "limits \<Rightarrow> guard \<Rightarrow> int \<Rightarrow> result" where
  "result_of l s elapsed =
     \<lparr>o_result = (if s_child s = None then Not_run
                  else if s_reason s = None \<and> s_code s = Some 0 then Passed else Not_passed),
      o_reason = s_reason s, o_code = s_code s, o_peak = s_peak s, o_limits = l, o_seconds = elapsed\<rparr>"

definition cleanup :: "limits \<Rightarrow> int \<Rightarrow> guard \<Rightarrow> result guarded" where
  "cleanup l start s =
     seq (reap_child s) (\<lambda>s.
     seq (restore_subreaper s) (\<lambda>s.
     seq (restore_handlers (s_handlers s)) (\<lambda>_.
     seq (case s_lock s of None \<Rightarrow> ret () | Some fd \<Rightarrow> close_lock fd) (\<lambda>_.
     seq clock (\<lambda>t. ret (result_of l s (t - start)))))))"

definition supervise :: "limits \<Rightarrow> pystr list \<Rightarrow> result guarded" where
  "supervise l command =
     seq (check (tightened l) ValueError) (\<lambda>_.
     seq clock (\<lambda>start.
     seq (supervised l start command) (\<lambda>(s, st).
     let (s, escaped) = handled s st in
     seq (cleanup l start s) (\<lambda>r.
     case escaped of None \<Rightarrow> ret r | Some e \<Rightarrow> raise e))))"

section \<open>main\<close>

text \<open>
  After \<open>argparse\<close>: \<open>words\<close> is the rest of the command line, \<open>seconds\<close> a whole number. Exit code 2 is
  \<open>parser.error\<close>.
\<close>

definition is_job_option :: "pystr \<Rightarrow> bool" where
  "is_job_option x \<longleftrightarrow> take 2 x = str ''-j'' \<or> take 6 x = str ''--jobs''"

definition default_limits :: "int \<Rightarrow> limits" where
  "default_limits seconds = \<lparr>l_seconds = seconds * SECOND, l_address = ADDRESS_MIB,
     l_session = SESSION_MIB, l_reserve = RESERVE_MIB\<rparr>"

definition guard_main :: "pystr list \<Rightarrow> int \<Rightarrow> int guarded" where
  "guard_main words seconds =
     (case (if take 1 words = [str ''--''] then drop 1 words else words) of
        [] \<Rightarrow> ret 2
      | tool # args \<Rightarrow>
          if \<not> (1 \<le> seconds \<and> seconds \<le> SECONDS div SECOND) then ret 2
          else seq (g_num Euid) (\<lambda>uid.
            if uid = 0 \<or> list_ex is_job_option args then ret 2
            else seq (supervise (default_limits seconds) (tool # str ''-j1'' # args)) (\<lambda>r.
              ret (if o_result r = Passed then 0 else 1))))"

end
