(* ===== verification/Guard_Spec.thy ===== *)
theory Guard_Spec
  imports Guard Directory_Fds
begin

text \<open>
  What the guard promises: it starts a command only under the lock, with enough memory free and no
  other child, with the limits it was given; it signals only the process group it started and the
  orphans the kernel lists as its children; it samples a bounded number of times; it closes its lock
  and restores its signal handlers; and a pass means a clean exit within the limits.
\<close>

section \<open>Programs of the guard\<close>

lemma only_g [only_rules]:
  "C c \<Longrightarrow> only C (g_call c f)" "C c \<Longrightarrow> only C (g_unit c)" "C c \<Longrightarrow> only C (g_num c)" "C c \<Longrightarrow> only C (g_said c)"
  "C c \<Longrightarrow> only C (g_text c)" "C c \<Longrightarrow> only C (g_names c)" "C Clock \<Longrightarrow> only C clock"
  "C (Sleep d) \<Longrightarrow> only C (sleep d)" "C (Open_lock p) \<Longrightarrow> only C (open_lock p)"
  "C (Close_lock fd) \<Longrightarrow> only C (close_lock fd)" "C (Lock_stat fd) \<Longrightarrow> only C (lock_stat fd)"
  by (auto simp: only_def g_unit_def g_num_def g_said_def g_text_def g_names_def g_call_def clock_def
      sleep_def open_lock_def close_lock_def lock_stat_def logged_def Let_def split: ganswer.splits)

lemma only_under [only_rules]:
  assumes "only C m" "\<And>x. only C (k x)"
  shows "only C (under s m k)"
proof -
  have "only C (\<lambda>w. case m w of (r, v) \<Rightarrow> (case r of Inl e \<Rightarrow> ret (s, Raised e) | Inr x \<Rightarrow> k x) v)"
    by (rule only_then [OF assms(1)]) (auto split: sum.splits intro: assms(2) only_pure)
  moreover have "under s m k = (\<lambda>w. case m w of (r, v) \<Rightarrow> (case r of Inl e \<Rightarrow> ret (s, Raised e) | Inr x \<Rightarrow> k x) v)"
    by (auto simp: fun_eq_iff under_def ret_def split: prod.splits sum.splits)
  ultimately show ?thesis by simp
qed

lemma only_branch [only_rules]: "(b \<Longrightarrow> only C m) \<Longrightarrow> (\<not> b \<Longrightarrow> only C n) \<Longrightarrow> only C (branch b m n)"
  by (cases b) (auto simp: branch_def only_def)

lemma only_status [only_rules]:
  "(st = Finished \<Longrightarrow> only C m) \<Longrightarrow> (\<And>e. st = Raised e \<Longrightarrow> only C (f e)) \<Longrightarrow>
   only C (case st of Finished \<Rightarrow> m | Raised e \<Rightarrow> f e)"
  by (cases st) simp_all

lemma only_go_on [only_rules]: "only C m \<Longrightarrow> (\<And>s. only C (k s)) \<Longrightarrow> only C (go_on m k)"
  unfolding go_on_def by (intro only_rules)

lemma only_stop [only_rules]: "only C (stop s r)"
  unfolding stop_def by (intro only_rules)

section \<open>Whom the guard signals\<close>

text \<open>
  Cleanup for \<open>child\<close>: the group is \<open>child\<close>'s, the single processes are others. The child itself is
  neither killed nor reaped behind the back of its \<open>Popen\<close> object.
\<close>

fun aims_at :: "int \<Rightarrow> gcall \<Rightarrow> bool" where
  "aims_at child (Killpg p) \<longleftrightarrow> p = child"
| "aims_at child (Kill p) \<longleftrightarrow> p \<noteq> child"
| "aims_at child (Reap p) \<longleftrightarrow> p \<noteq> child"
| "aims_at child (Wait_child p) \<longleftrightarrow> p = child"
| "aims_at child (Popen _ _ _) \<longleftrightarrow> False"
| "aims_at child _ \<longleftrightarrow> True"

lemma only_children [only_rules]: "C Children \<Longrightarrow> only C direct_children"
  unfolding direct_children_def by (intro only_rules)

lemma only_reap_round: "only (aims_at child) (reap_round child)"
proof -
  have "only (aims_at child) (kill_others child pids)" for pids
    by (induction pids) (auto intro!: only_rules)
  then show ?thesis unfolding reap_round_def all_reaped_def by (intro only_rules) simp_all
qed

lemma reap_loop_unfold:
  "reap_loop child deadline =
     seq clock (\<lambda>t.
       branch (t < deadline)
         (seq (reap_round child) (\<lambda>alone.
            branch alone (g_num (Wait_child child))
              (seq (sleep 10000000) (\<lambda>_. reap_loop child deadline))))
         (raise (RuntimeError ''tool descendants were not all reaped within cleanup deadline'')))"
  by (rule ext) (subst reap_loop.simps, simp)

text \<open>The same from one machine on, for the loops, whose end depends on the clock.\<close>

definition asks :: "('q \<Rightarrow> bool) \<Rightarrow> ('q, 'r, 'a) prog \<Rightarrow> ('q, 'r) machine \<Rightarrow> bool" where
  "asks C m w \<longleftrightarrow> (\<exists>l. w_log (snd (m w)) = w_log w @ l \<and> (\<forall>e\<in>set l. C (fst e)))"

lemma only_asks: "only C m \<longleftrightarrow> (\<forall>w. asks C m w)"
  by (simp add: only_def asks_def)

lemma asks_only: "only C m \<Longrightarrow> asks C m w"
  by (simp add: only_asks)

lemma asks_seq:
  assumes m: "asks C m w" and f: "\<And>x v. m w = (Inr x, v) \<Longrightarrow> asks C (f x) v"
  shows "asks C (seq m f) w"
proof -
  obtain r v where mw: "m w = (r, v)" by (cases "m w")
  with m obtain l where l: "w_log v = w_log w @ l" "\<forall>e\<in>set l. C (fst e)" by (auto simp: asks_def)
  show ?thesis
  proof (cases r)
    case (Inr x)
    with f mw obtain l' where "w_log (snd (f x v)) = w_log v @ l'" "\<forall>e\<in>set l'. C (fst e)"
      by (auto simp: asks_def)
    with l mw Inr show ?thesis unfolding asks_def by (intro exI [of _ "l @ l'"]) (auto simp: seq_def)
  qed (use l mw in \<open>auto simp: asks_def seq_def\<close>)
qed

lemma asks_branch: "(b \<Longrightarrow> asks C m w) \<Longrightarrow> (\<not> b \<Longrightarrow> asks C n w) \<Longrightarrow> asks C (branch b m n) w"
  by (cases b) (simp_all add: asks_def branch_def)

lemma asks_under:
  assumes m: "asks C m w" and k: "\<And>x v. m w = (Inr x, v) \<Longrightarrow> asks C (k x) v"
  shows "asks C (under s m k) w"
proof -
  obtain r v where mw: "m w = (r, v)" by (cases "m w")
  with m obtain l where l: "w_log v = w_log w @ l" "\<forall>e\<in>set l. C (fst e)" by (auto simp: asks_def)
  show ?thesis
  proof (cases r)
    case (Inr x)
    with k mw obtain l' where "w_log (snd (k x v)) = w_log v @ l'" "\<forall>e\<in>set l'. C (fst e)"
      by (auto simp: asks_def)
    with l mw Inr show ?thesis unfolding asks_def by (intro exI [of _ "l @ l'"]) (auto simp: under_def)
  qed (use l mw in \<open>auto simp: asks_def under_def\<close>)
qed

lemma asks_reap_loop:
  assumes round: "only C (reap_round child)"
    and C: "C Clock" "C (Sleep 10000000)" "C (Wait_child child)"
  shows "asks C (reap_loop child deadline) w"
  using assms
proof (induction child deadline w rule: reap_loop.induct)
  case (1 child deadline w)
  show ?case
    by (subst reap_loop_unfold, intro asks_seq asks_branch)
      (use 1 in \<open>auto intro!: asks_only only_rules\<close>)
qed

lemma only_stop_children:
  assumes "only C (reap_round child)" "C Clock" "C (Sleep 10000000)" "C (Wait_child child)"
    "C (Peek child)" "C (Killpg child)"
  shows "only C (stop_children child)"
proof -
  have "only C (reap_loop child deadline)" for deadline
    using asks_reap_loop [OF assms(1-4)] by (simp add: only_asks)
  then show ?thesis
    unfolding stop_children_def by (intro only_rules assms)
qed

lemma stop_children_aims: "only (aims_at child) (stop_children child)"
  by (intro only_stop_children only_reap_round) simp_all

section \<open>The sampling loop\<close>

lemma watch_unfold:
  "watch l start child s =
     under s (g_said (Peek child)) (\<lambda>observed.
     under s (g_said Signal_seen) (\<lambda>signalled.
     branch signalled (stop s Interrupted)
       (under s (session_rss child) (\<lambda>rss.
        branch (l_session l * MIB < rss)
          (stop (s\<lparr>s_peak := max (s_peak s) rss\<rparr>) Session_memory)
          (under (s\<lparr>s_peak := max (s_peak s) rss\<rparr>) available_bytes (\<lambda>free.
           branch (free < l_reserve l * MIB)
             (stop (s\<lparr>s_peak := max (s_peak s) rss\<rparr>) Host_memory)
             (under (s\<lparr>s_peak := max (s_peak s) rss\<rparr>) clock (\<lambda>t.
              branch (l_seconds l \<le> t - start)
                (stop (s\<lparr>s_peak := max (s_peak s) rss\<rparr>) Wall_time)
                (branch observed
                  (ret (s\<lparr>s_peak := max (s_peak s) rss\<rparr>, Finished))
                  (under (s\<lparr>s_peak := max (s_peak s) rss\<rparr>) (sleep INTERVAL) (\<lambda>_.
                   watch l start child (s\<lparr>s_peak := max (s_peak s) rss\<rparr>))))))))))))"
  by (rule ext) (subst watch.simps, simp)

text \<open>
  Rules for \<open>wp\<close> along the stages: \<open>under\<close> never raises, it hands the exception on as a value.
\<close>

lemma wp_under:
  assumes "\<And>e v. m w = (Inl e, v) \<Longrightarrow> Q (Inr (s, Raised e)) v" "\<And>x u. m w = (Inr x, u) \<Longrightarrow> wp (k x) Q u"
  shows "wp (under s m k) Q w"
  using assms by (cases "m w"; cases "fst (m w)") (auto simp: wp_def under_def)

lemma wp_branch: "(b \<Longrightarrow> wp m Q w) \<Longrightarrow> (\<not> b \<Longrightarrow> wp n Q w) \<Longrightarrow> wp (branch b m n) Q w"
  by (cases b) (simp_all add: wp_def branch_def)

lemma wp_if: "(b \<Longrightarrow> wp m Q w) \<Longrightarrow> (\<not> b \<Longrightarrow> wp n Q w) \<Longrightarrow> wp (if b then m else n) Q w"
  by simp

lemma wp_stop: "Q (Inr (s\<lparr>s_reason := Some r\<rparr>, Finished)) w \<Longrightarrow> wp (stop s r) Q w"
  by (simp add: stop_def wp_ret)

lemma wp_seq_run:
  "m w = (r, u) \<Longrightarrow> (case r of Inl e \<Rightarrow> Q (Inl e) u | Inr x \<Rightarrow> wp (f x) Q u) \<Longrightarrow> wp (seq m f) Q w"
  by (auto simp: wp_def seq_def split: sum.splits)

lemma wpD: "wp m Q w \<Longrightarrow> m w = (r, v) \<Longrightarrow> Q r v"
  by (simp add: wp_def)

text \<open>
  The variables after the loop: only the peak and the reason have changed; without a reason every
  sample was within the limit.
\<close>

definition watched :: "limits \<Rightarrow> guard \<Rightarrow> (guard \<times> status) res \<Rightarrow> bool" where
  "watched l s res \<longleftrightarrow>
     (\<exists>r p st. res = Inr (s\<lparr>s_reason := r, s_peak := p\<rparr>, st) \<and> s_peak s \<le> p \<and>
        (r = None \<and> st = Finished \<and> s_peak s \<le> l_session l * MIB \<longrightarrow> p \<le> l_session l * MIB))"

lemma watched_step:
  "watched l (s\<lparr>s_peak := max (s_peak s) p\<rparr>) res \<Longrightarrow> p \<le> l_session l * MIB \<Longrightarrow> watched l s res"
  by (fastforce simp: watched_def)

lemma watch_watched:
  "s_reason s = None \<Longrightarrow> wp (watch l start child s) (\<lambda>res v. watched l s res) w"
proof (induction l start child s w rule: watch.induct)
  case (1 l start child s w)
  have raised: "watched l s (Inr (s\<lparr>s_peak := max (s_peak s) p\<rparr>, Raised e))" "watched l s (Inr (s, Raised e))"
    "watched l s (Inr (s\<lparr>s_peak := max (s_peak s) p, s_reason := Some x\<rparr>, Finished))"
    "watched l s (Inr (s\<lparr>s_reason := Some x\<rparr>, Finished))" for p e x
    using 1(2) by (cases s; auto simp: watched_def)+
  have ended: "watched l s (Inr (s\<lparr>s_peak := max (s_peak s) p\<rparr>, Finished))" if "p \<le> l_session l * MIB" for p
    using 1(2) that by (cases s) (auto simp: watched_def)
  show ?case
  proof (subst watch_unfold, intro wp_under wp_branch wp_stop, goal_cases)
    case (10 observed w1 signalled w2 rss)
    then show ?case using ended by (simp add: wp_ret)
  next
    case (12 observed w1 signalled w2 rss w3 free w4 t w5 u w6)
    then have "wp (watch l start child (s\<lparr>s_peak := max (s_peak s) rss\<rparr>))
        (\<lambda>res v. watched l (s\<lparr>s_peak := max (s_peak s) rss\<rparr>) res) w6"
      using 1 by simp
    then show ?case
      by (rule wp_mono) (erule watched_step, use 12(5) in simp)
  qed (rule raised)+
qed

text \<open>
  The number of samples: the loop sleeps \<open>INTERVAL\<close> after every sample but the last, and only while
  the deadline is ahead.
\<close>

definition naps :: "(gcall \<times> ganswer) list \<Rightarrow> nat" where
  "naps l = length (filter (\<lambda>e. fst e = Sleep INTERVAL) l)"

lemma naps_append [simp]: "naps (l @ l') = naps l + naps l'"
  by (simp add: naps_def)

lemma naps_only:
  assumes "only (\<lambda>c. c \<noteq> Sleep INTERVAL) m" "m w = (r, v)"
  shows "\<exists>l. w_log v = w_log w @ l \<and> naps l = 0"
proof -
  obtain l where "w_log v = w_log w @ l" "\<forall>e\<in>set l. fst e \<noteq> Sleep INTERVAL"
    using onlyE [OF assms(1), of w] assms(2) by auto
  then show ?thesis by (intro exI [of _ l]) (auto simp: naps_def filter_empty_conv)
qed

lemma only_observations [only_rules]:
  "C Meminfo \<Longrightarrow> only C available_bytes"
  "C Proc_names \<Longrightarrow> C Page_size \<Longrightarrow> (\<And>n. C (Proc_stat n)) \<Longrightarrow> only C (session_rss s)"
  "C Get_subreaper \<Longrightarrow> (\<And>i. C (Set_subreaper i)) \<Longrightarrow> only C (subreaper v)"
proof -
  assume C: "C Proc_names" "C Page_size" "\<And>n. C (Proc_stat n)"
  have "only C (sum_pages s ns)" for ns
    by (induction ns) (auto intro!: only_rules C)
  with C show "only C (session_rss s)" unfolding session_rss_def by (intro only_rules)
qed (auto simp: available_bytes_def subreaper_def intro!: only_rules)

text \<open>A stage that does not sleep.\<close>

definition calm :: "(gcall, ganswer) machine \<Rightarrow> (gcall, ganswer) machine \<Rightarrow> bool" where
  "calm w v \<longleftrightarrow> (\<exists>l. w_log v = w_log w @ l \<and> naps l = 0) \<and> w_time w \<le> w_time v"

lemma calm_trans: "calm w v \<Longrightarrow> calm v u \<Longrightarrow> calm w u"
  by (force simp: calm_def)

lemma calm_stage:
  "g_said c w = (r1, v) \<Longrightarrow> c \<noteq> Sleep INTERVAL \<Longrightarrow> calm w v" "session_rss child w = (r2, v) \<Longrightarrow> calm w v"
  "available_bytes w = (r3, v) \<Longrightarrow> calm w v" "clock w = (r4, v) \<Longrightarrow> calm w v"
proof -
  have *: "calm w v" if "only (\<lambda>c. c \<noteq> Sleep INTERVAL) m" "w_time w \<le> w_time v" "m w = (r, v)" for m :: "'a guarded" and r
    using naps_only [OF that(1,3)] that(2) by (auto simp: calm_def)
  show "calm w v" if "g_said c w = (r1, v)" "c \<noteq> Sleep INTERVAL"
    by (rule * [where m = "g_said c" and r = r1, OF _ laterD [OF later_call(4) that(1)] that(1)]) (use that in \<open>auto intro: only_rules\<close>)
  show "calm w v" if "session_rss child w = (r2, v)"
    by (rule * [where m = "session_rss child" and r = r2, OF _ laterD [OF later_observe(3) that] that]) (auto intro: only_rules)
  show "calm w v" if "available_bytes w = (r3, v)"
    by (rule * [where m = "available_bytes" and r = r3, OF _ laterD [OF later_observe(1) that] that]) (auto intro: only_rules)
  show "calm w v" if "clock w = (r4, v)"
    by (rule * [where m = clock and r = r4, OF _ _ that]) (use clock_time [OF that] in \<open>auto intro: only_rules\<close>)
qed

definition sampled :: "limits \<Rightarrow> int \<Rightarrow> (gcall, ganswer) machine \<Rightarrow> (gcall, ganswer) machine \<Rightarrow> bool" where
  "sampled l start w v \<longleftrightarrow> (\<exists>lg. w_log v = w_log w @ lg \<and>
     int (naps lg) * INTERVAL \<le> max 0 (start + l_seconds l - w_time w + INTERVAL))"

lemma calm_sampled: "calm w u \<Longrightarrow> sampled l start u v \<Longrightarrow> sampled l start w v"
proof -
  assume "calm w u" "sampled l start u v"
  then obtain l1 l2 where "w_log u = w_log w @ l1" "naps l1 = 0" "w_time w \<le> w_time u"
    "w_log v = w_log u @ l2" "int (naps l2) * INTERVAL \<le> max 0 (start + l_seconds l - w_time u + INTERVAL)"
    by (auto simp: calm_def sampled_def)
  then show ?thesis unfolding sampled_def by (intro exI [of _ "l1 @ l2"]) auto
qed

lemma sampled_refl: "sampled l start w w"
  by (auto simp: sampled_def naps_def)

lemma nap_sampled:
  assumes "sleep INTERVAL w = (r, u)" "sampled l start u v" "w_time w < start + l_seconds l"
  shows "sampled l start w v"
proof -
  from assms(2) obtain l2 where l2: "w_log v = w_log u @ l2"
    "int (naps l2) * INTERVAL \<le> max 0 (start + l_seconds l - w_time u + INTERVAL)"
    by (auto simp: sampled_def)
  from assms(1) obtain a where l1: "w_log u = w_log w @ [(Sleep INTERVAL, a)]"
    by (auto simp: sleep_def Let_def logged_def)
  have "w_time w + INTERVAL \<le> w_time u" using sleep_time [OF assms(1)] by simp
  with l1 l2 assms(3) show ?thesis
    unfolding sampled_def
    by (intro exI [of _ "(Sleep INTERVAL, a) # l2"]) (auto simp: naps_def algebra_simps INTERVAL_def)
qed

lemma watch_sampled: "wp (watch l start child s) (\<lambda>res v. sampled l start w v) w"
proof (induction l start child s w rule: watch.induct)
  case (1 l start child s w)
  note stages = calm_stage(1) [where c = "Peek child"] calm_stage(1) [where c = Signal_seen] calm_stage(2-4)
  show ?case
  proof (subst watch_unfold, intro wp_under wp_branch wp_stop, goal_cases)
    case (12 observed w1 signalled w2 rss w3 free w4 t w5 u w6)
    then have rec: "wp (watch l start child (s\<lparr>s_peak := max (s_peak s) rss\<rparr>)) (\<lambda>res v. sampled l start w6 v) w6"
      using 1 by blast
    have calm: "calm w w5"
      using 12 by (auto dest!: stages) (meson calm_trans)
    have "w_time w5 < start + l_seconds l" using 12 clock_time [of w4] by auto
    with 12 calm show ?case
      by (intro wp_mono [OF rec]) (blast intro: calm_sampled nap_sampled)
  qed (auto simp: wp_ret dest!: stages sleep_time intro!: calm_sampled [OF _ sampled_refl], (meson calm_trans)+)
qed

section \<open>What holds when a command is started\<close>

definition is_popen :: "gcall \<Rightarrow> bool" where
  "is_popen c \<longleftrightarrow> (case c of Popen _ _ _ \<Rightarrow> True | _ \<Rightarrow> False)"

definition is_close :: "gcall \<Rightarrow> bool" where
  "is_close c \<longleftrightarrow> (case c of Close_lock _ \<Rightarrow> True | _ \<Rightarrow> False)"

definition grown :: "('q \<Rightarrow> bool) \<Rightarrow> (('q, 'r) machine) \<Rightarrow> ('q, 'r) machine \<Rightarrow> ('q \<times> 'r) list \<Rightarrow> bool" where
  "grown C w v l \<longleftrightarrow> w_log v = w_log w @ l \<and> (\<forall>e\<in>set l. C (fst e))"

lemma only_grown: "only C m \<Longrightarrow> m w = (r, v) \<Longrightarrow> \<exists>l. grown C w v l"
  unfolding only_def grown_def by (metis snd_conv)

lemma grown_trans: "grown C w u l \<Longrightarrow> grown C u v l' \<Longrightarrow> grown C w v (l @ l')"
  by (auto simp: grown_def)

text \<open>The conversation so far shows that the lock is held, enough memory is free, and so on.\<close>

definition locked :: "(gcall \<times> ganswer) list \<Rightarrow> bool" where
  "locked lg \<longleftrightarrow> (\<exists>fd a. (Flock fd, a) \<in> set lg \<and> (\<forall>n. a \<noteq> Errno n) \<and> (\<forall>e\<in>set lg. \<not> is_close (fst e)))"

definition roomy :: "limits \<Rightarrow> (gcall \<times> ganswer) list \<Rightarrow> bool" where
  "roomy l lg \<longleftrightarrow> (\<exists>t free. (Meminfo, Text t) \<in> set lg \<and> mem_available t = Inr free \<and>
     (l_reserve l + l_session l) * MIB \<le> free)"

definition childless :: "(gcall \<times> ganswer) list \<Rightarrow> bool" where
  "childless lg \<longleftrightarrow> (Sigchld_default, Said True) \<in> set lg \<and>
     (\<exists>t. (Children, Text t) \<in> set lg \<and> split_space [] t = [])"

definition ready :: "limits \<Rightarrow> (gcall \<times> ganswer) list \<Rightarrow> bool" where
  "ready l lg \<longleftrightarrow> locked lg \<and> roomy l lg \<and> childless lg"

definition launched :: "limits \<Rightarrow> pystr list \<Rightarrow> (gcall \<times> ganswer) list \<Rightarrow> bool" where
  "launched l command lg \<longleftrightarrow> (\<forall>e\<in>set lg. \<not> is_popen (fst e)) \<or>
     (\<exists>pre ans post. lg = pre @ (Popen (l_address l) (max 1 (l_seconds l div SECOND)) command, ans) # post \<and>
        (\<forall>e\<in>set pre. \<not> is_popen (fst e)) \<and> (\<forall>e\<in>set post. \<not> is_popen (fst e)) \<and> ready l pre)"

text \<open>A stage that neither starts a process nor closes the lock.\<close>

definition plain :: "gcall \<Rightarrow> bool" where
  "plain c \<longleftrightarrow> \<not> is_popen c \<and> \<not> is_close c"

lemma plain_simps [simp]:
  "plain Clock" "plain (Sleep d)" "plain Meminfo" "plain Proc_names" "plain (Proc_stat n)" "plain Children"
  "plain Page_size" "plain Euid" "plain (Open_lock path)" "plain (Lock_stat fd)" "plain (Flock fd)"
  "plain Sigchld_default" "plain Get_subreaper" "plain (Set_subreaper i)" "plain (Set_handler sig)"
  "plain (Restore_handler sig i)" "plain (Peek p)" "plain (Killpg p)" "plain (Kill p)" "plain (Reap p)"
  "plain (Wait_child p)" "plain Signal_seen"
  by (simp_all add: plain_def is_popen_def is_close_def)

lemma g_call_Inr:
  "g_call c f w = (Inr x, v) \<Longrightarrow> \<exists>a. w_log v = w_log w @ [(c, a)] \<and> f a = Inr x \<and> (\<forall>n. a \<noteq> Errno n)"
  by (auto simp: g_call_def logged_def split: ganswer.splits)

lemma available_Inr:
  "available_bytes w = (Inr x, v) \<Longrightarrow> \<exists>t. grown plain w v [(Meminfo, Text t)] \<and> mem_available t = Inr x"
  by (auto simp: available_bytes_def runs g_text_def grown_def dest!: g_call_Inr split: ganswer.splits)

lemma said_Inr: "g_said c w = (Inr b, v) \<Longrightarrow> plain c \<Longrightarrow> grown plain w v [(c, Said b)]"
  by (auto simp: g_said_def grown_def dest!: g_call_Inr split: ganswer.splits)

lemma children_Inr:
  "direct_children w = (Inr ps, v) \<Longrightarrow> \<exists>t. grown plain w v [(Children, Text t)] \<and> for_each int_of (split_space [] t) = Inr ps"
  by (auto simp: direct_children_def runs g_text_def grown_def dest!: g_call_Inr split: ganswer.splits)

lemma acquire_Inr:
  assumes "acquire_lock w = (Inr fd, v)"
  shows "\<exists>l a. grown plain w v (l @ [(Flock fd, a)]) \<and> (\<forall>n. a \<noteq> Errno n)"
proof -
  let ?open = "\<lambda>uid. open_lock (str ''/tmp/niaos-proof-'' @ dec_int uid @ str ''.lock'')"
  from assms obtain uid w1 w2 w3 uid' w4 mode owner links where
    s: "g_num Euid w = (Inr uid, w1)" "?open uid w1 = (Inr fd, w2)"
    "lock_stat fd w2 = (Inr (mode, owner, links), w3)" "g_num Euid w3 = (Inr uid', w4)"
    "g_unit (Flock fd) w4 = (Inr (), v)"
    by (auto simp: acquire_lock_def runs split: prod.splits)
  have "only plain (g_num Euid)" "only plain (?open uid)" "only plain (lock_stat fd)"
    by (auto intro: only_rules)
  with s obtain l1 l2 l3 l4 where "grown plain w w1 l1" "grown plain w1 w2 l2" "grown plain w2 w3 l3" "grown plain w3 w4 l4"
    by (metis only_grown)
  moreover obtain a where "grown plain w4 v [(Flock fd, a)]" "\<forall>n. a \<noteq> Errno n"
    using s(5) by (auto simp: g_unit_def grown_def dest!: g_call_Inr)
  ultimately show ?thesis by (metis grown_trans append.assoc)
qed

definition unlaunched :: "(gcall, ganswer) machine \<Rightarrow> (gcall, ganswer) machine \<Rightarrow> bool" where
  "unlaunched w v \<longleftrightarrow> (\<exists>l. grown (\<lambda>c. \<not> is_popen c) w v l)"

lemma unlaunched_trans: "unlaunched w u \<Longrightarrow> unlaunched u v \<Longrightarrow> unlaunched w v"
  unfolding unlaunched_def by (meson grown_trans)

lemma grown_plain_unlaunched: "grown plain w v l \<Longrightarrow> unlaunched w v"
  by (auto simp: grown_def unlaunched_def plain_def)

lemma only_unlaunched: "only (\<lambda>c. \<not> is_popen c) m \<Longrightarrow> m w = (r, v) \<Longrightarrow> unlaunched w v"
  using only_grown unfolding unlaunched_def by blast

lemma is_popen_simps [simp]: "is_popen (Popen a b c)" "\<not> is_popen (Close_lock fd)"
  by (simp_all add: is_popen_def)

lemma plain_not_popen: "plain c \<Longrightarrow> \<not> is_popen c"
  by (simp add: plain_def)

lemma only_watch: "only plain (watch l start child s)"
proof -
  have "asks plain (watch l start child s) w" for w
  proof (induction l start child s w rule: watch.induct)
    case (1 l start child s w)
    show ?case
      by (subst watch_unfold, intro asks_under asks_branch)
        (use 1 in \<open>auto intro!: asks_only only_rules\<close>)
  qed
  then show ?thesis by (simp add: only_asks)
qed

lemma only_install: "only plain (install_handlers ns s)"
  by (induction ns arbitrary: s) (auto intro!: only_rules)

definition post_launch :: "limits \<Rightarrow> pystr list \<Rightarrow> (gcall, ganswer) machine \<Rightarrow> (gcall, ganswer) machine \<Rightarrow> bool" where
  "post_launch l command w v \<longleftrightarrow> (\<exists>lg. w_log v = w_log w @ lg \<and> launched l command lg)"

lemma unlaunched_post: "unlaunched w v \<Longrightarrow> post_launch l command w v"
  by (auto simp: unlaunched_def grown_def post_launch_def launched_def)

lemma post_launch_later: "post_launch l command w u \<Longrightarrow> unlaunched u v \<Longrightarrow> post_launch l command w v"
proof -
  assume "post_launch l command w u" "unlaunched u v"
  then obtain lg lg' where *: "w_log u = w_log w @ lg" "launched l command lg" "w_log v = w_log u @ lg'"
    "\<forall>e\<in>set lg'. \<not> is_popen (fst e)"
    by (auto simp: post_launch_def unlaunched_def grown_def)
  have "launched l command (lg @ lg')"
    using *(2) unfolding launched_def
  proof (elim disjE exE conjE)
    fix pre ans post
    assume "lg = pre @ (Popen (l_address l) (max 1 (l_seconds l div SECOND)) command, ans) # post"
      "\<forall>e\<in>set pre. \<not> is_popen (fst e)" "\<forall>e\<in>set post. \<not> is_popen (fst e)" "ready l pre"
    with *(4) show "(\<forall>e\<in>set (lg @ lg'). \<not> is_popen (fst e)) \<or>
      (\<exists>pre ans post. lg @ lg' = pre @ (Popen (l_address l) (max 1 (l_seconds l div SECOND)) command, ans) # post \<and>
        (\<forall>e\<in>set pre. \<not> is_popen (fst e)) \<and> (\<forall>e\<in>set post. \<not> is_popen (fst e)) \<and> ready l pre)"
      by (intro disjI2 exI [of _ pre] exI [of _ ans] exI [of _ "post @ lg'"]) auto
  qed (use *(4) in auto)
  with * show ?thesis by (auto simp: post_launch_def)
qed

text \<open>The command is started from a machine whose conversation is \<open>ready\<close>.\<close>

lemma popen_post:
  assumes "grown plain w u pre" "ready l pre"
    "g_num (Popen (l_address l) (max 1 (l_seconds l div SECOND)) command) u = (r, v)"
  shows "post_launch l command w v"
proof -
  obtain ans where "w_log v = w_log u @ [(Popen (l_address l) (max 1 (l_seconds l div SECOND)) command, ans)]"
    using assms(3) by (auto simp: g_num_def g_call_def logged_def)
  moreover have "launched l command (pre @ [(Popen (l_address l) (max 1 (l_seconds l div SECOND)) command, ans)])"
    using assms(1,2) unfolding launched_def
    by (intro disjI2 exI [of _ pre] exI [of _ ans] exI [of _ "[]"]) (auto simp: grown_def plain_def)
  ultimately show ?thesis
    using assms(1) unfolding post_launch_def grown_def by auto
qed

lemma for_each_Nil: "for_each f xs = Inr [] \<Longrightarrow> xs = []"
  by (auto simp: for_each_Inr_iff)

lemma grown_cong: "grown C w u l \<Longrightarrow> grown C u v l' \<Longrightarrow> k = l @ l' \<Longrightarrow> grown C w v k"
  by (simp add: grown_trans)

lemma supervised_launched: "wp (supervised l start command) (\<lambda>res v. post_launch l command w v) w"
proof -
  have acquire: "only (\<lambda>c. \<not> is_popen c) acquire_lock"
    unfolding acquire_lock_def by (intro only_rules) (simp_all add: plain_not_popen)
  have observe: "only (\<lambda>c. \<not> is_popen c) available_bytes" "only (\<lambda>c. \<not> is_popen c) direct_children"
    "only (\<lambda>c. \<not> is_popen c) (subreaper v)" "only (\<lambda>c. \<not> is_popen c) (g_said Sigchld_default)" for v
    by (intro only_rules; simp add: plain_not_popen)+
  note unl = only_unlaunched [OF acquire] observe [THEN only_unlaunched]
  show ?thesis
    unfolding supervised_def Let_def go_on_def
  proof (intro wp_under wp_if wp_stop, goal_cases)
    case (9 fd w1 free w2 default w3 cs w4 previous w5)
    obtain l1 a where g1: "grown plain w w1 (l1 @ [(Flock fd, a)])" "\<forall>n. a \<noteq> Errno n"
      using acquire_Inr [OF 9(1)] by blast
    obtain t where g2: "grown plain w1 w2 [(Meminfo, Text t)]" "mem_available t = Inr free"
      using available_Inr [OF 9(2)] by blast
    have g3: "grown plain w2 w3 [(Sigchld_default, Said True)]"
      using said_Inr [OF 9(4)] 9(5) by simp
    obtain u where g4: "grown plain w3 w4 [(Children, Text u)]" "split_space [] u = []"
      using children_Inr [OF 9(6)] 9(7) for_each_Nil by blast
    have "only plain (subreaper (Some 1))" by (intro only_rules) simp_all
    from only_grown [OF this 9(8)] obtain l5 where g5: "grown plain w4 w5 l5" by blast
    let ?install = "install_handlers SIGNALS (fresh_guard\<lparr>s_lock := Some fd, s_previous := Some previous\<rparr>)"
    obtain r6 w6 where i: "?install w5 = (r6, w6)" by (cases "?install w5")
    from only_grown [OF only_install i] obtain l6 where g6: "grown plain w5 w6 l6" by blast
    define pre where "pre = l1 @ [(Flock fd, a), (Meminfo, Text t), (Sigchld_default, Said True), (Children, Text u)] @ l5 @ l6"
    have pre: "grown plain w w6 pre"
      using g1(1) g2(1) g3 g4(1) g5 g6 unfolding pre_def grown_def by auto
    then have "\<forall>e\<in>set pre. \<not> is_close (fst e)" by (auto simp: grown_def plain_def)
    then have ready: "ready l pre"
      using g1(2) g2(2) 9(3) g4(2)
      unfolding ready_def locked_def roomy_def childless_def pre_def by auto
    have launch: "wp (under s6 (g_num (Popen (l_address l) (max 1 (l_seconds l div SECOND)) command)) (\<lambda>child.
        watch l start child (s6\<lparr>s_child := Some child, s_owned := True\<rparr>))) (\<lambda>res v. post_launch l command w v) w6" for s6
    proof (rule wp_under, goal_cases)
      case (1 e v)
      then show ?case by (rule popen_post [OF pre ready])
    next
      case (2 child w7)
      note p = popen_post [OF pre ready 2]
      obtain r8 w8 where "watch l start child (s6\<lparr>s_child := Some child, s_owned := True\<rparr>) w7 = (r8, w8)"
        by (cases "watch l start child (s6\<lparr>s_child := Some child, s_owned := True\<rparr>) w7")
      with only_grown [OF only_watch this] p show ?case
        by (auto simp: wp_def dest!: grown_plain_unlaunched intro: post_launch_later)
    qed
    show ?case
      using i launch unlaunched_post [OF grown_plain_unlaunched [OF pre]]
      by (intro wp_seq_run [where m = ?install, OF i]) (auto simp: wp_ret split: sum.splits status.splits)
  qed (auto simp: wp_ret dest!: unl intro!: unlaunched_post, (meson unlaunched_trans)+)
qed

lemma only_cleanup: "only (\<lambda>c. \<not> is_popen c) (cleanup l start s)"
proof -
  have round: "only (\<lambda>c. \<not> is_popen c) (reap_round child)" for child
    by (rule only_mono [OF only_reap_round [of child]]) (auto simp: is_popen_def split: gcall.splits)
  have stop: "only (\<lambda>c. \<not> is_popen c) (stop_children child)" for child
    by (intro only_stop_children round) (simp_all add: plain_not_popen)
  have restore: "only (\<lambda>c. \<not> is_popen c) (restore_handlers hs)" for hs
    by (induction hs) (auto intro!: only_rules simp: plain_not_popen)
  show ?thesis
    unfolding cleanup_def reap_child_def restore_subreaper_def
    by (intro only_rules stop restore) (simp_all add: plain_not_popen)
qed

lemma seq_run: "m w = (Inr x, u) \<Longrightarrow> seq m f w = f x u"
  by (simp add: seq_def)

lemma check_True: "check True e w = (Inr (), w)"
  by (simp add: check_def ret_def)

lemma ready_prefix:
  assumes "ready l pre" "\<forall>e\<in>set l1. plain (fst e)"
  shows "ready l (l1 @ pre)"
proof -
  from assms(1) obtain fd a where "(Flock fd, a) \<in> set pre" "\<forall>n. a \<noteq> Errno n" "\<forall>e\<in>set pre. \<not> is_close (fst e)"
    by (auto simp: ready_def locked_def)
  with assms(2) have "locked (l1 @ pre)"
    unfolding locked_def by (intro exI [of _ fd] exI [of _ a]) (auto simp: plain_def)
  moreover have "roomy l (l1 @ pre)" "childless (l1 @ pre)"
    using assms(1) by (auto simp: ready_def roomy_def childless_def)
  ultimately show ?thesis by (simp add: ready_def)
qed

lemma post_launch_plain: "grown plain w u l1 \<Longrightarrow> post_launch l command u v \<Longrightarrow> post_launch l command w v"
proof -
  assume "grown plain w u l1" "post_launch l command u v"
  then obtain lg where *: "w_log u = w_log w @ l1" "\<forall>e\<in>set l1. plain (fst e)" "w_log v = w_log u @ lg"
    "launched l command lg"
    by (auto simp: grown_def post_launch_def)
  have "launched l command (l1 @ lg)"
    using *(4) unfolding launched_def
  proof (elim disjE exE conjE)
    fix pre ans post
    assume "lg = pre @ (Popen (l_address l) (max 1 (l_seconds l div SECOND)) command, ans) # post"
      "\<forall>e\<in>set pre. \<not> is_popen (fst e)" "\<forall>e\<in>set post. \<not> is_popen (fst e)" "ready l pre"
    moreover from \<open>ready l pre\<close> *(2) have "ready l (l1 @ pre)" by (rule ready_prefix)
    ultimately show "(\<forall>e\<in>set (l1 @ lg). \<not> is_popen (fst e)) \<or>
      (\<exists>pre ans post. l1 @ lg = pre @ (Popen (l_address l) (max 1 (l_seconds l div SECOND)) command, ans) # post \<and>
        (\<forall>e\<in>set pre. \<not> is_popen (fst e)) \<and> (\<forall>e\<in>set post. \<not> is_popen (fst e)) \<and> ready l pre)"
      using *(2) by (intro disjI2 exI [of _ "l1 @ pre"] exI [of _ ans] exI [of _ post]) (auto simp: plain_def)
  qed (use *(2) in \<open>auto simp: plain_def\<close>)
  with * show ?thesis by (auto simp: post_launch_def)
qed

lemma supervise_launched:
  assumes "supervise l command w = (r, v)"
  shows "\<exists>lg. w_log v = w_log w @ lg \<and> launched l command lg \<and> (\<not> tightened l \<longrightarrow> lg = [])"
proof (cases "tightened l")
  case False
  then have "v = w" using assms by (simp add: supervise_def seq_def check_def raise_def)
  then show ?thesis by (simp add: launched_def)
next
  case True
  obtain start w1 where c: "clock w = (Inr start, w1)" by (simp add: clock_def Let_def)
  obtain r2 w2 where b: "supervised l start command w1 = (r2, w2)" by (cases "supervised l start command w1")
  have "post_launch l command w1 w2" using wpD [OF supervised_launched b] .
  moreover have "unlaunched w2 v"
  proof (cases r2)
    case (Inl e)
    with True assms c b have "v = w2" by (auto simp: supervise_def seq_def check_def ret_def)
    then show ?thesis by (auto simp: unlaunched_def grown_def intro!: exI [of _ "[]"])
  next
    case (Inr p)
    obtain s st where p: "p = (s, st)" by (cases p)
    let ?k = "case handled s st of (s', escaped) \<Rightarrow> seq (cleanup l start s') (\<lambda>r. case escaped of None \<Rightarrow> ret r | Some e \<Rightarrow> raise e)"
    have "?k w2 = (r, v)"
      using assms True
      by (simp add: supervise_def seq_run [where m = clock, OF c] seq_run [where m = "check True ValueError", OF check_True]
          seq_run [where m = "supervised l start command", OF b [unfolded Inr p]])
    moreover have "only (\<lambda>c. \<not> is_popen c) ?k" by (intro only_rules only_cleanup)
    ultimately show ?thesis using only_unlaunched by blast
  qed
  ultimately have "post_launch l command w1 v" by (rule post_launch_later)
  moreover have "only plain clock" by (intro only_rules) simp
  from only_grown [OF this c] obtain l1 where "grown plain w w1 l1" by blast
  ultimately have "post_launch l command w v" by (rule post_launch_plain [rotated])
  with True show ?thesis by (auto simp: post_launch_def)
qed

section \<open>Variables and descriptors\<close>

lemma keeps_g [keeps]:
  "keeps_fds (g_call c f)" "keeps_fds (g_unit c)" "keeps_fds (g_num c)" "keeps_fds (g_said c)"
  "keeps_fds (g_text c)" "keeps_fds (g_names c)" "keeps_fds (lock_stat fd)" "keeps_fds clock" "keeps_fds (sleep d)"
  by (auto simp: keeps_fds_def g_unit_def g_num_def g_said_def g_text_def g_names_def g_call_def
      lock_stat_def clock_def sleep_def logged_def Let_def)

lemma keeps_option [keeps]:
  "(\<And>x. keeps_fds (f x)) \<Longrightarrow> keeps_fds m \<Longrightarrow> keeps_fds (case r of None \<Rightarrow> m | Some x \<Rightarrow> f x)"
  by (cases r) simp_all

lemma keeps_observe [keeps]:
  "keeps_fds available_bytes" "keeps_fds direct_children" "keeps_fds (session_rss s)" "keeps_fds (subreaper v)"
proof -
  have "keeps_fds (sum_pages s ns)" for ns
    by (induction ns) (auto intro!: keeps)
  then show "keeps_fds available_bytes" "keeps_fds direct_children" "keeps_fds (session_rss s)" "keeps_fds (subreaper v)"
    unfolding available_bytes_def direct_children_def session_rss_def subreaper_def
    by (auto intro!: keeps)
qed

lemma keepsD: "keeps_fds m \<Longrightarrow> m w = (r, v) \<Longrightarrow> w_fds v = w_fds w"
  unfolding keeps_fds_def by (metis snd_conv)

lemma watch_fds: "wp (watch l start child s) (\<lambda>res v. w_fds v = w_fds w) w"
proof (induction l start child s w rule: watch.induct)
  case (1 l start child s w)
  note stages = keepsD [OF keeps_g(4)] keepsD [OF keeps_observe(3)] keepsD [OF keeps_observe(1)]
    keepsD [OF keeps_g(8)] keepsD [OF keeps_g(9)]
  show ?case
  proof (subst watch_unfold, intro wp_under wp_branch wp_stop, goal_cases)
    case (12 observed w1 signalled w2 rss w3 free w4 t w5 u w6)
    then have "wp (watch l start child (s\<lparr>s_peak := max (s_peak s) rss\<rparr>)) (\<lambda>res v. w_fds v = w_fds w6) w6"
      using 1 by blast
    moreover have "w_fds w6 = w_fds w" using 12 by (auto dest!: stages)
    ultimately show ?case by simp
  qed (auto simp: wp_ret dest!: stages)
qed

lemma open_lock_fds:
  "open_lock p w = (r, v) \<Longrightarrow> w_fds v = (case r of Inl _ \<Rightarrow> w_fds w | Inr fd \<Rightarrow> fd # w_fds w)"
  by (auto simp: open_lock_def logged_def Let_def split: ganswer.splits)

lemma close_lock_fds: "close_lock fd w = (r, v) \<Longrightarrow> w_fds v = remove1 fd (w_fds w)"
  by (auto simp: close_lock_def logged_def Let_def split: ganswer.splits)

lemma on_error_fds:
  assumes "keeps_fds m" "on_error m (close_lock fd) w = (r, v)"
  shows "w_fds v = (case r of Inl _ \<Rightarrow> remove1 fd (w_fds w) | Inr _ \<Rightarrow> w_fds w)"
proof -
  obtain r1 u where "m w = (r1, u)" by (cases "m w")
  moreover obtain r2 u2 where "close_lock fd u = (r2, u2)" by (cases "close_lock fd u")
  ultimately show ?thesis
    using keepsD [OF assms(1)] close_lock_fds [of fd u] assms(2)
    by (auto simp: on_error_def split: sum.splits)
qed

lemma acquire_fds:
  assumes "acquire_lock w = (r, v)"
  shows "w_fds v = (case r of Inl _ \<Rightarrow> w_fds w | Inr fd \<Rightarrow> fd # w_fds w)"
proof -
  obtain r1 u where e: "g_num Euid w = (r1, u)" by (cases "g_num Euid w")
  have u: "w_fds u = w_fds w" by (rule keepsD [OF keeps_g(3) e])
  show ?thesis
  proof (cases r1)
    case (Inr uid)
    let ?path = "str ''/tmp/niaos-proof-'' @ dec_int uid @ str ''.lock''"
    obtain r2 u2 where o: "open_lock ?path u = (r2, u2)" by (cases "open_lock ?path u")
    show ?thesis
    proof (cases r2)
      case inner: (Inr fd)
      let ?m = "seq (lock_stat fd) (\<lambda>(mode, owner, links).
        seq (check (S_ISREG mode) not_private) (\<lambda>_.
        seq (g_num Euid) (\<lambda>uid'.
        seq (check (owner = uid' \<and> mode AND 63 = 0 \<and> links = 1) not_private) (\<lambda>_.
        seq (g_unit (Flock fd)) (\<lambda>_.
        ret fd)))))"
      have m: "keeps_fds ?m"
        by (intro keeps; clarsimp; intro keeps)
      have run: "on_error ?m (close_lock fd) u2 = (r, v)"
        using assms
        by (simp add: acquire_lock_def seq_run [where m = "g_num Euid", OF e [unfolded Inr]]
            seq_run [where m = "open_lock ?path", OF o [unfolded inner]])
      have "r = Inr x \<Longrightarrow> x = fd" for x
        using run by (auto simp: runs split: prod.splits)
      with on_error_fds [OF m run] open_lock_fds [OF o] u inner show ?thesis
        by (auto split: sum.splits)
    qed (use assms e o u Inr open_lock_fds [OF o] in \<open>auto simp: acquire_lock_def seq_def\<close>)
  qed (use assms e u in \<open>auto simp: acquire_lock_def seq_def\<close>)
qed

definition held :: "nat list \<Rightarrow> guard \<Rightarrow> nat list" where
  "held fds s = (case s_lock s of None \<Rightarrow> fds | Some fd \<Rightarrow> fd # fds)"

lemma install_state:
  "wp (install_handlers ns s) (\<lambda>res v. \<exists>hs st. res = Inr (s\<lparr>s_handlers := hs\<rparr>, st) \<and> w_fds v = w_fds w) w"
proof (induction ns arbitrary: s w)
  case Nil
  then show ?case by (simp add: wp_ret) (metis guard.surjective guard.update_convs(7))
next
  case (Cons n ns)
  show ?case
    unfolding install_handlers.simps
  proof (rule wp_under, goal_cases)
    case (1 e v)
    then show ?case
      using keepsD [OF keeps_g(3) 1] by simp (metis guard.surjective guard.update_convs(7))
  next
    case (2 old u)
    show ?case
      by (rule wp_mono [OF Cons.IH]) (use keepsD [OF keeps_g(3) 2] in auto)
  qed
qed

text \<open>The variables when the \<open>try\<close> block ends.\<close>

definition ended :: "limits \<Rightarrow> nat list \<Rightarrow> (guard \<times> status) res \<Rightarrow> nat list \<Rightarrow> bool" where
  "ended l fds res fds' \<longleftrightarrow> (\<exists>s st. res = Inr (s, st) \<and> fds' = held fds s \<and>
     (st = Finished \<and> s_reason s = None \<longrightarrow> s_child s \<noteq> None \<and> s_owned s \<and> s_peak s \<le> l_session l * MIB))"

lemma supervised_ended:
  assumes l: "0 \<le> l_session l"
  shows "wp (supervised l start command) (\<lambda>res v. ended l (w_fds w) res (w_fds v)) w"
  unfolding supervised_def Let_def go_on_def
proof (intro wp_under wp_if wp_stop, goal_cases)
  case (9 fd w1 free w2 default w3 cs w4 previous w5)
  have w5: "w_fds w5 = fd # w_fds w"
    using acquire_fds [OF 9(1)] keepsD [OF keeps_observe(1) 9(2)] keepsD [OF keeps_g(4) 9(4)]
      keepsD [OF keeps_observe(2) 9(6)] keepsD [OF keeps_observe(4) 9(8)] by simp
  show ?case
    unfolding wp_seq
  proof (rule wp_mono [OF install_state], clarify, goal_cases)
    case (1 r v hs st)
    let ?s = "fresh_guard\<lparr>s_lock := Some fd, s_previous := Some previous, s_handlers := hs\<rparr>"
    have v: "w_fds v = held (w_fds w) ?s"
      using 1 w5 by (simp add: held_def)
    have launch: "wp (under ?s (g_num (Popen (l_address l) (max 1 (l_seconds l div SECOND)) command)) (\<lambda>child.
        watch l start child (?s\<lparr>s_child := Some child, s_owned := True\<rparr>))) (\<lambda>res v. ended l (w_fds w) res (w_fds v)) v"
    proof (rule wp_under, goal_cases)
      case (1 e u)
      with v keepsD [OF keeps_g(3) 1] show ?case by (auto simp: ended_def)
    next
      case (2 child u)
      have "wp (watch l start child (?s\<lparr>s_child := Some child, s_owned := True\<rparr>)) (\<lambda>res x.
          watched l (?s\<lparr>s_child := Some child, s_owned := True\<rparr>) res \<and> w_fds x = w_fds u) u"
        unfolding wp_conj by (intro conjI watch_watched watch_fds) (simp add: fresh_guard_def)
      then show ?case
        by (rule wp_mono)
          (use v keepsD [OF keeps_g(3) 2] l in \<open>auto simp: ended_def watched_def held_def fresh_guard_def MIB_def\<close>)
    qed
    with v show ?case
      by (cases st) (auto simp: wp_ret ended_def)
  qed
qed (auto simp: ended_def held_def fresh_guard_def wp_ret dest!: acquire_fds keepsD [OF keeps_g(4)] keepsD [OF keeps_observe(1)]
    keepsD [OF keeps_observe(2)] keepsD [OF keeps_observe(4)])

lemma keeps_run: "keeps_fds m \<Longrightarrow> m w = (r, v) \<Longrightarrow> w_fds v = w_fds w \<and> w_os v = w_os w"
  unfolding keeps_fds_def by (metis snd_conv)

lemma wp_seqI:
  assumes "\<And>e v. m w = (Inl e, v) \<Longrightarrow> Q (Inl e) v" "\<And>x u. m w = (Inr x, u) \<Longrightarrow> wp (f x) Q u"
  shows "wp (seq m f) Q w"
  using assms by (cases "m w"; cases "fst (m w)") (auto simp: wp_def seq_def)

lemma keeps_stop_children [keeps]: "keeps_fds (stop_children child)"
proof -
  have round: "keeps_fds (reap_round child)" for child
  proof -
    have "keeps_fds (kill_others child pids)" for pids
      by (induction pids) (auto intro!: keeps)
    then show ?thesis unfolding reap_round_def all_reaped_def by (intro keeps)
  qed
  have "wp (reap_loop child deadline) (\<lambda>r v. w_fds v = w_fds w \<and> w_os v = w_os w) w" for deadline w
  proof (induction child deadline w rule: reap_loop.induct)
    case (1 child deadline w)
    note stages = keeps_run [OF keeps_g(8)] keeps_run [OF round] keeps_run [OF keeps_g(9)] keeps_run [OF keeps_g(3)]
    show ?case
    proof (subst reap_loop_unfold, intro wp_seqI wp_branch, goal_cases)
      case (5 t w1 alone w2 u w3)
      then have "wp (reap_loop child deadline) (\<lambda>r v. w_fds v = w_fds w3 \<and> w_os v = w_os w3) w3"
        using 1 by blast
      then show ?case using 5 by (auto dest!: stages)
    qed (auto simp: raise_def wp_def dest!: stages split: prod.splits)
  qed
  then have "keeps_fds (reap_loop child deadline)" for deadline
    by (simp add: keeps_fds_def wp_def case_prod_unfold)
  then show ?thesis unfolding stop_children_def by (intro keeps)
qed

text \<open>The two cleanup stages that may set a reason never clear one, and touch nothing else of ours.\<close>

definition same_guard :: "guard \<Rightarrow> guard \<Rightarrow> bool" where
  "same_guard s s' \<longleftrightarrow> s_lock s' = s_lock s \<and> s_peak s' = s_peak s \<and> (s_reason s' = None \<longrightarrow> s_reason s = None)"

lemma attempt_state:
  assumes "seq (attempt P m) (\<lambda>r. ret (case r of Inl e \<Rightarrow> f e | Inr x \<Rightarrow> g x)) w = (Inr s', v)"
    "\<And>e. same_guard s (f e)" "\<And>x. same_guard s (g x)"
  shows "same_guard s s'"
proof -
  obtain r where "s' = (case r of Inl e \<Rightarrow> f e | Inr x \<Rightarrow> g x)"
    using assms(1) by (auto simp: seq_Inr_iff pure_Inr_iff)
  with assms(2,3) show ?thesis by (cases r) auto
qed

lemma reap_child_state: "reap_child s w = (Inr s', v) \<Longrightarrow> same_guard s s'"
  by (cases "s_child s"; cases "s_owned s")
    (auto simp: reap_child_def ret_def same_guard_def elim!: attempt_state [unfolded same_guard_def])

lemma restore_subreaper_state: "restore_subreaper s w = (Inr s', v) \<Longrightarrow> same_guard s s'"
  by (cases "s_previous s") (auto simp: restore_subreaper_def ret_def same_guard_def elim!: attempt_state [unfolded same_guard_def])

lemma cleanup_returns:
  assumes "cleanup l start s w = (Inr r, v)" "w_fds w = held fds s"
  shows "w_fds v = fds" and "o_result r = Passed \<Longrightarrow> s_reason s = None \<and> o_reason r = None \<and> o_code r = Some 0 \<and>
    o_peak r = s_peak s"
proof -
  from assms(1) obtain s1 w1 s2 w2 w3 w4 t where
    s1: "reap_child s w = (Inr s1, w1)" and s2: "restore_subreaper s1 w1 = (Inr s2, w2)" and
    w3: "restore_handlers (s_handlers s2) w2 = (Inr (), w3)" and
    w4: "(case s_lock s2 of None \<Rightarrow> ret () | Some fd \<Rightarrow> close_lock fd) w3 = (Inr (), w4)" and
    t: "clock w4 = (Inr t, v)" and r: "r = result_of l s2 (t - start)"
    by (auto simp: cleanup_def runs)
  have s2s: "s_lock s2 = s_lock s" "s_peak s2 = s_peak s" "s_reason s2 = None \<Longrightarrow> s_reason s = None"
    using reap_child_state [OF s1] restore_subreaper_state [OF s2] by (auto simp: same_guard_def)
  have "keeps_fds (restore_handlers hs)" for hs
    by (induction hs) (auto intro!: keeps)
  moreover have "keeps_fds (reap_child s)" "keeps_fds (restore_subreaper s1)"
    unfolding reap_child_def restore_subreaper_def by (auto intro!: keeps split: option.splits)
  ultimately have "w_fds w3 = w_fds w"
    using keepsD s1 s2 w3 by metis
  with w4 t s2s(1) assms(2) show "w_fds v = fds"
    by (cases "s_lock s") (auto simp: ret_def held_def dest!: close_lock_fds keepsD [OF keeps_g(8)])
  show "o_result r = Passed \<Longrightarrow> s_reason s = None \<and> o_reason r = None \<and> o_code r = Some 0 \<and> o_peak r = s_peak s"
    using s2s by (auto simp: r result_of_def split: if_splits)
qed

lemma handled_simps:
  "handled s st = (s', x) \<Longrightarrow> s_lock s' = s_lock s \<and> s_peak s' = s_peak s \<and>
     (x = None \<and> s_reason s' = None \<longrightarrow> st = Finished \<and> s' = s)"
  by (auto simp: handled_def split: status.splits if_splits)

lemma supervise_returns:
  assumes run: "supervise l command w = (Inr r, v)"
  shows "w_fds v = w_fds w" and "o_result r = Passed \<Longrightarrow> o_reason r = None \<and> o_code r = Some 0 \<and> o_peak r \<le> l_session l * MIB"
proof -
  from run obtain start w1 s st w2 where
    l: "tightened l" and w1: "clock w = (Inr start, w1)" and b: "supervised l start command w1 = (Inr (s, st), w2)" and
    k: "(let (s, x) = handled s st in seq (cleanup l start s) (\<lambda>r. case x of None \<Rightarrow> ret r | Some e \<Rightarrow> raise e)) w2 = (Inr r, v)"
    by (auto simp: supervise_def seq_Inr_iff pure_Inr_iff)
  obtain s' x where h: "handled s st = (s', x)" by (cases "handled s st")
  from k [unfolded h] obtain r' w3 where c: "cleanup l start s' w2 = (Inr r', w3)" and
    e: "(case x of None \<Rightarrow> ret r' | Some e \<Rightarrow> raise e) w3 = (Inr r, v)"
    by (auto simp: seq_Inr_iff)
  have x: "x = None" "r' = r" "w3 = v" using e by (auto simp: runs split: option.splits)
  have "ended l (w_fds w1) (Inr (s, st)) (w_fds w2)"
    using l by (intro wpD [OF supervised_ended b]) (simp add: tightened_def)
  then have fds: "w_fds w2 = held (w_fds w1) s'" and ok: "st = Finished \<and> s_reason s = None \<longrightarrow> s_peak s \<le> l_session l * MIB"
    using handled_simps [OF h] by (auto simp: ended_def held_def)
  show "w_fds v = w_fds w"
    using cleanup_returns(1) [OF c fds] keepsD [OF keeps_g(8) w1] x by simp
  show "o_reason r = None \<and> o_code r = Some 0 \<and> o_peak r \<le> l_session l * MIB" if "o_result r = Passed"
    using cleanup_returns(2) [OF c fds] handled_simps [OF h] ok that x by auto
qed

section \<open>The child's limits\<close>

definition lowered :: "nat \<Rightarrow> int \<Rightarrow> int \<Rightarrow> ganswer \<Rightarrow> (gcall \<times> ganswer) list" where
  "lowered kind v hard a =
     [(Getrlimit kind, Num hard), (Setrlimit kind (if hard \<noteq> - 1 then min v hard else v), a)]"

lemma lower_limit_sets:
  "lower_limit kind n w = (Inr (), v) \<Longrightarrow> \<exists>hard a. w_log v = w_log w @ lowered kind n hard a \<and> (\<forall>e. a \<noteq> Errno e)"
  by (auto simp: lower_limit_def lowered_def g_num_def g_unit_def runs dest!: g_call_Inr split: ganswer.splits)

text \<open>An \<open>exec\<close> comes after the three limits have been lowered.\<close>

lemma child_execs:
  assumes "child_main args w = (Inr (), v)"
  obtains mem cpu cmd m c h1 h2 h3 a1 a2 a3 a4 a5 where
    "args = mem # cpu # cmd" "cmd \<noteq> []" "int_of mem = Inr m" "int_of cpu = Inr c"
    "\<forall>e. a1 \<noteq> Errno e" "\<forall>e. a2 \<noteq> Errno e" "\<forall>e. a3 \<noteq> Errno e"
    "w_log v = w_log w @ lowered RLIMIT_AS (m * MIB) h1 a1 @ lowered RLIMIT_CORE 0 h2 a2 @
      lowered RLIMIT_CPU c h3 a3 @ [(Nice 15, a4), (Exec cmd, a5)]"
proof -
  from assms obtain m c p w1 w2 w3 w4 where
    m: "rbind (field args 0) int_of = Inr m" and c: "rbind (field args 1) int_of = Inr c" and
    p: "field args 2 = Inr p" and
    l: "lower_limit RLIMIT_AS (m * MIB) w = (Inr (), w1)" "lower_limit RLIMIT_CORE 0 w1 = (Inr (), w2)"
      "lower_limit RLIMIT_CPU c w2 = (Inr (), w3)" and
    x: "g_unit (Nice 15) w3 = (Inr (), w4)" "g_unit (Exec (drop 2 args)) w4 = (Inr (), v)"
    by (auto simp: child_main_def runs)
  obtain mem cpu cmd where args: "args = mem # cpu # cmd" "cmd \<noteq> []"
    using p by (cases args rule: remdups_adj.cases) (auto simp: field_def split: if_splits)
  obtain a4 a5 where tail: "w_log w4 = w_log w3 @ [(Nice 15, a4)]" "w_log v = w_log w4 @ [(Exec cmd, a5)]"
    using x by (auto simp: g_unit_def args dest!: g_call_Inr)
  obtain h1 a1 where 1: "w_log w1 = w_log w @ lowered RLIMIT_AS (m * MIB) h1 a1" "\<forall>e. a1 \<noteq> Errno e"
    using lower_limit_sets [OF l(1)] by blast
  obtain h2 a2 where 2: "w_log w2 = w_log w1 @ lowered RLIMIT_CORE 0 h2 a2" "\<forall>e. a2 \<noteq> Errno e"
    using lower_limit_sets [OF l(2)] by blast
  obtain h3 a3 where 3: "w_log w3 = w_log w2 @ lowered RLIMIT_CPU c h3 a3" "\<forall>e. a3 \<noteq> Errno e"
    using lower_limit_sets [OF l(3)] by blast
  show thesis
    by (rule that [OF args _ _ 1(2) 2(2) 3(2), where m = m and c = c and ?h1.0 = h1 and ?h2.0 = h2 and ?h3.0 = h3
          and ?a4.0 = a4 and ?a5.0 = a5])
      (use m c args in \<open>simp_all add: field_def 1(1) 2(1) 3(1) tail\<close>)
qed

section \<open>Exit codes\<close>

lemma guard_main_zero:
  assumes run: "guard_main words seconds w = (Inr 0, v)"
  shows "\<exists>tool args uid w1 r. (if take 1 words = [str ''--''] then drop 1 words else words) = tool # args \<and>
    1 \<le> seconds \<and> seconds \<le> 3600 \<and> g_num Euid w = (Inr uid, w1) \<and> uid \<noteq> 0 \<and> \<not> list_ex is_job_option args \<and>
    supervise (default_limits seconds) (tool # str ''-j1'' # args) w1 = (Inr r, v) \<and> o_result r = Passed"
proof (cases "if take 1 words = [str ''--''] then drop 1 words else words")
  case Nil
  with run show ?thesis by (simp add: guard_main_def ret_def)
next
  case (Cons tool args)
  note run' = run [unfolded guard_main_def Cons list.case]
  have s: "1 \<le> seconds" "seconds \<le> 3600"
    using run' by (auto simp: ret_def SECONDS_def SECOND_def split: if_splits)
  with run' obtain uid w1 where u: "g_num Euid w = (Inr uid, w1)" and
    k: "(if uid = 0 \<or> list_ex is_job_option args then ret 2
      else seq (supervise (default_limits seconds) (tool # str ''-j1'' # args)) (\<lambda>r.
        ret (if o_result r = Passed then 0 else 1))) w1 = (Inr (0 :: int), v)"
    by (auto simp: SECONDS_def SECOND_def seq_Inr_iff)
  then have n: "\<not> (uid = 0 \<or> list_ex is_job_option args)" by (auto simp: ret_def split: if_splits)
  with k obtain r where "supervise (default_limits seconds) (tool # str ''-j1'' # args) w1 = (Inr r, v)"
    "o_result r = Passed"
    by (auto simp: seq_Inr_iff pure_Inr_iff split: if_splits)
  with Cons s u n show ?thesis by blast
qed

end
