(* ===== verification/Regex.thy ===== *)
theory Regex
  imports Text
begin

text \<open>
  Regular expressions as Python's \<open>re\<close> runs them: a backtracking matcher that lists all matches in
  the order in which they are tried, so that the first is the one \<open>re\<close> reports. Classes are
  predicates on code points. The lemmas show that a match consumes a prefix of the text, that the
  fuel of a repetition is enough, and that \<open>fullmatch\<close> decides membership in the language of the
  expression.
\<close>

section \<open>Expressions and cursors\<close>

datatype regex =
    Nothing
  | Class "nat \<Rightarrow> bool"
  | Cat regex regex
  | Alt regex regex
  | Star bool regex
  | Group nat regex
  | Boundary "nat \<Rightarrow> bool"

text \<open>
  \<open>Star True\<close> is greedy, \<open>Star False\<close> is not; \<open>Group n\<close> is a capture; \<open>Boundary word\<close> is \<open>\b\<close>. A cursor
  stands between the text consumed, last character first, and the text to come.
\<close>

record cursor =
  c_before :: pystr
  c_after :: pystr
  c_groups :: "(nat \<times> pystr) list"

definition at_start :: "pystr \<Rightarrow> cursor" where
  "at_start t = \<lparr>c_before = [], c_after = t, c_groups = []\<rparr>"

definition advance :: "cursor \<Rightarrow> cursor" where
  "advance s =
     (case c_after s of [] \<Rightarrow> s | c # r \<Rightarrow> s\<lparr>c_before := c # c_before s, c_after := r\<rparr>)"

definition at_boundary :: "(nat \<Rightarrow> bool) \<Rightarrow> cursor \<Rightarrow> bool" where
  "at_boundary word s \<longleftrightarrow>
     (c_before s \<noteq> [] \<and> word (hd (c_before s))) \<noteq> (c_after s \<noteq> [] \<and> word (hd (c_after s)))"

section \<open>Matching\<close>

text \<open>Repetition of a step that has to consume something; the fuel is the length of the text.\<close>

fun repeat :: "nat \<Rightarrow> bool \<Rightarrow> (cursor \<Rightarrow> cursor list) \<Rightarrow> cursor \<Rightarrow> cursor list" where
  "repeat 0 greedy f s = [s]"
| "repeat (Suc n) greedy f s =
     (let more = concat (map (repeat n greedy f) (filter (\<lambda>s'. length (c_after s') < length (c_after s)) (f s)))
      in if greedy then more @ [s] else s # more)"

fun matches :: "regex \<Rightarrow> cursor \<Rightarrow> cursor list" where
  "matches Nothing s = [s]"
| "matches (Class P) s = (case c_after s of [] \<Rightarrow> [] | c # r \<Rightarrow> if P c then [advance s] else [])"
| "matches (Cat a b) s = concat (map (matches b) (matches a s))"
| "matches (Alt a b) s = matches a s @ matches b s"
| "matches (Star greedy a) s = repeat (length (c_after s)) greedy (matches a) s"
| "matches (Group n a) s =
     map (\<lambda>s'. s'\<lparr>c_groups := (n, take (length (c_after s) - length (c_after s')) (c_after s)) # c_groups s'\<rparr>)
       (matches a s)"
| "matches (Boundary word) s = (if at_boundary word s then [s] else [])"

definition first :: "'a list \<Rightarrow> 'a option" where
  "first xs = (case xs of [] \<Rightarrow> None | x # _ \<Rightarrow> Some x)"

definition full_match :: "regex \<Rightarrow> pystr \<Rightarrow> bool" where
  "full_match a t = list_ex (\<lambda>s. c_after s = []) (matches a (at_start t))"

text \<open>\<open>re.search\<close> tries one position after the other.\<close>

function search :: "regex \<Rightarrow> cursor \<Rightarrow> cursor option" where
  "search a s =
     (case matches a s of
        s' # _ \<Rightarrow> Some s'
      | [] \<Rightarrow> if c_after s = [] then None else search a (advance s))"
  by pat_completeness auto
termination
  by (relation "measure (\<lambda>(a, s). length (c_after s))") (auto simp: advance_def split: list.splits)

declare search.simps [simp del]

text \<open>\<open>re.findall\<close> for one group: the search goes on after each match, one further if it was empty.\<close>

definition group :: "nat \<Rightarrow> cursor \<Rightarrow> pystr option" where
  "group n s = map_of (c_groups s) n"

section \<open>Expressions built from others\<close>

definition literal :: "pystr \<Rightarrow> regex" where
  "literal w = foldr (\<lambda>c. Cat (Class (\<lambda>x. x = c))) w Nothing"

fun times :: "nat \<Rightarrow> regex \<Rightarrow> regex" where
  "times 0 a = Nothing"
| "times (Suc n) a = Cat a (times n a)"

definition some_of :: "regex \<Rightarrow> regex" where
  "some_of a = Cat a (Star True a)"

definition many :: "regex \<Rightarrow> regex" where
  "many a = Star True a"

text \<open>With \<open>re.I\<close> a class matches a character if it contains one of its case variants.\<close>

definition any_case :: "(nat \<Rightarrow> nat list) \<Rightarrow> (nat \<Rightarrow> bool) \<Rightarrow> regex" where
  "any_case variants P = Class (\<lambda>c. list_ex P (c # variants c))"

definition literal_any_case :: "(nat \<Rightarrow> nat list) \<Rightarrow> pystr \<Rightarrow> regex" where
  "literal_any_case variants w = foldr (\<lambda>c. Cat (any_case variants (\<lambda>x. x = c))) w Nothing"

section \<open>A match consumes a prefix\<close>

definition reached :: "cursor \<Rightarrow> cursor \<Rightarrow> pystr \<Rightarrow> bool" where
  "reached s s' u \<longleftrightarrow> c_after s = u @ c_after s' \<and> c_before s' = rev u @ c_before s"

lemma reached_refl [simp]: "reached s s []"
  by (simp add: reached_def)

lemma reached_trans: "reached s s' u \<Longrightarrow> reached s' s'' v \<Longrightarrow> reached s s'' (u @ v)"
  by (simp add: reached_def)

lemma reached_advance: "c_after s = c # r \<Longrightarrow> reached s (advance s) [c]"
  by (simp add: reached_def advance_def)

lemma repeat_reached:
  assumes f: "\<And>s s'. s' \<in> set (f s) \<Longrightarrow> \<exists>u. reached s s' u"
  shows "s' \<in> set (repeat n greedy f s) \<Longrightarrow> \<exists>u. reached s s' u"
proof (induction n arbitrary: s)
  case 0
  then show ?case by (auto intro: reached_refl)
next
  case (Suc n)
  then consider "s' = s" | s1 where "s1 \<in> set (f s)" "s' \<in> set (repeat n greedy f s1)"
    by (auto simp: Let_def split: if_splits)
  then show ?case
    by cases (use f Suc.IH reached_trans in \<open>blast intro: reached_refl\<close>)+
qed

lemma matches_reached: "s' \<in> set (matches a s) \<Longrightarrow> \<exists>u. reached s s' u"
proof (induction a arbitrary: s s')
  case (Class P)
  then show ?case by (auto split: list.splits if_splits intro: reached_advance [OF sym])
next
  case (Cat a b)
  then obtain s1 where "s1 \<in> set (matches a s)" "s' \<in> set (matches b s1)" by auto
  with Cat.IH show ?case using reached_trans by blast
next
  case (Star greedy a)
  show ?case
    using Star.prems by (auto intro: repeat_reached Star.IH)
next
  case (Group n a)
  then show ?case by (fastforce simp: reached_def)
qed (auto split: if_splits intro: reached_refl)

section \<open>The language of an expression\<close>

fun contextless :: "regex \<Rightarrow> bool" where
  "contextless (Boundary word) \<longleftrightarrow> False"
| "contextless (Cat a b) \<longleftrightarrow> contextless a \<and> contextless b"
| "contextless (Alt a b) \<longleftrightarrow> contextless a \<and> contextless b"
| "contextless (Star greedy a) \<longleftrightarrow> contextless a"
| "contextless (Group n a) \<longleftrightarrow> contextless a"
| "contextless _ \<longleftrightarrow> True"

inductive produces :: "regex \<Rightarrow> pystr \<Rightarrow> bool" where
  nothing: "produces Nothing []"
| char: "P c \<Longrightarrow> produces (Class P) [c]"
| cat: "produces a u \<Longrightarrow> produces b v \<Longrightarrow> produces (Cat a b) (u @ v)"
| left: "produces a u \<Longrightarrow> produces (Alt a b) u"
| right: "produces b u \<Longrightarrow> produces (Alt a b) u"
| stop: "produces (Star greedy a) []"
| again: "produces a u \<Longrightarrow> produces (Star greedy a) v \<Longrightarrow> produces (Star greedy a) (u @ v)"
| capture: "produces a u \<Longrightarrow> produces (Group n a) u"

inductive_simps produces_simps [simp]:
  "produces Nothing u" "produces (Class P) u" "produces (Cat a b) u" "produces (Alt a b) u"
  "produces (Group n a) u"

lemma repeat_sound:
  assumes f: "\<And>s s' u. s' \<in> set (f s) \<Longrightarrow> reached s s' u \<Longrightarrow> produces a u"
    and reach: "\<And>s s'. s' \<in> set (f s) \<Longrightarrow> \<exists>u. reached s s' u"
  shows "s' \<in> set (repeat n greedy f s) \<Longrightarrow> \<exists>u. reached s s' u \<and> produces (Star greedy a) u"
proof (induction n arbitrary: s)
  case 0
  then show ?case by (auto intro: stop reached_refl)
next
  case (Suc n)
  then consider "s' = s" | s1 where "s1 \<in> set (f s)" "s' \<in> set (repeat n greedy f s1)"
    by (auto simp: Let_def split: if_splits)
  then show ?case
  proof cases
    case 1
    then show ?thesis by (auto intro: stop reached_refl)
  next
    case 2
    from reach [OF 2(1)] obtain u where "reached s s1 u" by blast
    with f [OF 2(1)] Suc.IH [OF 2(2)] show ?thesis by (blast intro: again reached_trans)
  qed
qed

lemma reached_unique: "reached s s' u \<Longrightarrow> reached s s' v \<Longrightarrow> u = v"
  by (simp add: reached_def)

lemma matches_sound: "contextless a \<Longrightarrow> s' \<in> set (matches a s) \<Longrightarrow> reached s s' u \<Longrightarrow> produces a u"
proof (induction a arbitrary: s s' u)
  case (Class P)
  then show ?case by (auto simp: reached_def advance_def split: list.splits if_splits)
next
  case (Cat a b)
  then obtain s1 where s1: "s1 \<in> set (matches a s)" "s' \<in> set (matches b s1)" by auto
  from matches_reached [OF s1(1)] matches_reached [OF s1(2)] obtain v w where vw: "reached s s1 v" "reached s1 s' w"
    by blast
  with Cat.prems(3) have "u = v @ w" using reached_trans reached_unique by blast
  with Cat.IH(1) [OF _ s1(1) vw(1)] Cat.IH(2) [OF _ s1(2) vw(2)] Cat.prems(1) show ?case by auto
next
  case (Star greedy a)
  have "\<exists>v. reached s s' v \<and> produces (Star greedy a) v"
    using Star.prems(1,2) by (auto intro!: repeat_sound [of "matches a"] matches_reached elim: Star.IH)
  with Star.prems(3) reached_unique show ?case by blast
next
  case (Group n a)
  then obtain s1 where "s1 \<in> set (matches a s)" "c_after s' = c_after s1" "c_before s' = c_before s1" by auto
  with Group.IH [of s1 s u] Group.prems show ?case by (simp add: reached_def)
qed (auto simp: reached_def split: if_splits)

lemma repeat_complete:
  assumes f: "\<And>s u w. produces a u \<Longrightarrow> c_after s = u @ w \<Longrightarrow> \<exists>s'\<in>set (f s). reached s s' u"
  shows "produces r u \<Longrightarrow> r = Star greedy a \<Longrightarrow> c_after s = u @ w \<Longrightarrow> length (c_after s) \<le> n \<Longrightarrow>
    \<exists>s'\<in>set (repeat n greedy f s). reached s s' u"
proof (induction r u arbitrary: s n rule: produces.induct)
  case (stop greedy' a')
  then show ?case by (cases n) (auto simp: Let_def intro: reached_refl)
next
  case (again a' u greedy' v)
  show ?case
  proof (cases "u = []")
    case True
    with again show ?thesis by auto
  next
    case False
    obtain m where n: "n = Suc m" using again.prems(2,3) False by (cases n) auto
    from again.prems again.hyps(1) obtain s1 where s1: "s1 \<in> set (f s)" "reached s s1 u"
      using f [of u s "v @ w"] by auto
    have after: "c_after s1 = v @ w" using s1(2) again.prems(2) by (simp add: reached_def)
    moreover have shorter: "length (c_after s1) < length (c_after s)"
      using after again.prems(2) False by simp
    ultimately have "length (c_after s1) \<le> m" using again.prems(3) n by linarith
    with after again.IH(2) [of s1 m] again.prems(1) obtain s2 where s2: "s2 \<in> set (repeat m greedy f s1)" "reached s1 s2 v"
      by auto
    with s1 shorter have "s2 \<in> set (repeat n greedy f s)"
      by (auto simp: n Let_def)
    with reached_trans [OF s1(2) s2(2)] show ?thesis by blast
  qed
qed auto

lemma matches_complete:
  "contextless a \<Longrightarrow> produces a u \<Longrightarrow> c_after s = u @ w \<Longrightarrow> \<exists>s'\<in>set (matches a s). reached s s' u"
proof (induction a arbitrary: s u w)
  case (Class P)
  then show ?case by (auto simp: reached_advance)
next
  case (Cat a b)
  then obtain u1 u2 where u: "u = u1 @ u2" "produces a u1" "produces b u2" by auto
  from Cat.IH(1) [of u1 s "u2 @ w"] Cat.prems u obtain s1 where s1: "s1 \<in> set (matches a s)" "reached s s1 u1"
    by auto
  with Cat.prems u have "c_after s1 = u2 @ w" by (simp add: reached_def)
  with Cat.IH(2) [of u2 s1 w] Cat.prems u obtain s2 where s2: "s2 \<in> set (matches b s1)" "reached s1 s2 u2"
    by auto
  have "s2 \<in> set (matches (Cat a b) s)" using s1(1) s2(1) by auto
  with reached_trans [OF s1(2) s2(2)] u(1) show ?case by blast
next
  case (Star greedy a)
  then show ?case
    using repeat_complete [of a "matches a" "Star greedy a" u greedy s w "length (c_after s)"] by auto
next
  case (Group n a)
  from Group.IH [of u s w] Group.prems obtain s' where s': "s' \<in> set (matches a s)" "reached s s' u" by auto
  let ?t = "s'\<lparr>c_groups := (n, take (length (c_after s) - length (c_after s')) (c_after s)) # c_groups s'\<rparr>"
  have "?t \<in> set (matches (Group n a) s)" using s'(1) by simp
  moreover have "reached s ?t u" using s'(2) by (simp add: reached_def)
  ultimately show ?case by blast
next
  case (Alt a b)
  then have "produces a u \<or> produces b u" by simp
  with Alt.IH(1) [of u s w] Alt.IH(2) [of u s w] Alt.prems(1,3) show ?case by auto
qed (auto intro: reached_refl)

theorem full_match_produces: "contextless a \<Longrightarrow> full_match a t \<longleftrightarrow> produces a t"
proof
  assume a: "contextless a" and "full_match a t"
  then obtain s where s: "s \<in> set (matches a (at_start t))" "c_after s = []"
    by (auto simp: full_match_def list_ex_iff)
  with matches_reached [OF s(1)] have "reached (at_start t) s t" by (auto simp: reached_def at_start_def)
  with a s(1) show "produces a t" by (rule matches_sound)
next
  assume "contextless a" "produces a t"
  with matches_complete [of a t "at_start t" "[]"] obtain s where "s \<in> set (matches a (at_start t))" "reached (at_start t) s t"
    by (auto simp: at_start_def)
  then show "full_match a t"
    unfolding full_match_def list_ex_iff by (intro bexI [of _ s]) (simp_all add: reached_def at_start_def)
qed

lemma produces_literal: "produces (literal w) u \<longleftrightarrow> u = w"
  by (induction w arbitrary: u) (auto simp: literal_def)

lemma contextless_literal [simp]: "contextless (literal w)"
  by (induction w) (auto simp: literal_def)

lemma produces_times: "produces (times n (Class P)) u \<longleftrightarrow> length u = n \<and> list_all P u"
proof (induction n arbitrary: u)
  case (Suc n)
  have "produces (times (Suc n) (Class P)) u \<longleftrightarrow> (\<exists>c v. u = c # v \<and> P c \<and> produces (times n (Class P)) v)"
    by (simp only: times.simps produces_simps) (metis append_Cons append_Nil)
  then show ?case unfolding Suc.IH by (cases u) (simp_all del: times.simps produces_simps, blast)
qed auto

lemma contextless_times [simp]: "contextless (times n (Class P))"
  by (induction n) auto

end
