(* ===== verification/Dynamic.thy ===== *)
theory Dynamic
  imports Checks Json_Dict Regex
begin

text \<open>
  Python's operations on values whose type nobody has checked, as \<open>ci/engineering.py\<close> and
  \<open>ci/unified-audit.py\<close> apply them to JSON: truth values, \<open>len\<close>, iteration, sets, membership,
  comparison with a constant. An operation the type does not support raises \<open>TypeError\<close>. In this
  code \<open>True == 1\<close> and \<open>1.0 == 1\<close>, a list is not hashable, and iterating over a dict yields its keys.
\<close>

section \<open>Numbers\<close>

text \<open>
  A float is its literal (theory \<open>Json\<close>); its value is the double nearest to the literal, ties to
  even. \<open>float_parts\<close> gives the sign, the digits as an integer and the decimal exponent.
\<close>

definition float_parts :: "pystr \<Rightarrow> (bool \<times> nat \<times> int) option" where
  "float_parts r =
     (let neg = take 1 r = str ''-'';
          s = (if neg then drop 1 r else r);
          whole = takeWhile is_digit s;
          t = drop (length whole) s;
          frac = (if take 1 t = str ''.'' then takeWhile is_digit (drop 1 t) else []);
          e = (if take 1 t = str ''.'' then drop (1 + length frac) t else t);
          ex = (if e = [] then Some 0 else py_int (drop 1 e))
      in if whole = [] then None
         else map_option (\<lambda>x. (neg, undec (whole @ frac), x - int (length frac))) ex)"

function bits :: "int \<Rightarrow> nat" where
  "bits n = (if n \<le> 0 then 0 else Suc (bits (n div 2)))"
  by pat_completeness auto
termination
  by (relation "measure nat") auto

declare bits.simps [simp del]

text \<open>
  \<open>n / d\<close> rounded to a multiple of a power of two: with 53 significant bits, or in units of
  \<open>2 ^ - 1074\<close> where it is subnormal. The result is the mantissa and the exponent.
\<close>

definition round_ratio :: "int \<Rightarrow> int \<Rightarrow> int \<times> int" where
  "round_ratio n d =
     (let k0 = int (bits n) - int (bits d) - 53;
          scaled = (\<lambda>k. (n * 2 ^ nat (- k), d * 2 ^ nat k));
          k1 = (case scaled k0 of (a, b) \<Rightarrow> if 2 ^ 53 * b \<le> a then k0 + 1 else k0);
          k = max (- 1074) k1
      in case scaled k of (a, b) \<Rightarrow>
           let q = a div b; r = a mod b
           in (if 2 * r > b \<or> 2 * r = b \<and> odd q then q + 1 else q, k))"

text \<open>The numbers of Python: \<open>Dyadic m k\<close> is \<open>m * 2 ^ k\<close>.\<close>

datatype number = Dyadic int int | Infinite bool | Not_a_number

definition double :: "pystr \<Rightarrow> number" where
  "double r =
     (case float_parts r of
        None \<Rightarrow> if r = str ''NaN'' then Not_a_number else Infinite (take 1 r = str ''-'')
      | Some (neg, m, e) \<Rightarrow>
          (case round_ratio (int m * 10 ^ nat e) (10 ^ nat (- e)) of (q, k) \<Rightarrow>
             if 2 ^ 53 * 2 ^ 971 \<le> q * 2 ^ nat k then Infinite neg
             else Dyadic (if neg then - q else q) k))"

fun number_of :: "json \<Rightarrow> number option" where
  "number_of (JInt i) = Some (Dyadic i 0)"
| "number_of (JBool b) = Some (Dyadic (if b then 1 else 0) 0)"
| "number_of (JFloat r) = Some (double r)"
| "number_of _ = None"

fun same_number :: "number \<Rightarrow> number \<Rightarrow> bool" where
  "same_number (Dyadic m k) (Dyadic n l) \<longleftrightarrow> m * 2 ^ nat (k - l) = n * 2 ^ nat (l - k)"
| "same_number a b \<longleftrightarrow> a = b"

text \<open>
  \<open>i == j\<close> for values that can be hashed. The one object that stands for not-a-number counts as
  itself, as it does in a set or dict.
\<close>

definition same :: "json \<Rightarrow> json \<Rightarrow> bool" where
  "same i j \<longleftrightarrow>
     i = j \<or> (case (number_of i, number_of j) of (Some a, Some b) \<Rightarrow> same_number a b | _ \<Rightarrow> False)"

lemma same_refl [simp]: "same j j"
  by (simp add: same_def)

lemma same_text [simp]: "same (JStr s) j \<longleftrightarrow> j = JStr s" "same j (JStr s) \<longleftrightarrow> j = JStr s"
  by (auto simp: same_def split: option.splits)

section \<open>Operations\<close>

fun truthy :: "json \<Rightarrow> bool" where
  "truthy JNull = False"
| "truthy (JBool b) = b"
| "truthy (JInt i) = (i \<noteq> 0)"
| "truthy (JFloat r) = (\<not> same_number (double r) (Dyadic 0 0))"
| "truthy (JStr s) = (s \<noteq> [])"
| "truthy (JArr xs) = (xs \<noteq> [])"
| "truthy (JObj kvs) = (kvs \<noteq> [])"

fun iterate :: "json \<Rightarrow> json list res" where
  "iterate (JArr xs) = Inr xs"
| "iterate (JStr s) = Inr (map (\<lambda>c. JStr [c]) s)"
| "iterate (JObj kvs) = Inr (map (JStr \<circ> fst) kvs)"
| "iterate _ = Inl TypeError"

text \<open>\<open>len\<close> is defined for the values that can be iterated.\<close>

definition size_of :: "json \<Rightarrow> int res" where
  "size_of j = rbind (iterate j) (\<lambda>xs. Inr (int (length xs)))"

fun hashable :: "json \<Rightarrow> bool" where
  "hashable (JArr _) = False"
| "hashable (JObj _) = False"
| "hashable _ = True"

text \<open>\<open>set(j) == {names}\<close>: building the set needs an iterable of hashable values.\<close>

definition set_is :: "json \<Rightarrow> string list \<Rightarrow> bool res" where
  "set_is j names =
     rbind (iterate j) (\<lambda>xs.
     rbind (ensure (list_all hashable xs) TypeError) (\<lambda>_.
     Inr (set xs = JStr ` str ` set names)))"

text \<open>\<open>j in d\<close> where the keys of the dict or the elements of the set \<open>d\<close> are strings.\<close>

definition element :: "json \<Rightarrow> pystr list \<Rightarrow> bool res" where
  "element j ss = (if hashable j then Inr (\<exists>s\<in>set ss. j = JStr s) else Inl TypeError)"

text \<open>\<open>j in s\<close> for a set or the keys of a dict of any values.\<close>

definition among :: "json \<Rightarrow> json list \<Rightarrow> bool res" where
  "among j js = (if hashable j then Inr (list_ex (same j) js) else Inl TypeError)"

text \<open>\<open>j in ('a', 'b')\<close> compares and does not hash.\<close>

definition one_of :: "json \<Rightarrow> string list \<Rightarrow> bool" where
  "one_of j names \<longleftrightarrow> (\<exists>n\<in>set names. j = JStr (str n))"

text \<open>\<open>j == 1\<close> and \<open>j == 'text'\<close>\<close>

definition equals_one :: "json \<Rightarrow> bool" where
  "equals_one j \<longleftrightarrow> same j (JInt 1)"

definition equals_text :: "json \<Rightarrow> string \<Rightarrow> bool" where
  "equals_text j s \<longleftrightarrow> j = JStr (str s)"

text \<open>\<open>type(j) is int and j == 1\<close>\<close>

definition exactly_one :: "json \<Rightarrow> bool" where
  "exactly_one j \<longleftrightarrow> j = JInt 1"

text \<open>
  Iterating over \<open>a + b + c\<close>: lists and strings concatenate with their like; a sum of numbers exists
  but cannot be iterated, which is a \<open>TypeError\<close> as well.
\<close>

fun iterate_sum :: "json \<Rightarrow> json \<Rightarrow> json list res" where
  "iterate_sum (JArr xs) (JArr ys) = Inr (xs @ ys)"
| "iterate_sum (JStr s) (JStr t) = iterate (JStr (s @ t))"
| "iterate_sum _ _ = Inl TypeError"

fun iterate_sum3 :: "json \<Rightarrow> json \<Rightarrow> json \<Rightarrow> json list res" where
  "iterate_sum3 (JArr xs) (JArr ys) c = iterate_sum (JArr (xs @ ys)) c"
| "iterate_sum3 (JStr s) (JStr t) c = iterate_sum (JStr (s @ t)) c"
| "iterate_sum3 _ _ _ = Inl TypeError"

text \<open>\<open>re.fullmatch(pattern, j)\<close> raises \<open>TypeError\<close> unless \<open>j\<close> is a string.\<close>

definition matches_fully :: "regex \<Rightarrow> json \<Rightarrow> bool res" where
  "matches_fully a j = (case j of JStr s \<Rightarrow> Inr (full_match a s) | _ \<Rightarrow> Inl TypeError)"

text \<open>\<open>any(bad(x) for x in xs)\<close>: the first \<open>True\<close> ends it.\<close>

fun any_of :: "('a \<Rightarrow> bool res) \<Rightarrow> 'a list \<Rightarrow> bool res" where
  "any_of f [] = Inr False"
| "any_of f (x # xs) = rbind (f x) (\<lambda>b. if b then Inr True else any_of f xs)"

text \<open>\<open>if a or b: raise\<close> where the tests may raise themselves.\<close>

definition refuse :: "bool res \<Rightarrow> exn \<Rightarrow> unit res" where
  "refuse b e = rbind b (\<lambda>x. ensure (\<not> x) e)"

definition orelse :: "bool res \<Rightarrow> bool res \<Rightarrow> bool res" where
  "orelse a b = rbind a (\<lambda>x. if x then Inr True else b)"

definition negated :: "bool res \<Rightarrow> bool res" where
  "negated a = rbind a (\<lambda>x. Inr (\<not> x))"

section \<open>When they succeed\<close>

lemma refuse_Inr [simp]: "refuse b e = Inr u \<longleftrightarrow> b = Inr False"
  by (cases b) (auto simp: refuse_def)

lemma orelse_False [simp]: "orelse a b = Inr False \<longleftrightarrow> a = Inr False \<and> b = Inr False"
  by (cases a) (auto simp: orelse_def)

lemma negated_False [simp]: "negated a = Inr False \<longleftrightarrow> a = Inr True"
  by (cases a) (auto simp: negated_def)

lemma negated_True [simp]: "negated a = Inr True \<longleftrightarrow> a = Inr False"
  by (cases a) (auto simp: negated_def)

lemma any_of_False [simp]: "any_of f xs = Inr False \<longleftrightarrow> (\<forall>x\<in>set xs. f x = Inr False)"
proof (induction xs)
  case (Cons x xs)
  then show ?case by (cases "f x") (auto split: if_splits)
qed simp

lemma element_True [simp]: "element j ss = Inr True \<longleftrightarrow> (\<exists>s\<in>set ss. j = JStr s)"
  by (auto simp: element_def)

lemma element_False [simp]: "element j ss = Inr False \<longleftrightarrow> hashable j \<and> (\<forall>s\<in>set ss. j \<noteq> JStr s)"
  by (auto simp: element_def)

lemma matches_fully_True [simp]: "matches_fully a j = Inr True \<longleftrightarrow> (\<exists>s. j = JStr s \<and> full_match a s)"
  by (auto simp: matches_fully_def split: json.splits)

lemma set_is_True_dict: "set_is (JObj kvs) names = Inr True \<longleftrightarrow> fst ` set kvs = str ` set names"
proof -
  have "set_is (JObj kvs) names = Inr True \<longleftrightarrow> JStr ` fst ` set kvs = JStr ` str ` set names"
    by (auto simp: set_is_def image_image list_all_iff ensure_def split: if_splits)
  also have "\<dots> \<longleftrightarrow> fst ` set kvs = str ` set names"
    by (intro inj_image_eq_iff injI) simp
  finally show ?thesis .
qed

section \<open>What they raise\<close>

text \<open>The exceptions that the \<open>main\<close> functions of the checkers turn into exit code 1.\<close>

definition expected_error :: "exn \<Rightarrow> bool" where
  "expected_error e \<longleftrightarrow> is_os_error e \<or> is_value_error e \<or> e = KeyError \<or> e = TypeError"

lemma expected_error_simps [simp]:
  "expected_error TypeError" "expected_error KeyError" "expected_error (Invalid s)" "expected_error ValueError"
  "is_os_error e \<Longrightarrow> expected_error e" "is_value_error e \<Longrightarrow> expected_error e" "is_invalid e \<Longrightarrow> expected_error e"
  by (auto simp: expected_error_def dest: is_value_error_invalid)

named_theorems dynamic_raises

lemma raises_iterate [dynamic_raises]: "raises expected_error (iterate j)"
  by (cases j) (simp_all add: raises_def)

lemma raises_iterate_sum [dynamic_raises]: "raises expected_error (iterate_sum a b)"
  by (cases "(a, b)" rule: iterate_sum.cases) (simp_all add: raises_def)

lemma raises_iterate_sum3 [dynamic_raises]: "raises expected_error (iterate_sum3 a b c)"
  by (cases "(a, b, c)" rule: iterate_sum3.cases) (simp_all add: raises_iterate_sum, simp_all add: raises_def)

lemma raises_getitem [dynamic_raises]: "raises expected_error (getitem j k)"
  by (auto simp: raises_def getitem_def split: json.splits option.splits)

lemma raises_dynamic [dynamic_raises]:
  "raises expected_error (element j ss)" "raises expected_error (among j js)"
  "raises expected_error (matches_fully a j)" "raises expected_error (dict_fields j ns)"
  by (auto simp: raises_def element_def among_def matches_fully_def dict_fields_def ensure_def
      split: json.splits if_splits)

lemma raises_tests [dynamic_raises]:
  "raises expected_error (size_of j)" "raises expected_error (set_is j ns)"
  unfolding size_of_def set_is_def by (intro raises_rules dynamic_raises; simp)+

lemma raises_item_dynamic [dynamic_raises]:
  "(\<And>v. raises expected_error (f v)) \<Longrightarrow> raises expected_error (item j k f)"
  unfolding item_def by (intro raises_rules dynamic_raises)

lemma raises_logic [dynamic_raises]:
  "raises P a \<Longrightarrow> raises P b \<Longrightarrow> raises P (orelse a b)" "raises P a \<Longrightarrow> raises P (negated a)"
  "raises P a \<Longrightarrow> P e \<Longrightarrow> raises P (refuse a e)"
  unfolding orelse_def negated_def refuse_def by (auto intro!: raises_rules)

lemma raises_any_of [dynamic_raises]: "(\<And>x. raises P (f x)) \<Longrightarrow> raises P (any_of f xs)"
  by (induction xs) (auto intro!: raises_rules)

end
