(* ===== verification/Engineering_Files.thy ===== *)
theory Engineering_Files
  imports Dynamic Directory_Spec Results
begin

text \<open>
  How \<open>ci/engineering.py\<close> reads the checkouts: \<open>read_regular\<close>, which reads a bounded regular file
  without following a link at its end, \<open>load_json\<close>, and \<open>resolve_ref\<close>, which turns a reference
  (\<open>path#symbol\<close>) of a register into a file and its text. A path is the text that the operating
  system gets. The locale \<open>bounded_reader\<close> is the contract of a function that reads a file;
  \<open>Directory.read\<close> and \<open>read_regular\<close> both meet it.
\<close>

section \<open>Paths\<close>

text \<open>
  A path given to a system call is encoded with \<open>surrogateescape\<close>: of the surrogates, U+DC80 to
  U+DCFF stand for bytes and the others cannot be encoded. A NUL cannot either. Both raise
  \<open>ValueError\<close>.
\<close>

definition encodable :: "pystr \<Rightarrow> bool" where
  "encodable p \<longleftrightarrow> list_all (\<lambda>c. c \<noteq> 0 \<and> (c < 0xD800 \<or> 0xDFFF < c \<or> 0xDC80 \<le> c \<and> c \<le> 0xDCFF)) p"

text \<open>\<open>path / name\<close> for a resolved path and a name without separators.\<close>

definition slash :: "pystr \<Rightarrow> pystr \<Rightarrow> pystr" where
  "slash p n = (if p = str ''/'' then p @ n else p @ str ''/'' @ n)"

section \<open>read_regular\<close>

definition READ_LIMIT :: int where
  "READ_LIMIT = 8 * 1024 * 1024"

text \<open>The loop of \<open>read_regular\<close>; \<open>out\<close> holds the chunks joined, so \<open>total\<close> is its length.\<close>

function read_chunks :: "nat \<Rightarrow> int \<Rightarrow> bytes \<Rightarrow> bytes io" where
  "read_chunks fd limit out =
     seq (sys_read fd (min 65536 (limit + 1 - int (length out)))) (\<lambda>b.
     if b = [] then ret out
     else if limit < int (length (out @ b)) then raise (Invalid ''file exceeds limit'')
     else read_chunks fd limit (out @ b))"
  by pat_completeness auto
termination
  by (relation "measure (\<lambda>(fd, limit, out). nat (limit + 1 - int (length out)))") auto

declare read_chunks.simps [simp del]

definition read_regular :: "pystr \<Rightarrow> int \<Rightarrow> bytes io" where
  "read_regular p limit =
     seq (check (encodable p) ValueError) (\<lambda>_.
     seq (sys_stat (Lstat p)) (\<lambda>s.
     seq (check (S_ISREG (st_mode s) \<and> st_size s \<le> limit) (Invalid ''not a bounded regular file'')) (\<lambda>_.
     seq (sys_open None p FILE_FLAGS) (\<lambda>fd.
     always
       (seq (sys_stat (Fstat fd)) (\<lambda>before.
        seq (check ((st_dev before, st_ino before) = (st_dev s, st_ino s)) (Invalid ''file changed before read'')) (\<lambda>_.
        seq (read_chunks fd limit []) (\<lambda>out.
        seq (sys_stat (Fstat fd)) (\<lambda>after.
        seq (check ((st_size before, st_mtime_ns before, st_ctime_ns before) =
                    (st_size after, st_mtime_ns after, st_ctime_ns after)) (Invalid ''file changed during read'')) (\<lambda>_.
        ret out))))))
       (sys_close fd)))))"

section \<open>load_json\<close>

text \<open>
  \<open>json.loads\<close> with its defaults: a non-finite constant is a float, and a value nested too deep
  raises \<open>RecursionError\<close>. \<open>depth\<close> is the nesting the interpreter allows.
\<close>

definition lax :: hooks where
  "lax = \<lparr>h_const = (\<lambda>c. Inr (JFloat c)), h_deep = RuntimeError ''recursion''\<rparr>"

definition decoded :: "bytes \<Rightarrow> pystr res" where
  "decoded b = (case utf8_decode b of None \<Rightarrow> Inl ValueError | Some t \<Rightarrow> Inr t)"

definition load_json :: "nat \<Rightarrow> pystr \<Rightarrow> json io" where
  "load_json depth p =
     seq (read_regular p READ_LIMIT) (\<lambda>b. lift (rbind (decoded b) (loads lax depth)))"

section \<open>resolve_ref\<close>

text \<open>
  What \<open>re\<close> and \<open>str\<close> take from Unicode's character database: the value of a decimal digit, the
  word characters, and the other case variants of a character.
\<close>

record unicode =
  u_digit :: "nat \<Rightarrow> nat option"
  u_word :: "nat \<Rightarrow> bool"
  u_variants :: "nat \<Rightarrow> nat list"

definition REPOS :: "string list" where
  "REPOS = [''assurance'', ''pkgcore'', ''statecore'', ''controlcore'', ''configcore'', ''resolvercore'', ''capsulecore'']"

definition WORKTREES :: "string list" where
  "WORKTREES = REPOS @ [''distribution'']"

text \<open>\<open>re.search(r'\b' + re.escape(symbol) + r'\b', content, flags=re.I)\<close>\<close>

definition symbol_regex :: "unicode \<Rightarrow> pystr \<Rightarrow> regex" where
  "symbol_regex u s =
     Cat (Boundary (u_word u)) (Cat (literal_any_case (u_variants u) s) (Boundary (u_word u)))"

definition has_symbol :: "unicode \<Rightarrow> pystr \<Rightarrow> pystr \<Rightarrow> bool" where
  "has_symbol u s t \<longleftrightarrow> search (symbol_regex u s) (at_start t) \<noteq> None"

text \<open>
  The checks on the text of a reference; the result is its path and its symbol. A path with an
  empty part is refused, so the parts of the \<open>PurePosixPath\<close> are the parts of the text.
\<close>

definition parse_ref :: "json \<Rightarrow> (pystr \<times> pystr) res" where
  "parse_ref ref =
     (case ref of
        JStr r \<Rightarrow>
          rbind (ensure (length (filter (\<lambda>c. c = 35) r) \<le> 1) (Invalid ''invalid reference'')) (\<lambda>_.
          let path = takeWhile (\<lambda>c. c \<noteq> 35) r;
              symbol = drop (length path + 1) r
          in rbind (ensure (take 1 path \<noteq> str ''/'' \<and> pure_parts path \<noteq> [] \<and>
                 \<not> list_ex (\<lambda>x. x \<in> {[], str ''..'', str ''.''}) (split_on 47 path) \<and> 92 \<notin> set path)
               (Invalid ''unsafe reference'')) (\<lambda>_.
             rbind (ensure (hd (pure_parts path) \<in> str ` set WORKTREES)
               (Invalid ''reference outside repositories'')) (\<lambda>_.
             Inr (path, symbol))))
      | _ \<Rightarrow> Inl (Invalid ''invalid reference''))"

text \<open>\<open>target.is_symlink()\<close>: no for a path that cannot be encoded.\<close>

definition is_symlink :: "pystr \<Rightarrow> bool io" where
  "is_symlink p =
     (if encodable p then seq (sys_int (Is_link p)) (\<lambda>i. ret (i \<noteq> 0)) else ret False)"

fun follow :: "pystr \<Rightarrow> pystr list \<Rightarrow> pystr io" where
  "follow target [] = ret target"
| "follow target (part # parts) =
     seq (is_symlink (slash target part)) (\<lambda>linked.
     seq (check (\<not> linked) (Invalid ''linked reference'')) (\<lambda>_.
     follow (slash target part) parts))"

definition resolve_ref :: "unicode \<Rightarrow> pystr \<Rightarrow> json \<Rightarrow> (pystr \<times> pystr) io" where
  "resolve_ref u root ref =
     seq (lift (parse_ref ref)) (\<lambda>(path, symbol).
     seq (follow root (pure_parts path)) (\<lambda>target.
     seq (read_regular target READ_LIMIT) (\<lambda>b.
     seq (lift (decoded b)) (\<lambda>content.
     seq (check (symbol = [] \<or> has_symbol u symbol content) (Invalid ''unknown source symbol'')) (\<lambda>_.
     ret (target, content))))))"

end
