(* ===== verification/Readers.thy ===== *)
theory Readers
  imports Engineering_Files
begin

text \<open>
  The contract of the programs that only look: \<open>checker good P m\<close> says that \<open>m\<close> makes observing calls
  only and that, on an operating system that is \<open>good\<close>, it leaves the open descriptors as they were
  and raises nothing but what \<open>P\<close> allows. The locale \<open>bounded_reader\<close> adds a limit on what is read;
  \<open>Directory.read\<close> and \<open>read_regular\<close> meet it, and what holds of a reader whose bytes go through a
  parser is proved once for both.
\<close>

type_synonym os = "event list \<Rightarrow> call \<Rightarrow> answer"

definition checker :: "(os \<Rightarrow> bool) \<Rightarrow> (exn \<Rightarrow> bool) \<Rightarrow> 'a io \<Rightarrow> bool" where
  "checker good P m \<longleftrightarrow>
     only observes m \<and> (\<forall>os s. good os \<longrightarrow> balanced os s m \<and> ends os P (\<lambda>_. True) m)"

named_theorems checker_rules

lemma checkerI:
  "only observes m \<Longrightarrow> (\<And>os s. good os \<Longrightarrow> balanced os s m) \<Longrightarrow> (\<And>os. good os \<Longrightarrow> ends os P (\<lambda>_. True) m) \<Longrightarrow>
   checker good P m"
  by (simp add: checker_def)

lemma checkerD:
  assumes "checker good P m"
  shows "only observes m" "good os \<Longrightarrow> balanced os s m" "good os \<Longrightarrow> ends os P (\<lambda>_. True) m"
  using assms by (simp_all add: checker_def)

section \<open>Composition\<close>

lemma checker_ret [checker_rules]: "checker good P (ret x)"
  by (intro checkerI only_rules ends_rules fd_rules) simp_all

lemma checker_raise [checker_rules]: "P e \<Longrightarrow> checker good P (raise e)"
  by (intro checkerI only_rules ends_rules fd_rules) simp_all

lemma checker_lift [checker_rules]: "raises P r \<Longrightarrow> checker good P (lift r)"
  by (intro checkerI only_rules fdt_keeps keeps ends_lift) (auto simp: raises_def)

lemma checker_check [checker_rules]: "(\<not> b \<Longrightarrow> P e) \<Longrightarrow> checker good P (check b e)"
  by (cases b) (simp_all add: check_def checker_ret checker_raise)

lemma checker_seq [checker_rules]:
  assumes "checker good P m" "\<And>x. checker good P (f x)"
  shows "checker good P (seq m f)"
  by (intro checkerI only_seq fdt_seq_balanced ends_seq_any checkerD [OF assms(1)] checkerD [OF assms(2)])

lemma checker_if [checker_rules]:
  "(b \<Longrightarrow> checker good P m) \<Longrightarrow> (\<not> b \<Longrightarrow> checker good P n) \<Longrightarrow> checker good P (if b then m else n)"
  by simp

lemma checker_prod [checker_rules]:
  "(\<And>x y. p = (x, y) \<Longrightarrow> checker good P (f x y)) \<Longrightarrow> checker good P (case p of (x, y) \<Rightarrow> f x y)"
  by (cases p) simp

lemma checker_each [checker_rules]:
  "(\<And>x. x \<in> set xs \<Longrightarrow> checker good P (f x)) \<Longrightarrow> checker good P (each f xs)"
  by (induction xs) (auto intro!: checker_rules)

lemma checker_sys [checker_rules]:
  assumes "\<And>e. is_os_error e \<Longrightarrow> P e" "observes c"
  shows "checker good P (sys_stat c)" "checker good P (sys_int c)" "checker good P (sys_names c)"
  using assms by (auto intro!: checkerI only_rules fdt_keeps keeps ends_rules)

lemma checker_mono: "checker good P m \<Longrightarrow> (\<And>e. P e \<Longrightarrow> Q e) \<Longrightarrow> (\<And>os. better os \<Longrightarrow> good os) \<Longrightarrow> checker better Q m"
  unfolding checker_def using ends_mono by metis

section \<open>Readers\<close>

definition parsed :: "('f \<Rightarrow> int \<Rightarrow> bytes io) \<Rightarrow> (bytes \<Rightarrow> 'a res) \<Rightarrow> 'f \<Rightarrow> int \<Rightarrow> 'a io" where
  "parsed source parse f n = seq (source f n) (\<lambda>b. lift (parse b))"

locale observer =
  fixes run :: "'x \<Rightarrow> 'a io" and good :: "os \<Rightarrow> bool" and raised :: "exn \<Rightarrow> bool"
  assumes behaves: "checker good raised (run x)"
begin

lemma all_behave: "checker good raised (each run xs)"
  by (intro checker_rules behaves)

lemma then_behaves: "(\<And>y. checker good raised (f y)) \<Longrightarrow> checker good raised (seq (run x) f)"
  by (intro checker_rules behaves)

end

locale bounded_reader =
  fixes source :: "'f \<Rightarrow> int \<Rightarrow> bytes io" and good :: "os \<Rightarrow> bool" and raised :: "exn \<Rightarrow> bool"
  assumes bound: "source f n w = (Inr b, v) \<Longrightarrow> 0 \<le> n \<Longrightarrow> int (length b) \<le> n"
    and source_behaves: "checker good raised (source f n)"
begin

lemma bounded_read:
  "0 \<le> n \<Longrightarrow> only observes (source f n) \<and>
   (case source f n w of (Inl e, v) \<Rightarrow> True | (Inr b, v) \<Rightarrow> int (length b) \<le> n)"
  using checkerD(1) [OF source_behaves] bound [of f n w] by (auto split: prod.splits sum.splits)

text \<open>A parser only has to be well behaved on texts within the limit.\<close>

lemma parsed_returns:
  assumes "parsed source parse f n w = (Inr x, v)" "0 \<le> n"
  obtains b where "source f n w = (Inr b, v)" "parse b = Inr x" "int (length b) \<le> n"
  using assms bound by (auto simp: parsed_def runs)

lemma parsed_behaves:
  assumes "\<And>b. int (length b) \<le> n \<Longrightarrow> raises P (parse b)" "\<And>e. raised e \<Longrightarrow> P e" "0 \<le> n"
  shows "checker good P (parsed source parse f n)"
  unfolding parsed_def
proof (rule checkerI)
  show "only observes (seq (source f n) (\<lambda>b. lift (parse b)))"
    by (intro only_rules checkerD(1) [OF source_behaves])
next
  fix os s assume "good os"
  then show "balanced os s (seq (source f n) (\<lambda>b. lift (parse b)))"
    by (intro fdt_seq_balanced checkerD(2) [OF source_behaves] fdt_keeps keeps refl)
next
  fix os assume os: "good os"
  have "ends os raised (\<lambda>b. int (length b) \<le> n) (source f n)"
    by (rule ends_yields [OF checkerD(3) [OF source_behaves os]]) (rule bound [OF _ assms(3)])
  then have "ends os P (\<lambda>b. int (length b) \<le> n) (source f n)"
    by (rule ends_mono) (rule assms(2))
  then show "ends os P (\<lambda>_. True) (seq (source f n) (\<lambda>b. lift (parse b)))"
    by (rule ends_seq) (use assms(1) in \<open>auto intro!: ends_lift simp: raises_def\<close>)
qed

end

sublocale bounded_reader \<subseteq> files: observer "\<lambda>(f, n). source f n"
  by unfold_locales (auto intro: source_behaves)

section \<open>Directory.read\<close>

interpretation dir_reader: bounded_reader "dir_read d" steady os_or_invalid for d
  by unfold_locales (auto intro: dir_read_bound checkerI only_dir_read balanced_dir_read ends_dir_read)

section \<open>read_regular\<close>

definition os_or_value_error :: "exn \<Rightarrow> bool" where
  "os_or_value_error e \<longleftrightarrow> is_os_error e \<or> is_value_error e"

lemma only_read_chunks: "only observes (read_chunks fd limit out)"
proof (induction fd limit out rule: read_chunks.induct)
  case (1 fd limit out)
  then show ?case by (subst read_chunks.simps) (auto simp: sys_read_def intro!: only_rules)
qed

lemma keeps_read_chunks: "keeps_fds (read_chunks fd limit out)"
proof (induction fd limit out rule: read_chunks.induct)
  case (1 fd limit out)
  then show ?case by (subst read_chunks.simps) (auto intro!: keeps)
qed

lemma ends_read_chunks: "ends os os_or_invalid (\<lambda>_. True) (read_chunks fd limit out)"
proof (induction fd limit out rule: read_chunks.induct)
  case (1 fd limit out)
  then show ?case by (subst read_chunks.simps) (auto intro!: ends_rules)
qed

lemma read_chunks_bound:
  "read_chunks fd limit out w = (Inr b, v) \<Longrightarrow> int (length out) \<le> limit \<Longrightarrow> int (length b) \<le> limit"
proof (induction fd limit out arbitrary: w rule: read_chunks.induct)
  case (1 fd limit out)
  from 1(2) obtain c u where
    "(if c = [] then ret out
      else if limit < int (length (out @ c)) then raise (Invalid ''file exceeds limit'')
      else read_chunks fd limit (out @ c)) u = (Inr b, v)"
    by (subst (asm) read_chunks.simps) (auto simp only: seq_Inr_iff)
  with 1(3) "1.IH" [of c u] show ?case by (auto simp: runs split: if_splits)
qed

lemma checker_read_regular: "checker quiet os_or_value_error (read_regular p limit)"
proof (rule checkerI)
  show "only observes (read_regular p limit)"
    unfolding read_regular_def by (intro only_rules only_read_chunks) simp_all
next
  fix os s assume os: "quiet os"
  have "balanced os s (read_regular p limit)" for s
    unfolding read_regular_def
    by (intro fdt_seq_keeps keeps fd_rules refl keeps_read_chunks fdt_always [where s' = "_ # s"] os) auto
  then show "balanced os s (read_regular p limit)" .
next
  fix os assume "quiet os"
  show "ends os os_or_value_error (\<lambda>_. True) (read_regular p limit)"
    unfolding read_regular_def
    by (intro ends_rules ends_mono [OF ends_read_chunks]) (auto simp: os_or_value_error_def os_or_invalid_def dest: is_value_error_invalid)
qed

interpretation regular: bounded_reader read_regular quiet os_or_value_error
proof
  show "int (length b) \<le> n" if "read_regular f n w = (Inr b, v)" "0 \<le> n" for f n w b v
    using that unfolding read_regular_def by (auto simp: runs dest!: read_chunks_bound)
qed (rule checker_read_regular)

end
