(* ===== verification/References.thy ===== *)
theory References
  imports Readers
begin

text \<open>
  What a successful read is: the conversation of \<open>read_regular\<close> and \<open>resolve_ref\<close> with the operating
  system, call by call. The bytes returned are all that the kernel delivered on one descriptor, up to
  the end of the file, between two looks at it that agree; every part of a reference was looked at
  before, and none was a link.
\<close>

section \<open>Calls that return\<close>

lemma w_log_logged [simp]: "w_log (logged c w) = w_log w @ [(c, answer_of c w)]"
  by (simp add: logged_def)

lemma sys_stat_Inr: "sys_stat c w = (Inr s, v) \<longleftrightarrow> answer_of c w = Is_stat s \<and> v = logged c w"
  by (auto simp: sys_stat_def split: answer.splits)

lemma sys_int_Inr: "sys_int c w = (Inr i, v) \<longleftrightarrow> answer_of c w = Is_int i \<and> v = logged c w"
  by (auto simp: sys_int_def split: answer.splits)

lemma sys_bytes_Inr: "sys_bytes c w = (Inr b, v) \<longleftrightarrow> answer_of c w = Is_bytes b \<and> v = logged c w"
  by (auto simp: sys_bytes_def split: answer.splits)

lemma sys_open_log: "sys_open d p fl w = (Inr fd, v) \<Longrightarrow> w_log v = w_log w @ [(Open d p fl 511, answer_of (Open d p fl 511) w)]"
  by (auto simp: sys_open_def sys_fd_def Let_def split: answer.splits)

lemma sys_close_log: "sys_close fd w = (Inr x, v) \<Longrightarrow> w_log v = w_log w @ [(Close fd, answer_of (Close fd) w)]"
  by (auto simp: sys_close_def Let_def split: answer.splits)

section \<open>read_regular\<close>

text \<open>The answers of a sequence of reads of \<open>fd\<close>; the last one is empty.\<close>

definition reads_to_end :: "nat \<Rightarrow> bytes \<Rightarrow> event list \<Rightarrow> bool" where
  "reads_to_end fd b l \<longleftrightarrow>
     (\<forall>e\<in>set l. \<exists>n. fst e = Read fd n) \<and> l \<noteq> [] \<and> (\<exists>n>0. last l = (Read fd n, Is_bytes [])) \<and> read_from fd l = b"

lemma read_chunks_log:
  "read_chunks fd limit out w = (Inr b, v) \<Longrightarrow> int (length out) \<le> limit \<Longrightarrow>
   \<exists>l c. w_log v = w_log w @ l \<and> b = out @ c \<and> reads_to_end fd c l"
proof (induction fd limit out arbitrary: w rule: read_chunks.induct)
  case (1 fd limit out)
  let ?n = "min 65536 (limit + 1 - int (length out))"
  from 1(2) obtain c where c: "answer_of (Read fd ?n) w = Is_bytes c"
    and rest: "(if take (nat ?n) c = [] then ret out
      else if limit < int (length (out @ take (nat ?n) c)) then raise (Invalid ''file exceeds limit'')
      else read_chunks fd limit (out @ take (nat ?n) c)) (logged (Read fd ?n) w) = (Inr b, v)"
    by (subst (asm) read_chunks.simps) (auto simp only: seq_Inr_iff sys_read_def sys_bytes_Inr pure_Inr_iff)
  have n: "0 < ?n" using 1(3) by simp
  show ?case
  proof (cases "take (nat ?n) c = []")
    case True
    with rest n have "b = out" "v = logged (Read fd ?n) w" "c = []" by (auto simp: runs)
    with c n show ?thesis
      by (intro exI [of _ "[(Read fd ?n, Is_bytes [])]"] exI [of _ "[]"])
        (simp add: reads_to_end_def read_from_def)
  next
    case False
    with rest have less: "int (length (out @ take (nat ?n) c)) \<le> limit"
      and rec: "read_chunks fd limit (out @ take (nat ?n) c) (logged (Read fd ?n) w) = (Inr b, v)"
      by (auto simp: runs split: if_splits)
    from "1.IH" [OF False _ rec less] less obtain l d where
      "w_log v = w_log w @ (Read fd ?n, Is_bytes c) # l" "b = out @ take (nat ?n) c @ d" "reads_to_end fd d l"
      using c by auto
    then show ?thesis
      by (intro exI [of _ "(Read fd ?n, Is_bytes c) # l"] exI [of _ "take (nat ?n) c @ d"])
        (auto simp: reads_to_end_def read_from_def)
  qed
qed

definition read_log :: "pystr \<Rightarrow> bytes \<Rightarrow> event list \<Rightarrow> bool" where
  "read_log p b log \<longleftrightarrow>
     (\<exists>s fd before after a c l.
        log = [(Lstat p, Is_stat s), (Open None p FILE_FLAGS 511, a), (Fstat fd, Is_stat before)] @ l @
              [(Fstat fd, Is_stat after), (Close fd, c)] \<and>
        S_ISREG (st_mode s) \<and> (st_dev before, st_ino before) = (st_dev s, st_ino s) \<and>
        (st_size before, st_mtime_ns before, st_ctime_ns before) = (st_size after, st_mtime_ns after, st_ctime_ns after) \<and>
        reads_to_end fd b l)"

lemma read_regular_log:
  assumes r: "read_regular p limit w = (Inr b, v)" and limit: "0 \<le> limit"
  shows "encodable p \<and> (\<exists>log. w_log v = w_log w @ log \<and> read_log p b log)"
proof -
  from r obtain s fd before after w2 w4 where
    p: "encodable p" "S_ISREG (st_mode s)" "(st_dev before, st_ino before) = (st_dev s, st_ino s)"
    "(st_size before, st_mtime_ns before, st_ctime_ns before) = (st_size after, st_mtime_ns after, st_ctime_ns after)"
    and c: "answer_of (Lstat p) w = Is_stat s" "sys_open None p FILE_FLAGS (logged (Lstat p) w) = (Inr fd, w2)"
    "answer_of (Fstat fd) w2 = Is_stat before" "read_chunks fd limit [] (logged (Fstat fd) w2) = (Inr b, w4)"
    "answer_of (Fstat fd) w4 = Is_stat after" "sys_close fd (logged (Fstat fd) w4) = (Inr (), v)"
    unfolding read_regular_def by (auto simp: runs sys_stat_Inr)
  from read_chunks_log [OF c(4)] limit obtain l where l: "w_log w4 = w_log w2 @ [(Fstat fd, Is_stat before)] @ l" "reads_to_end fd b l"
    using c(3) by auto
  have "w_log v = w_log w @ [(Lstat p, Is_stat s), (Open None p FILE_FLAGS 511, answer_of (Open None p FILE_FLAGS 511) (logged (Lstat p) w)),
      (Fstat fd, Is_stat before)] @ l @ [(Fstat fd, Is_stat after), (Close fd, answer_of (Close fd) (logged (Fstat fd) w4))]"
    using sys_open_log [OF c(2)] sys_close_log [OF c(6)] l(1) c(1,5) by simp
  with p l(2) show ?thesis unfolding read_log_def by blast
qed

section \<open>resolve_ref\<close>

text \<open>The paths that lead to a target, one component after the other, the target last.\<close>

fun steps :: "pystr \<Rightarrow> pystr list \<Rightarrow> pystr list" where
  "steps p [] = []"
| "steps p (n # ns) = slash p n # steps (slash p n) ns"

definition unlinked :: "pystr list \<Rightarrow> event list" where
  "unlinked ps = map (\<lambda>p. (Is_link p, Is_int 0)) ps"

lemma encodable_slash: "encodable (slash p n) \<Longrightarrow> encodable p"
  by (auto simp: encodable_def slash_def split: if_splits)

lemma encodable_target: "encodable (foldl slash p ns) \<Longrightarrow> encodable p"
  by (induction ns arbitrary: p) (auto dest: encodable_slash)

lemma is_symlink_Inr:
  "is_symlink p w = (Inr False, v) \<longleftrightarrow>
     (if encodable p then answer_of (Is_link p) w = Is_int 0 \<and> v = logged (Is_link p) w else v = w)"
  by (auto simp: is_symlink_def runs sys_int_Inr)

lemma follow_target: "follow p ns w = (Inr target, v) \<Longrightarrow> target = foldl slash p ns"
  by (induction p ns arbitrary: w rule: follow.induct) (auto simp: runs)

lemma follow_log:
  "follow p ns w = (Inr target, v) \<Longrightarrow> encodable target \<Longrightarrow> w_log v = w_log w @ unlinked (steps p ns)"
proof (induction p ns arbitrary: w rule: follow.induct)
  case (2 p n ns)
  then obtain u where u: "is_symlink (slash p n) w = (Inr False, u)" "follow (slash p n) ns u = (Inr target, v)"
    by (auto simp: runs)
  with 2(3) have "encodable (slash p n)" by (auto dest!: follow_target intro: encodable_target)
  with u 2(1) [OF u(2) 2(3)] show ?case by (auto simp: is_symlink_Inr unlinked_def)
qed (simp add: runs unlinked_def)

text \<open>
  A reference within the repositories: a path of proper names, the first of them a repository, and the
  name of a symbol or nothing.
\<close>

definition reference :: "json \<Rightarrow> pystr list \<Rightarrow> pystr \<Rightarrow> bool" where
  "reference ref parts symbol \<longleftrightarrow>
     (\<exists>r. ref = JStr r \<and> parts = split_on 47 (takeWhile (\<lambda>c. c \<noteq> 35) r) \<and> 35 \<notin> set symbol \<and>
        r = join_with 47 parts @ (if 35 \<in> set r then 35 # symbol else []) \<and>
        hd parts \<in> str ` set WORKTREES \<and>
        list_all (\<lambda>c. c \<noteq> [] \<and> c \<noteq> str ''.'' \<and> c \<noteq> str ''..'' \<and> 47 \<notin> set c \<and> 92 \<notin> set c) parts)"

lemma pure_parts_proper: "list_all (\<lambda>c. c \<noteq> [] \<and> c \<noteq> str ''.'') (split_on 47 p) \<Longrightarrow> pure_parts p = split_on 47 p"
  by (auto simp: pure_parts_def list_all_iff intro: filter_True)

lemma set_split_on: "q \<in> set (split_on sep s) \<Longrightarrow> set q \<subseteq> set s"
proof -
  assume q: "q \<in> set (split_on sep s)"
  have "set (join_with sep ps) \<supseteq> set q" if "q \<in> set ps" for ps
    using that by (induction sep ps rule: join_with.induct) auto
  from this [OF q] show ?thesis by simp
qed

lemma hash_split:
  assumes "length (filter (\<lambda>c. c = h) r) \<le> 1"
  shows "h \<notin> set (drop (length (takeWhile (\<lambda>c. c \<noteq> h) r) + 1) r)"
    "r = takeWhile (\<lambda>c. c \<noteq> h) r @ (if h \<in> set r then h # drop (length (takeWhile (\<lambda>c. c \<noteq> h) r) + 1) r else [])"
  using assms by (induction r) (auto split: if_splits simp: filter_empty_conv)

lemma parse_refD:
  assumes "parse_ref ref = Inr (path, symbol)"
  shows "reference ref (pure_parts path) symbol" "pure_parts path = split_on 47 path"
proof -
  from assms obtain r where r: "ref = JStr r" "length (filter (\<lambda>c. c = 35) r) \<le> 1"
    "path = takeWhile (\<lambda>c. c \<noteq> 35) r" "symbol = drop (length path + 1) r"
    "\<not> list_ex (\<lambda>x. x \<in> {[], str ''..'', str ''.''}) (split_on 47 path)" "92 \<notin> set path"
    "hd (pure_parts path) \<in> str ` set WORKTREES"
    by (auto simp: parse_ref_def Let_def split: json.splits)
  have parts: "list_all (\<lambda>c. c \<noteq> [] \<and> c \<noteq> str ''.'' \<and> c \<noteq> str ''..'') (split_on 47 path)"
    using r(5) by (auto simp: list_all_iff list_ex_iff)
  then show eq: "pure_parts path = split_on 47 path"
    by (intro pure_parts_proper) (auto simp: list_all_iff)
  have "list_all (\<lambda>c. 47 \<notin> set c \<and> 92 \<notin> set c) (split_on 47 path)"
    using r(6) split_on_parts set_split_on by (fastforce simp: list_all_iff)
  with parts have "list_all (\<lambda>c. c \<noteq> [] \<and> c \<noteq> str ''.'' \<and> c \<noteq> str ''..'' \<and> 47 \<notin> set c \<and> 92 \<notin> set c) (split_on 47 path)"
    by (auto simp: list_all_iff)
  with r hash_split [OF r(2)] show "reference ref (pure_parts path) symbol"
    unfolding reference_def eq by auto
qed

lemma resolve_ref_log:
  assumes "resolve_ref u root ref w = (Inr (target, content), v)"
  shows "\<exists>parts symbol log b. reference ref parts symbol \<and> target = foldl slash root parts \<and>
    w_log v = w_log w @ unlinked (steps root parts) @ log \<and> read_log target b log \<and>
    int (length b) \<le> READ_LIMIT \<and> utf8_decode b = Some content \<and> (symbol = [] \<or> has_symbol u symbol content)"
proof -
  from assms obtain path symbol w1 b w2 where p: "parse_ref ref = Inr (path, symbol)"
    "follow root (pure_parts path) w = (Inr target, w1)" "read_regular target READ_LIMIT w1 = (Inr b, w2)"
    "decoded b = Inr content" "symbol = [] \<or> has_symbol u symbol content" "w_log v = w_log w2"
    by (auto simp: resolve_ref_def runs)
  from p(3) have b: "int (length b) \<le> READ_LIMIT" by (rule regular.bound) (simp add: READ_LIMIT_def)
  from read_regular_log [OF p(3)] obtain log where log: "encodable target" "w_log w2 = w_log w1 @ log" "read_log target b log"
    by (auto simp: READ_LIMIT_def)
  from p(4) have "utf8_decode b = Some content" by (auto simp: decoded_def split: option.splits)
  with parse_refD(1) [OF p(1)] follow_target [OF p(2)] follow_log [OF p(2) log(1)] log p(5,6) b show ?thesis
    by (intro exI [of _ "pure_parts path"] exI [of _ symbol] exI [of _ log] exI [of _ b]) simp
qed

end
