(* ===== verification/Succession.thy ===== *)
theory Succession
  imports Prelude
begin

text \<open>
  The search of \<open>ci/engineering.py\<close> for a decision that replaces itself: from one decision along
  \<open>supersedes\<close>, with a stack and a set of the decisions already put on it. The search ends because it
  marks a decision at most once, and it finds exactly the decisions that lie on a cycle.
\<close>

section \<open>The search\<close>

text \<open>
  The inner loop over the successors of a node; \<open>None\<close> means that it met the start. A set is the list
  of its elements, the stack has its top first.
\<close>

fun visit :: "'a \<Rightarrow> 'a list \<Rightarrow> 'a list \<times> 'a list \<Rightarrow> ('a list \<times> 'a list) option" where
  "visit key [] (seen, stack) = Some (seen, stack)"
| "visit key (old # olds) (seen, stack) =
     (if old = key then None
      else visit key olds (if old \<in> set seen then (seen, stack) else (old # seen, old # stack)))"

text \<open>What one visit adds: the successors that are new, the last one first.\<close>

fun news :: "'a list \<Rightarrow> 'a list \<Rightarrow> 'a list" where
  "news [] seen = []"
| "news (old # olds) seen = (if old \<in> set seen then news olds seen else news olds (old # seen) @ [old])"

lemma visit_eq: "visit key olds (seen, stack) =
    (if key \<in> set olds then None else Some (news olds seen @ seen, news olds seen @ stack))"
  by (induction key olds "(seen, stack)" arbitrary: seen stack rule: visit.induct) auto

lemma set_news: "set (news olds seen) = set olds - set seen"
  by (induction olds seen rule: news.induct) auto

text \<open>\<open>succs\<close> are the pairs of a decision and those it supersedes, as the registry lists them.\<close>

definition successors :: "('a \<times> 'a list) list \<Rightarrow> 'a \<Rightarrow> 'a list" where
  "successors edges k = (case map_of edges k of Some ks \<Rightarrow> ks | None \<Rightarrow> [])"

definition targets :: "('a \<times> 'a list) list \<Rightarrow> 'a set" where
  "targets edges = (\<Union>e\<in>set edges. set (snd e))"

lemma successors_targets: "set (successors edges k) \<subseteq> targets edges"
proof (cases "map_of edges k")
  case (Some ks)
  then have "(k, ks) \<in> set edges" by (rule map_of_SomeD)
  with Some show ?thesis by (force simp: successors_def targets_def)
qed (simp add: successors_def)

lemma finite_targets [simp]: "finite (targets edges)"
  by (simp add: targets_def)

lemma unmarked_decreases:
  assumes "visit key (successors edges node) (seen, stack) = Some (seen', stack')"
  shows "card (targets edges - set seen') < card (targets edges - set seen) \<or> seen' = seen \<and> stack' = stack"
proof -
  let ?new = "news (successors edges node) seen"
  from assms have eq: "seen' = ?new @ seen" "stack' = ?new @ stack" by (auto simp: visit_eq split: if_splits)
  show ?thesis
  proof (cases "?new = []")
    case False
    then obtain a where "a \<in> set ?new" by (cases ?new) auto
    then have a: "a \<in> targets edges" "a \<notin> set seen"
      using successors_targets [of edges node] unfolding set_news by blast+
    with \<open>a \<in> set ?new\<close> have "targets edges - set seen' \<subset> targets edges - set seen"
      unfolding eq by auto
    then show ?thesis by (intro disjI1 psubset_card_mono) simp_all
  qed (simp add: eq)
qed

function cyclic :: "('a \<times> 'a list) list \<Rightarrow> 'a \<Rightarrow> 'a list \<Rightarrow> 'a list \<Rightarrow> bool" where
  "cyclic edges key seen [] = False"
| "cyclic edges key seen (node # stack) =
     (case visit key (successors edges node) (seen, stack) of
        None \<Rightarrow> True
      | Some (seen', stack') \<Rightarrow> cyclic edges key seen' stack')"
  by pat_completeness auto

termination
proof (relation "measures [\<lambda>(edges, key, seen, stack). card (targets edges - set seen), \<lambda>(edges, key, seen, stack). length stack]")
  fix edges :: "('a \<times> 'a list) list" and key seen node stack x seen' stack'
  assume "visit key (successors edges node) (seen, stack) = Some x" "(seen', stack') = x"
  then show "((edges, key, seen', stack'), edges, key, seen, node # stack)
      \<in> measures [\<lambda>(edges, key, seen, stack). card (targets edges - set seen), \<lambda>(edges, key, seen, stack). length stack]"
    using unmarked_decreases [of key edges node seen stack seen' stack'] by auto
qed simp

declare cyclic.simps [simp del]

section \<open>What it finds\<close>

definition replaces :: "('a \<times> 'a list) list \<Rightarrow> ('a \<times> 'a) set" where
  "replaces edges = {(a, b). b \<in> set (successors edges a)}"

lemma replaces_iff [simp]: "(a, b) \<in> replaces edges \<longleftrightarrow> b \<in> set (successors edges a)"
  by (simp add: replaces_def)

text \<open>
  The invariant of the loop: what is on the stack is reached from the start; what is marked but not on
  the stack has been visited, so its successors are marked and the start is not among them.
\<close>

definition explored :: "('a \<times> 'a list) list \<Rightarrow> 'a \<Rightarrow> 'a set \<Rightarrow> 'a set \<Rightarrow> bool" where
  "explored edges key marked todo \<longleftrightarrow>
     todo \<subseteq> insert key marked \<and> (insert key marked) \<subseteq> (replaces edges)\<^sup>* `` {key} \<and>
     (\<forall>a\<in>insert key marked - todo. key \<notin> set (successors edges a) \<and> set (successors edges a) \<subseteq> marked)"

lemma explored_visit:
  assumes e: "explored edges key (set seen) (set (node # stack))" and key: "key \<notin> set (successors edges node)"
  shows "explored edges key (set (news (successors edges node) seen @ seen))
           (set (news (successors edges node) seen @ stack))"
proof -
  let ?new = "set (successors edges node) - set seen" and ?r = "(replaces edges)\<^sup>* `` {key}"
  have set: "set (news (successors edges node) seen @ xs) = ?new \<union> set xs" for xs by (simp add: set_news)
  from e have node: "node \<in> ?r" by (auto simp: explored_def)
  then have new: "?new \<subseteq> ?r" by (auto intro: rtrancl_into_rtrancl)
  have old: "key \<notin> set (successors edges a) \<and> set (successors edges a) \<subseteq> ?new \<union> set seen"
    if "a \<in> insert key (?new \<union> set seen) - (?new \<union> set stack)" for a
  proof (cases "a = node")
    case False
    with that have "a \<in> insert key (set seen) - set (node # stack)" by auto
    with e show ?thesis unfolding explored_def by blast
  qed (use key in auto)
  show ?thesis
    unfolding explored_def set using e new old unfolding explored_def by auto
qed

lemma explored_closed:
  assumes "explored edges key marked {}"
  shows "(key, key) \<notin> (replaces edges)\<^sup>+"
proof
  assume "(key, key) \<in> (replaces edges)\<^sup>+"
  then obtain a where a: "(key, a) \<in> (replaces edges)\<^sup>*" "key \<in> set (successors edges a)"
    by (meson replaces_iff tranclD2)
  from a(1) have "a \<in> insert key marked"
    by induction (use assms in \<open>auto simp: explored_def\<close>)
  with a(2) assms show False unfolding explored_def by blast
qed

lemma explored_hit:
  assumes "explored edges key marked todo" "node \<in> todo" "key \<in> set (successors edges node)"
  shows "(key, key) \<in> (replaces edges)\<^sup>+"
proof -
  from assms(1,2) have "(key, node) \<in> (replaces edges)\<^sup>*" by (auto simp: explored_def)
  with assms(3) show ?thesis by (meson replaces_iff rtrancl_into_trancl1)
qed

lemma cyclic_explored:
  "explored edges key (set seen) (set stack) \<Longrightarrow> cyclic edges key seen stack \<longleftrightarrow> (key, key) \<in> (replaces edges)\<^sup>+"
proof (induction edges key seen stack rule: cyclic.induct)
  case (1 edges key seen)
  then show ?case using explored_closed by (force simp: cyclic.simps)
next
  case (2 edges key seen node stack)
  show ?case
  proof (cases "key \<in> set (successors edges node)")
    case True
    with 2(2) have "(key, key) \<in> (replaces edges)\<^sup>+"
      by (intro explored_hit) auto
    with True show ?thesis by (simp add: visit_eq cyclic.simps)
  next
    case False
    with 2(1) [OF _ refl] explored_visit [OF 2(2) False] show ?thesis by (simp add: visit_eq cyclic.simps)
  qed
qed

lemma explored_start: "explored edges key {} {key}"
  by (auto simp: explored_def)

lemma cyclic_iff: "cyclic edges key [] [key] \<longleftrightarrow> (key, key) \<in> (replaces edges)\<^sup>+"
  by (rule cyclic_explored) (simp add: explored_start)

end
