(* ===== verification/Engineering.thy ===== *)
theory Engineering
  imports Engineering_Files Succession
begin

text \<open>
  The registers of \<open>ci/engineering.py\<close>: \<open>fields\<close>, \<open>strings\<close> and the checks of \<open>validate\<close> on decisions,
  requirements, hazards, fault cases, roles and the test plan, in the order of the source. What a
  register's file holds is JSON of any shape, so every subscript, iteration and membership test can
  raise. A set or dict of identifiers is the list of them in the order of their insertion.
\<close>

section \<open>fields and strings\<close>

definition schema :: "json \<Rightarrow> string list \<Rightarrow> unit res" where
  "schema value names =
     ensure (case value of JObj kvs \<Rightarrow> fst ` set kvs = str ` set names | _ \<Rightarrow> False) (Invalid ''schema mismatch'')"

definition nonempty_text :: "json \<Rightarrow> bool" where
  "nonempty_text j \<longleftrightarrow> (case j of JStr s \<Rightarrow> s \<noteq> [] | _ \<Rightarrow> False)"

definition strings :: "json \<Rightarrow> bool \<Rightarrow> unit res" where
  "strings value allow_empty =
     ensure (case value of
               JArr xs \<Rightarrow> (allow_empty \<or> xs \<noteq> []) \<and> list_all nonempty_text xs \<and> distinct xs
             | _ \<Rightarrow> False)
       (Invalid ''expected unique nonempty strings'')"

text \<open>A value known to be a string, as one.\<close>

definition as_text :: "json \<Rightarrow> pystr res" where
  "as_text j = (case j of JStr s \<Rightarrow> Inr s | _ \<Rightarrow> Inl TypeError)"

text \<open>\<open>PREFIX-\d{n}\<close>\<close>

definition id_regex :: "unicode \<Rightarrow> string \<Rightarrow> nat \<Rightarrow> regex" where
  "id_regex u prefix n = Cat (literal (str prefix)) (times n (Class (\<lambda>c. u_digit u c \<noteq> None)))"

text \<open>\<open>for row in rows: ...\<close>, where each row adds one entry to what has been seen.\<close>

fun register :: "('k list \<Rightarrow> json \<Rightarrow> 'k io) \<Rightarrow> 'k list \<Rightarrow> json list \<Rightarrow> 'k list io" where
  "register row seen [] = ret seen"
| "register row seen (r # rs) = seq (row seen r) (\<lambda>k. register row (seen @ [k]) rs)"

section \<open>Decisions\<close>

type_synonym adrs = "(pystr \<times> json) list"

text \<open>The headings are Background, Decision, Alternatives, Consequences, and Verification and remaining conditions.\<close>

definition HEADINGS :: "pystr list" where
  "HEADINGS = map (\<lambda>h. str ''## '' @ h)
     [[0x80CC, 0x666F], [0x6C7A, 0x5B9A], [0x4EE3, 0x66FF, 0x6848], [0x5F71, 0x97FF],
      [0x691C, 0x8A3C, 0x3068, 0x6B8B, 0x308B, 0x6761, 0x4EF6]]"

fun occurs :: "pystr \<Rightarrow> pystr \<Rightarrow> bool" where
  "occurs w [] \<longleftrightarrow> w = []"
| "occurs w (c # cs) \<longleftrightarrow> take (length w) (c # cs) = w \<or> occurs w cs"

definition decision_fields :: "unicode \<Rightarrow> adrs \<Rightarrow> json \<Rightarrow> pystr res" where
  "decision_fields u adrs d =
     rbind (refuse
       (orelse (negated (set_is d [''id'', ''path'', ''status'', ''supersedes'']))
       (orelse (negated (item d ''id'' (matches_fully (id_regex u ''ADR-'' 4))))
               (item d ''id'' (\<lambda>i. element i (map fst adrs)))))
       (Invalid ''duplicate/invalid ADR'')) (\<lambda>_.
     rbind (item d ''status'' (\<lambda>s.
       ensure (one_of s [''proposed-for-review'', ''accepted-by-maintainers'', ''superseded'']) (Invalid ''invalid ADR status''))) (\<lambda>_.
     item d ''id'' as_text))"

definition decision :: "unicode \<Rightarrow> pystr \<Rightarrow> adrs \<Rightarrow> json \<Rightarrow> (pystr \<times> json) io" where
  "decision u root adrs d =
     seq (lift (decision_fields u adrs d)) (\<lambda>i.
     seq (lift (getitem d ''path'')) (\<lambda>p.
     seq (resolve_ref u root p) (\<lambda>(_, text).
     seq (check (list_all (\<lambda>h. occurs h text) HEADINGS) (Invalid ''missing heading'')) (\<lambda>_.
     ret (i, d)))))"

text \<open>The decisions that an entry of the registry supersedes.\<close>

definition superseded_by :: "adrs \<Rightarrow> pystr \<times> json \<Rightarrow> (pystr \<times> pystr list) res" where
  "superseded_by adrs = (\<lambda>(key, d).
     rbind (item d ''supersedes'' iterate) (\<lambda>olds.
     rbind (for_each (\<lambda>old.
       rbind (refuse (orelse (negated (element old (map fst adrs))) (Inr (old = JStr key)))
         (Invalid ''invalid superseded ADR'')) (\<lambda>_. as_text old)) olds) (\<lambda>ks.
     Inr (key, ks))))"

text \<open>\<open>incoming[key]\<close> is not empty.\<close>

definition incoming :: "(pystr \<times> pystr list) list \<Rightarrow> pystr \<Rightarrow> bool" where
  "incoming edges key = list_ex (\<lambda>(_, olds). key \<in> set olds) edges"

definition replacement :: "(pystr \<times> pystr list) list \<Rightarrow> pystr \<times> json \<Rightarrow> unit res" where
  "replacement edges = (\<lambda>(key, d).
     item d ''status'' (\<lambda>s.
     rbind (ensure (\<not> (equals_text s ''superseded'' \<and> \<not> incoming edges key)) (Invalid ''superseded ADR has no replacement'')) (\<lambda>_.
     rbind (ensure (\<not> (incoming edges key \<and> \<not> equals_text s ''superseded'')) (Invalid ''replaced ADR not marked superseded'')) (\<lambda>_.
     ensure (\<not> cyclic edges key [] [key]) (Invalid ''cyclic ADR replacement'')))))"

definition succession :: "adrs \<Rightarrow> (pystr \<times> pystr list) list res" where
  "succession adrs =
     rbind (for_each (superseded_by adrs) adrs) (\<lambda>edges.
     rbind (for_each (replacement edges) adrs) (\<lambda>_.
     Inr edges))"

text \<open>\<open>document\<close> is the registry as loaded.\<close>

definition decisions :: "unicode \<Rightarrow> pystr \<Rightarrow> json \<Rightarrow> adrs io" where
  "decisions u root document =
     seq (lift (rbind (refuse
       (orelse (negated (set_is document [''format'', ''decisions''])) (item document ''format'' (\<lambda>f. Inr (\<not> equals_one f))))
       (Invalid ''ADR registry schema'')) (\<lambda>_. item document ''decisions'' iterate))) (\<lambda>ds.
     seq (register (decision u root) [] ds) (\<lambda>adrs.
     seq (lift (succession adrs)) (\<lambda>_.
     ret adrs)))"

section \<open>Requirements\<close>

definition requirement_id :: "unicode \<Rightarrow> pystr list \<Rightarrow> json \<Rightarrow> pystr res" where
  "requirement_id u ids r =
     rbind (refuse
       (orelse (negated (set_is r [''id'', ''title'', ''shall'', ''status'', ''adr'', ''spec'', ''code'', ''tests'',
                                   ''hazards'', ''required_evidence'']))
       (orelse (negated (item r ''id'' (matches_fully (id_regex u ''REQ-'' 3))))
               (item r ''id'' (\<lambda>i. element i ids))))
       (Invalid ''duplicate/invalid requirement or unknown field'')) (\<lambda>_.
     item r ''id'' as_text)"

definition requirement_obligations :: "json \<Rightarrow> unit res" where
  "requirement_obligations r =
     rbind (item r ''status'' (\<lambda>s.
       ensure (one_of s [''implemented-unvalidated'', ''partial-integration'', ''specification-only''])
         (Invalid ''source cannot declare production qualification''))) (\<lambda>_.
     refuse
       (orelse (item r ''shall'' (\<lambda>s. rbind (size_of s) (\<lambda>n. Inr (n < 20))))
       (orelse (item r ''adr'' (\<lambda>x. Inr (\<not> truthy x)))
       (orelse (item r ''spec'' (\<lambda>x. Inr (\<not> truthy x)))
               (item r ''required_evidence'' (\<lambda>x. Inr (\<not> truthy x))))))
       (Invalid ''missing obligation''))"

text \<open>\<open>adrs[a]['status'] == 'superseded'\<close>\<close>

definition superseded :: "adrs \<Rightarrow> json \<Rightarrow> bool res" where
  "superseded adrs a =
     rbind (as_text a) (\<lambda>k.
     case map_of adrs k of
       None \<Rightarrow> Inl KeyError
     | Some d \<Rightarrow> item d ''status'' (\<lambda>s. Inr (equals_text s ''superseded'')))"

definition current_decisions :: "adrs \<Rightarrow> json \<Rightarrow> unit res" where
  "current_decisions adrs r =
     rbind (item r ''adr'' iterate) (\<lambda>as.
     rbind (refuse (any_of (\<lambda>a. negated (element a (map fst adrs))) as) (Invalid ''missing ADR'')) (\<lambda>_.
     refuse (any_of (superseded adrs) as) (Invalid ''current requirement references superseded ADR'')))"

definition implementation_backed :: "json \<Rightarrow> unit res" where
  "implementation_backed r =
     refuse (rbind (getitem r ''status'') (\<lambda>s.
         if equals_text s ''implemented-unvalidated''
         then orelse (item r ''code'' (\<lambda>x. Inr (\<not> truthy x))) (item r ''tests'' (\<lambda>x. Inr (\<not> truthy x)))
         else Inr False))
       (Invalid ''implementation needs code and tests'')"

text \<open>\<open>r['spec'] + r['code'] + r['tests']\<close>\<close>

definition requirement_refs :: "json \<Rightarrow> json list res" where
  "requirement_refs r = item r ''spec'' (\<lambda>a. item r ''code'' (\<lambda>b. item r ''tests'' (iterate_sum3 a b)))"

definition requirement_fields :: "unicode \<Rightarrow> adrs \<Rightarrow> pystr list \<Rightarrow> json \<Rightarrow> (pystr \<times> json list) res" where
  "requirement_fields u adrs ids r =
     rbind (requirement_id u ids r) (\<lambda>k.
     rbind (requirement_obligations r) (\<lambda>_.
     rbind (current_decisions adrs r) (\<lambda>_.
     rbind (implementation_backed r) (\<lambda>_.
     rbind (requirement_refs r) (\<lambda>refs.
     Inr (k, refs))))))"

definition requirement :: "unicode \<Rightarrow> pystr \<Rightarrow> adrs \<Rightarrow> pystr list \<Rightarrow> json \<Rightarrow> pystr io" where
  "requirement u root adrs ids r =
     seq (lift (requirement_fields u adrs ids r)) (\<lambda>(k, refs).
     seq (each (resolve_ref u root) refs) (\<lambda>_.
     ret k))"

text \<open>\<open>set(data) != {...} or data['format'] != 1 or data['qualification'] != 'unqualified'\<close>\<close>

definition requirement_document :: "json \<Rightarrow> unit res" where
  "requirement_document data =
     refuse
       (orelse (negated (set_is data [''format'', ''qualification'', ''requirements'']))
       (orelse (item data ''format'' (\<lambda>f. Inr (\<not> equals_one f)))
               (item data ''qualification'' (\<lambda>q. Inr (\<not> equals_text q ''unqualified'')))))
       (Invalid ''requirement schema or qualification declaration'')"

definition requirements :: "unicode \<Rightarrow> pystr \<Rightarrow> adrs \<Rightarrow> json \<Rightarrow> pystr list io" where
  "requirements u root adrs data =
     seq (lift (item data ''requirements'' iterate)) (\<lambda>rs. register (requirement u root adrs) [] rs)"

section \<open>Hazards and fault cases\<close>

text \<open>\<open>type(j) is int and j == 1\<close> on the field \<open>format\<close>.\<close>

definition format_one :: "json \<Rightarrow> string \<Rightarrow> unit res" where
  "format_one j what = item j ''format'' (\<lambda>f. ensure (exactly_one f) (Invalid what))"

definition hazard_fields :: "unicode \<Rightarrow> pystr list \<Rightarrow> pystr list \<Rightarrow> json \<Rightarrow> pystr res" where
  "hazard_fields u ids hids h =
     rbind (schema h [''id'', ''title'', ''severity'', ''mitigation'', ''residual_risk'', ''requirements'', ''runbook'']) (\<lambda>_.
     rbind (item h ''requirements'' (\<lambda>x. strings x False)) (\<lambda>_.
     rbind (refuse
       (orelse (item h ''severity'' (\<lambda>s. Inr (\<not> one_of s [''critical'', ''high'', ''medium'', ''low''])))
               (item h ''residual_risk'' (\<lambda>x. Inr (\<not> truthy x))))
       (Invalid ''hazard severity or residual risk missing'')) (\<lambda>_.
     rbind (refuse
       (orelse (item h ''id'' (\<lambda>i. element i hids))
               (negated (item h ''id'' (matches_fully (id_regex u ''HAZ-'' 3)))))
       (Invalid ''duplicate hazard'')) (\<lambda>_.
     rbind (refuse
       (orelse (item h ''requirements'' (\<lambda>x. Inr (\<not> truthy x)))
               (item h ''requirements'' (\<lambda>x. rbind (iterate x) (any_of (\<lambda>r. negated (element r ids))))))
       (Invalid ''unresolved mitigation requirement'')) (\<lambda>_.
     item h ''id'' as_text)))))"

definition hazard :: "unicode \<Rightarrow> pystr \<Rightarrow> pystr list \<Rightarrow> pystr list \<Rightarrow> json \<Rightarrow> pystr io" where
  "hazard u root ids hids h =
     seq (lift (hazard_fields u ids hids h)) (\<lambda>k.
     seq (lift (getitem h ''runbook'')) (\<lambda>p.
     seq (resolve_ref u root p) (\<lambda>_.
     ret k)))"

text \<open>\<open>not r['hazards'] or any(h not in hids for h in r['hazards'])\<close>\<close>

definition linked :: "pystr list \<Rightarrow> json \<Rightarrow> unit res" where
  "linked hids r =
     refuse
       (orelse (item r ''hazards'' (\<lambda>x. Inr (\<not> truthy x)))
               (item r ''hazards'' (\<lambda>x. rbind (iterate x) (any_of (\<lambda>h. negated (element h hids))))))
       (Invalid ''hazard link missing'')"

definition hazards :: "unicode \<Rightarrow> pystr \<Rightarrow> pystr list \<Rightarrow> json \<Rightarrow> json \<Rightarrow> pystr list io" where
  "hazards u root ids data document =
     seq (lift (rbind (schema document [''format'', ''hazards'']) (\<lambda>_.
                rbind (format_one document ''hazard format'') (\<lambda>_.
                item document ''hazards'' iterate)))) (\<lambda>hs.
     seq (register (hazard u root ids) [] hs) (\<lambda>hids.
     seq (lift (rbind (item data ''requirements'' iterate) (for_each (linked hids)))) (\<lambda>_.
     ret hids)))"

definition case_fields :: "unicode \<Rightarrow> pystr list \<Rightarrow> pystr list \<Rightarrow> json \<Rightarrow> pystr res" where
  "case_fields u ids seen c =
     rbind (schema c [''id'', ''scenario'', ''requirements'', ''runbook'', ''expected'', ''execution'', ''reference_tests'']) (\<lambda>_.
     rbind (item c ''requirements'' (\<lambda>x. strings x False)) (\<lambda>_.
     rbind (refuse
       (orelse (item c ''id'' (\<lambda>i. element i seen))
               (negated (item c ''id'' (matches_fully (id_regex u ''FAULT-'' 3)))))
       (Invalid ''duplicate fault case'')) (\<lambda>_.
     rbind (refuse (item c ''requirements'' (\<lambda>x. rbind (iterate x) (any_of (\<lambda>r. negated (element r ids)))))
       (Invalid ''unknown fault case requirement'')) (\<lambda>_.
     rbind (item c ''execution'' (\<lambda>x.
       ensure (one_of x [''not-run'', ''reference-only'', ''linux-probe-only''])
         (Invalid ''fault catalog is not an actual runtime test attestation''))) (\<lambda>_.
     item c ''id'' as_text)))))"

definition fault_case :: "unicode \<Rightarrow> pystr \<Rightarrow> pystr list \<Rightarrow> pystr list \<Rightarrow> json \<Rightarrow> pystr io" where
  "fault_case u root ids seen c =
     seq (lift (case_fields u ids seen c)) (\<lambda>k.
     seq (lift (getitem c ''runbook'')) (\<lambda>p.
     seq (resolve_ref u root p) (\<lambda>_.
     seq (lift (getitem c ''reference_tests'')) (\<lambda>t.
     seq (resolve_ref u root t) (\<lambda>_.
     ret k)))))"

definition fault_cases :: "unicode \<Rightarrow> pystr \<Rightarrow> pystr list \<Rightarrow> json \<Rightarrow> pystr list io" where
  "fault_cases u root ids document =
     seq (lift (rbind (schema document [''format'', ''actual_ada_execution'', ''cases'']) (\<lambda>_.
                rbind (format_one document ''fault catalog cannot attest Ada execution'') (\<lambda>_.
                rbind (item document ''actual_ada_execution'' (\<lambda>x.
                  ensure (x = JBool False) (Invalid ''fault catalog cannot attest Ada execution''))) (\<lambda>_.
                item document ''cases'' iterate))))) (\<lambda>cs.
     register (fault_case u root ids) [] cs)"

section \<open>The traceability registers\<close>

text \<open>\<open>root / 'assurance/engineering' / name\<close>\<close>

definition engineering_file :: "pystr \<Rightarrow> string \<Rightarrow> pystr" where
  "engineering_file root name = slash root (str (''assurance/engineering/'' @ name))"

record registers =
  g_adrs :: adrs
  g_requirements :: "pystr list"
  g_hazards :: "pystr list"
  g_cases :: "pystr list"

text \<open>The first part of \<open>validate\<close>, up to the component catalog.\<close>

definition validate_registers :: "unicode \<Rightarrow> nat \<Rightarrow> pystr \<Rightarrow> registers io" where
  "validate_registers u depth root =
     seq (load_json depth (engineering_file root ''requirements.json'')) (\<lambda>data.
     seq (lift (requirement_document data)) (\<lambda>_.
     seq (load_json depth (engineering_file root ''adrs.json'')) (\<lambda>document.
     seq (decisions u root document) (\<lambda>adrs.
     seq (requirements u root adrs data) (\<lambda>ids.
     seq (load_json depth (engineering_file root ''hazards.json'')) (\<lambda>hz.
     seq (hazards u root ids data hz) (\<lambda>hids.
     seq (load_json depth (engineering_file root ''fault-cases.json'')) (\<lambda>cases.
     seq (fault_cases u root ids cases) (\<lambda>seen.
     ret \<lparr>g_adrs = adrs, g_requirements = ids, g_hazards = hids, g_cases = seen\<rparr>)))))))))"

end
