(* ===== verification/Engineering_Spec.thy ===== *)
theory Engineering_Spec
  imports Readers Engineering
begin

text \<open>
  What the registers of \<open>ci/engineering.py\<close> promise once they are accepted, and what the checks can do
  and raise. The locale \<open>identified\<close> is the contract of a register: a row is accepted under an
  identifier that no row before it has.
\<close>

section \<open>What the checks do and raise\<close>

text \<open>What \<open>main\<close> expects, and the \<open>RecursionError\<close> it does not.\<close>

definition check_error :: "exn \<Rightarrow> bool" where
  "check_error e \<longleftrightarrow> expected_error e \<or> e = RuntimeError ''recursion''"

lemma check_error_expected: "expected_error e \<Longrightarrow> check_error e"
  by (simp add: check_error_def)

lemma os_or_value_expected: "os_or_value_error e \<Longrightarrow> expected_error e"
  by (auto simp: os_or_value_error_def)

abbreviation looks :: "'a io \<Rightarrow> bool" where
  "looks \<equiv> checker quiet expected_error"

lemma looks_read_regular [checker_rules]: "looks (read_regular p limit)"
  by (rule checker_mono [OF checker_read_regular]) (auto intro: os_or_value_expected)

lemma raises_decoded: "raises expected_error (decoded b)"
  by (auto simp: decoded_def raises_def split: option.splits)

lemma raises_parse_ref: "raises expected_error (parse_ref ref)"
  by (cases ref) (auto simp: parse_ref_def Let_def intro!: raises_rules)

lemma raises_as_text [dynamic_raises]: "raises expected_error (as_text j)"
  by (auto simp: as_text_def raises_def split: json.splits)

lemma looks_follow: "looks (follow target parts)"
  by (induction target parts rule: follow.induct) (auto simp: is_symlink_def intro!: checker_rules)

lemma looks_resolve_ref: "looks (resolve_ref u root ref)"
  unfolding resolve_ref_def
  by (intro checker_rules looks_follow raises_decoded raises_parse_ref) simp

interpretation references: observer "resolve_ref u root" quiet expected_error for u root
  by unfold_locales (rule looks_resolve_ref)

lemma checker_register [checker_rules]:
  "(\<And>seen r. checker good P (row seen r)) \<Longrightarrow> checker good P (register row seen rs)"
  by (induction row seen rs rule: register.induct) (auto intro!: checker_rules)

lemma raises_checks [dynamic_raises]:
  "raises expected_error (schema j ns)" "raises expected_error (strings j b)"
  "raises expected_error (ensure b' (Invalid s))"
  unfolding schema_def strings_def by (intro raises_rules; simp)+

lemma raises_requirement [dynamic_raises]:
  "raises expected_error (requirement_id u ids r)" "raises expected_error (requirement_obligations r)"
  "raises expected_error (superseded adrs a)" "raises expected_error (implementation_backed r)"
  "raises expected_error (requirement_refs r)"
  unfolding requirement_id_def requirement_obligations_def superseded_def implementation_backed_def
    requirement_refs_def by (intro dynamic_raises raises_rules; simp)+

lemma raises_current_decisions [dynamic_raises]: "raises expected_error (current_decisions adrs r)"
  unfolding current_decisions_def by (intro dynamic_raises raises_rules; simp)

lemma raises_rows:
  "raises expected_error (decision_fields u adrs d)" "raises expected_error (requirement_fields u adrs ids r)"
  "raises expected_error (hazard_fields u ids hids h)" "raises expected_error (case_fields u ids seen c)"
  "raises expected_error (linked hids r)"
  unfolding decision_fields_def requirement_fields_def hazard_fields_def case_fields_def linked_def
  by (intro dynamic_raises raises_rules; simp)+

lemma raises_succession: "raises expected_error (succession adrs)"
  unfolding succession_def superseded_by_def replacement_def
  by (intro dynamic_raises raises_rules raises_for_each; simp)

lemma looks_rows:
  "looks (decision u root adrs d)" "looks (requirement u root adrs ids r)" "looks (hazard u root ids hids h)"
  "looks (fault_case u root ids seen c)"
  unfolding decision_def requirement_def hazard_def fault_case_def
  by (intro checker_rules references.all_behave looks_resolve_ref raises_rows dynamic_raises raises_rules; simp)+

lemma looks_registers:
  "looks (decisions u root j)" "looks (requirements u root adrs j)" "looks (hazards u root ids j k)"
  "looks (fault_cases u root ids j)"
  unfolding decisions_def requirements_def hazards_def fault_cases_def format_one_def
  by (intro checker_rules looks_rows dynamic_raises raises_rules raises_succession raises_rows; simp)+

lemma raises_lax: "raises check_error (rbind (decoded b) (loads lax depth))"
proof -
  have "hooks_raise lax check_error"
    by (auto simp: hooks_raise_def lax_def raises_def check_error_def)
  then show ?thesis
    by (intro raises_rules raises_loads raises_mono [OF raises_decoded check_error_expected])
qed

lemma load_json_parsed: "load_json depth p = parsed read_regular (\<lambda>b. rbind (decoded b) (loads lax depth)) p READ_LIMIT"
  by (simp add: load_json_def parsed_def)

lemma checks_load_json: "checker quiet check_error (load_json depth p)"
  unfolding load_json_parsed
  by (rule regular.parsed_behaves) (auto intro: raises_lax check_error_expected os_or_value_expected simp: READ_LIMIT_def)

lemma looks_checks: "looks m \<Longrightarrow> checker quiet check_error m"
  by (erule checker_mono) (simp_all add: check_error_expected)

lemma looks_requirement_document: "looks (lift (requirement_document data))"
  unfolding requirement_document_def by (intro checker_rules dynamic_raises raises_rules; simp)

lemma checks_validate_registers: "checker quiet check_error (validate_registers u depth root)"
  unfolding validate_registers_def
  by (intro checker_seq checker_ret checks_load_json looks_requirement_document [THEN looks_checks]
      looks_registers [THEN looks_checks])

end
