(* ===== verification/Traceability.thy ===== *)
theory Traceability
  imports Engineering_Spec
begin

text \<open>
  What it means that the registers of \<open>ci/engineering.py\<close> were accepted: identifiers are unique and of
  their form, every link between requirements, hazards, decisions and fault cases has its target, no
  requirement rests on a superseded decision, and no decision replaces itself through others. The locale
  \<open>identified\<close> is the contract of a row check: it accepts a row under an identifier not seen before.
\<close>

section \<open>Registers\<close>

lemma register_rows:
  assumes "\<And>seen r k w v. row seen r w = (Inr k, v) \<Longrightarrow> R r k"
  shows "register row seen rs w = (Inr ks, v) \<Longrightarrow> \<exists>new. ks = seen @ new \<and> list_all2 R rs new"
proof (induction rs arbitrary: seen w)
  case (Cons r rs)
  then obtain k u where k: "row seen r w = (Inr k, u)" "register row (seen @ [k]) rs u = (Inr ks, v)"
    by (auto simp: runs)
  with Cons.IH [of "seen @ [k]" u] obtain new where "ks = seen @ k # new" "list_all2 R rs new" by fastforce
  with assms [OF k(1)] show ?case by auto
qed (simp add: runs)

locale identified =
  fixes row :: "'k list \<Rightarrow> json \<Rightarrow> 'k io" and key :: "'k \<Rightarrow> pystr"
  assumes fresh: "row seen r w = (Inr k, v) \<Longrightarrow> key k \<notin> key ` set seen"
begin

lemma register_distinct:
  "register row seen rs w = (Inr ks, v) \<Longrightarrow> distinct (map key seen) \<Longrightarrow> distinct (map key ks)"
proof (induction rs arbitrary: seen w)
  case (Cons r rs)
  then obtain k u where "row seen r w = (Inr k, u)" "register row (seen @ [k]) rs u = (Inr ks, v)"
    by (auto simp: runs)
  with Cons fresh show ?case by auto
qed (simp add: runs)

lemma all_distinct: "register row [] rs w = (Inr ks, v) \<Longrightarrow> distinct (map key ks) \<and> length ks = length rs"
  using register_distinct [of "[]"] register_rows [of row "\<lambda>_ _. True" "[]" rs w ks v]
  by (auto simp: list_all2_iff)

end

section \<open>Fields\<close>

text \<open>The elements of an iterable field; empty where there is no such field.\<close>

definition listed :: "json \<Rightarrow> string \<Rightarrow> json list" where
  "listed r f = (case item r f iterate of Inl _ \<Rightarrow> [] | Inr xs \<Rightarrow> xs)"

definition has_text :: "json \<Rightarrow> string \<Rightarrow> pystr \<Rightarrow> bool" where
  "has_text d f s \<longleftrightarrow> getitem d f = Inr (JStr s)"

text \<open>Every element of the field is one of the identifiers, and there is one.\<close>

definition links_to :: "json \<Rightarrow> string \<Rightarrow> pystr list \<Rightarrow> bool" where
  "links_to r f ks \<longleftrightarrow> listed r f \<noteq> [] \<and> set (listed r f) \<subseteq> JStr ` set ks"

lemma truthy_iterate: "iterate j = Inr xs \<Longrightarrow> truthy j \<longleftrightarrow> xs \<noteq> []"
  by (cases j) auto

lemma as_text_Inr [simp]: "as_text j = Inr s \<longleftrightarrow> j = JStr s"
  by (auto simp: as_text_def split: json.splits)

lemma links_toI:
  assumes "getitem r f = Inr x" "truthy x" "iterate x = Inr xs" "\<forall>y\<in>set xs. \<exists>k\<in>set ks. y = JStr k"
  shows "links_to r f ks"
  using assms truthy_iterate [OF assms(3)] by (auto simp: links_to_def listed_def item_def)

definition is_reference :: "json \<Rightarrow> bool" where
  "is_reference ref \<longleftrightarrow> (case parse_ref ref of Inl _ \<Rightarrow> False | Inr _ \<Rightarrow> True)"

lemma resolve_ref_is_reference: "resolve_ref u root ref w = (Inr x, v) \<Longrightarrow> is_reference ref"
  by (auto simp: resolve_ref_def is_reference_def runs)

lemma each_resolve_ref: "each (resolve_ref u root) refs w = (Inr xs, v) \<Longrightarrow> list_all is_reference refs"
  by (induction refs arbitrary: w xs) (auto simp: runs dest: resolve_ref_is_reference)

lemma iterate_sum_iff:
  "iterate_sum a b = Inr xs \<Longrightarrow> \<exists>as bs. iterate a = Inr as \<and> iterate b = Inr bs \<and> xs = as @ bs"
  by (cases "(a, b)" rule: iterate_sum.cases) auto

lemma iterate_sum3_iff:
  "iterate_sum3 a b c = Inr xs \<Longrightarrow>
   \<exists>as bs cs. iterate a = Inr as \<and> iterate b = Inr bs \<and> iterate c = Inr cs \<and> xs = as @ bs @ cs"
  by (cases "(a, b, c)" rule: iterate_sum3.cases) (auto dest!: iterate_sum_iff)

lemma strings_Inr: "strings j b = Inr x \<longleftrightarrow>
    (\<exists>xs. j = JArr xs \<and> (b \<or> xs \<noteq> []) \<and> list_all nonempty_text xs \<and> distinct xs)"
  by (auto simp: strings_def split: json.splits)

section \<open>Rows\<close>

definition decision_row :: "unicode \<Rightarrow> json \<Rightarrow> pystr \<times> json \<Rightarrow> bool" where
  "decision_row u d p \<longleftrightarrow> snd p = d \<and> has_text d ''id'' (fst p) \<and> full_match (id_regex u ''ADR-'' 4) (fst p)"

definition requirement_row :: "unicode \<Rightarrow> adrs \<Rightarrow> json \<Rightarrow> pystr \<Rightarrow> bool" where
  "requirement_row u adrs r k \<longleftrightarrow>
     has_text r ''id'' k \<and> full_match (id_regex u ''REQ-'' 3) k \<and> links_to r ''adr'' (map fst adrs) \<and>
     list_all (\<lambda>a. list_all (\<lambda>(i, d). JStr i = a \<longrightarrow> \<not> has_text d ''status'' (str ''superseded'')) adrs) (listed r ''adr'') \<and>
     (has_text r ''status'' (str ''implemented-unvalidated'') \<longrightarrow> listed r ''code'' \<noteq> [] \<and> listed r ''tests'' \<noteq> []) \<and>
     list_all is_reference (listed r ''spec'' @ listed r ''code'' @ listed r ''tests'')"

definition hazard_row :: "unicode \<Rightarrow> pystr list \<Rightarrow> json \<Rightarrow> pystr \<Rightarrow> bool" where
  "hazard_row u ids h k \<longleftrightarrow>
     has_text h ''id'' k \<and> full_match (id_regex u ''HAZ-'' 3) k \<and> links_to h ''requirements'' ids"

definition case_row :: "unicode \<Rightarrow> pystr list \<Rightarrow> json \<Rightarrow> pystr \<Rightarrow> bool" where
  "case_row u ids c k \<longleftrightarrow>
     has_text c ''id'' k \<and> full_match (id_regex u ''FAULT-'' 3) k \<and> links_to c ''requirements'' ids"

lemma decision_fieldsD:
  assumes "decision_fields u adrs d = Inr k"
  shows "decision_row u d (k, d)" "k \<notin> fst ` set adrs"
  using assms by (auto simp: decision_fields_def decision_row_def has_text_def)

lemma decisionD:
  assumes "decision u root adrs d w = (Inr p, v)"
  shows "decision_row u d p" "fst p \<notin> fst ` set adrs"
proof -
  from assms obtain k where "decision_fields u adrs d = Inr k" "p = (k, d)"
    by (auto simp: decision_def runs split: prod.splits)
  with decision_fieldsD [of u adrs d k] show "decision_row u d p" "fst p \<notin> fst ` set adrs" by simp_all
qed

lemma hazard_fieldsD:
  assumes "hazard_fields u ids hids h = Inr k"
  shows "hazard_row u ids h k" "k \<notin> set hids"
  using assms by (auto simp: hazard_fields_def hazard_row_def has_text_def intro!: links_toI)

lemma hazardD: "hazard u root ids hids h w = (Inr k, v) \<Longrightarrow> hazard_row u ids h k \<and> k \<notin> set hids"
  using hazard_fieldsD by (fastforce simp: hazard_def runs)

lemma case_fieldsD:
  assumes "case_fields u ids seen c = Inr k"
  shows "case_row u ids c k" "k \<notin> set seen"
  using assms by (auto simp: case_fields_def case_row_def has_text_def strings_Inr intro!: links_toI)

lemma fault_caseD: "fault_case u root ids seen c w = (Inr k, v) \<Longrightarrow> case_row u ids c k \<and> k \<notin> set seen"
  using case_fieldsD by (fastforce simp: fault_case_def runs)

lemma requirement_idD:
  "requirement_id u ids r = Inr k \<Longrightarrow> has_text r ''id'' k \<and> full_match (id_regex u ''REQ-'' 3) k \<and> k \<notin> set ids"
  by (auto simp: requirement_id_def has_text_def)

lemma requirement_obligationsD:
  "requirement_obligations r = Inr x \<Longrightarrow> \<exists>a. getitem r ''adr'' = Inr a \<and> truthy a"
  by (auto simp: requirement_obligations_def)

lemma superseded_False:
  "superseded adrs a = Inr False \<Longrightarrow> a = JStr i \<Longrightarrow> map_of adrs i = Some d \<Longrightarrow> \<not> has_text d ''status'' (str ''superseded'')"
  by (auto simp: superseded_def has_text_def equals_text_def)

lemma current_decisionsD:
  assumes "current_decisions adrs r = Inr x" "distinct (map fst adrs)" "getitem r ''adr'' = Inr a" "truthy a"
  shows "links_to r ''adr'' (map fst adrs)"
    "list_all (\<lambda>a. list_all (\<lambda>(i, d). JStr i = a \<longrightarrow> \<not> has_text d ''status'' (str ''superseded'')) adrs) (listed r ''adr'')"
proof -
  from assms obtain as where as: "iterate a = Inr as" "\<forall>x\<in>set as. \<exists>i\<in>set (map fst adrs). x = JStr i"
    "\<forall>x\<in>set as. superseded adrs x = Inr False"
    by (auto simp: current_decisions_def)
  with assms show "links_to r ''adr'' (map fst adrs)" by (intro links_toI)
  have listed: "listed r ''adr'' = as" using assms(3) as(1) by (simp add: listed_def item_def)
  show "list_all (\<lambda>a. list_all (\<lambda>(i, d). JStr i = a \<longrightarrow> \<not> has_text d ''status'' (str ''superseded'')) adrs) (listed r ''adr'')"
    unfolding listed list_all_iff
    using as(3) assms(2) by (auto dest!: superseded_False map_of_is_SomeI)
qed

lemma requirement_refsD:
  assumes "requirement_refs r = Inr refs"
  shows "refs = listed r ''spec'' @ listed r ''code'' @ listed r ''tests''"
proof -
  from assms obtain a b c where f: "getitem r ''spec'' = Inr a" "getitem r ''code'' = Inr b" "getitem r ''tests'' = Inr c"
    "iterate_sum3 a b c = Inr refs" by (auto simp: requirement_refs_def)
  from iterate_sum3_iff [OF f(4)] f show ?thesis by (auto simp: listed_def item_def)
qed

lemma implementation_backedD:
  assumes "implementation_backed r = Inr x" "requirement_refs r = Inr refs"
    "has_text r ''status'' (str ''implemented-unvalidated'')"
  shows "listed r ''code'' \<noteq> [] \<and> listed r ''tests'' \<noteq> []"
proof -
  from assms(1,3) obtain b c where f: "getitem r ''code'' = Inr b" "getitem r ''tests'' = Inr c" "truthy b" "truthy c"
    by (auto simp: implementation_backed_def has_text_def equals_text_def)
  from assms(2) f obtain a where "iterate_sum3 a b c = Inr refs" by (auto simp: requirement_refs_def)
  from iterate_sum3_iff [OF this] f show ?thesis by (auto simp: listed_def item_def truthy_iterate)
qed

lemma requirementD:
  assumes "requirement u root adrs ids r w = (Inr k, v)" and adrs: "distinct (map fst adrs)"
  shows "requirement_row u adrs r k" "k \<notin> set ids"
proof -
  from assms obtain refs xs w' where r: "requirement_id u ids r = Inr k" "requirement_obligations r = Inr ()"
    "current_decisions adrs r = Inr ()" "implementation_backed r = Inr ()" "requirement_refs r = Inr refs"
    and "each (resolve_ref u root) refs w = (Inr xs, w')"
    by (auto simp: requirement_def requirement_fields_def runs)
  then have refs: "list_all is_reference refs" by (blast dest: each_resolve_ref)
  from requirement_obligationsD [OF r(2)] obtain a where a: "getitem r ''adr'' = Inr a" "truthy a" by blast
  show "requirement_row u adrs r k"
    using requirement_idD [OF r(1)] current_decisionsD [OF r(3) adrs a] implementation_backedD [OF r(4,5)] refs
    unfolding requirement_row_def requirement_refsD [OF r(5)] by blast
  show "k \<notin> set ids" using requirement_idD [OF r(1)] by blast
qed

section \<open>The succession of decisions\<close>

definition texts :: "json list \<Rightarrow> pystr list" where
  "texts js = map (\<lambda>j. case j of JStr s \<Rightarrow> s | _ \<Rightarrow> []) js"

definition edges_of :: "adrs \<Rightarrow> (pystr \<times> pystr list) list" where
  "edges_of adrs = map (\<lambda>(k, d). (k, texts (listed d ''supersedes''))) adrs"

text \<open>
  Every decision superseded is registered and another one, a decision has the status \<open>superseded\<close> if and
  only if one supersedes it, and nobody supersedes himself, not even through others.
\<close>

definition succession_sound :: "adrs \<Rightarrow> bool" where
  "succession_sound adrs \<longleftrightarrow>
     (\<forall>(k, d)\<in>set adrs. set (listed d ''supersedes'') \<subseteq> JStr ` (fst ` set adrs - {k}) \<and>
        (has_text d ''status'' (str ''superseded'') \<longleftrightarrow> (\<exists>(j, e)\<in>set adrs. JStr k \<in> set (listed e ''supersedes'')))) \<and>
     acyclic (replaces (edges_of adrs))"

lemma for_each_InrD: "for_each f xs = Inr ys \<Longrightarrow> x \<in> set xs \<Longrightarrow> \<exists>y\<in>set ys. f x = Inr y"
  by (induction xs arbitrary: ys) auto

lemma superseded_byD:
  assumes "superseded_by adrs (k, d) = Inr e"
  shows "e = (k, texts (listed d ''supersedes''))" "set (listed d ''supersedes'') \<subseteq> JStr ` (fst ` set adrs - {k})"
    "listed d ''supersedes'' = map JStr (snd e)"
proof -
  from assms obtain x olds ks where x: "getitem d ''supersedes'' = Inr x" "iterate x = Inr olds" "e = (k, ks)"
    and ks: "for_each (\<lambda>old. rbind (refuse (orelse (negated (element old (map fst adrs))) (Inr (old = JStr k)))
        (Invalid ''invalid superseded ADR'')) (\<lambda>_. as_text old)) olds = Inr ks"
    by (auto simp: superseded_by_def)
  have olds: "listed d ''supersedes'' = olds" using x by (simp add: listed_def item_def)
  from ks have all: "list_all2 (\<lambda>old t. old = JStr t \<and> t \<in> fst ` set adrs \<and> t \<noteq> k) olds ks"
    unfolding for_each_Inr_iff by (rule list_all2_mono) auto
  then have "olds = map JStr ks" by (induction) auto
  with x(3) olds show "e = (k, texts (listed d ''supersedes''))" "listed d ''supersedes'' = map JStr (snd e)"
    by (simp_all add: texts_def comp_def)
  from all show "set (listed d ''supersedes'') \<subseteq> JStr ` (fst ` set adrs - {k})"
    unfolding olds by (induction) auto
qed

lemma replacementD:
  assumes "replacement edges (k, d) = Inr x"
  shows "has_text d ''status'' (str ''superseded'') \<longleftrightarrow> incoming edges k" "(k, k) \<notin> (replaces edges)\<^sup>+"
  using assms by (auto simp: replacement_def has_text_def equals_text_def cyclic_iff)

lemma incoming_edges_of:
  assumes "\<And>j e. (j, e) \<in> set adrs \<Longrightarrow> listed e ''supersedes'' = map JStr (texts (listed e ''supersedes''))"
  shows "incoming (edges_of adrs) k \<longleftrightarrow> (\<exists>(j, e)\<in>set adrs. JStr k \<in> set (listed e ''supersedes''))"
proof -
  have "JStr k \<in> set (listed e ''supersedes'') \<longleftrightarrow> k \<in> set (texts (listed e ''supersedes''))" if "(j, e) \<in> set adrs" for j e
    by (subst assms [OF that]) auto
  then show ?thesis by (force simp: incoming_def edges_of_def list_ex_iff)
qed

lemma successorD: "b \<in> set (successors edges a) \<Longrightarrow> a \<in> fst ` set edges"
  by (cases "map_of edges a") (auto simp: successors_def dest!: map_of_SomeD intro: rev_image_eqI)

lemma acyclic_replaces:
  assumes "\<And>k. k \<in> fst ` set edges \<Longrightarrow> (k, k) \<notin> (replaces edges)\<^sup>+"
  shows "acyclic (replaces edges)"
proof -
  have "a \<in> fst ` set edges" if "(a, a) \<in> (replaces edges)\<^sup>+" for a
    using that by (auto dest!: tranclD successorD)
  with assms show ?thesis unfolding acyclic_def by blast
qed

lemma successionD:
  assumes "succession adrs = Inr edges"
  shows "edges = edges_of adrs" "succession_sound adrs"
proof -
  from assms obtain ys where e: "for_each (superseded_by adrs) adrs = Inr edges" and r: "for_each (replacement edges) adrs = Inr ys"
    by (auto simp: succession_def)
  from e have all: "list_all2 (\<lambda>p e. superseded_by adrs p = Inr e) adrs edges" by (simp add: for_each_Inr_iff)
  then have "list_all2 (\<lambda>p e. e = (fst p, texts (listed (snd p) ''supersedes''))) adrs edges"
    by (rule list_all2_mono) (auto dest: superseded_byD(1))
  then have "edges = map (\<lambda>p. (fst p, texts (listed (snd p) ''supersedes''))) adrs"
    by induction auto
  then show edges: "edges = edges_of adrs" by (simp add: edges_of_def case_prod_unfold)
  have su: "\<exists>e. superseded_by adrs (k, d) = Inr e" if "(k, d) \<in> set adrs" for k d
    using e that by (blast dest: for_each_InrD)
  have re: "\<exists>x. replacement edges (k, d) = Inr x" if "(k, d) \<in> set adrs" for k d
    using r that by (blast dest: for_each_InrD)
  have inc: "incoming edges k \<longleftrightarrow> (\<exists>(j, e)\<in>set adrs. JStr k \<in> set (listed e ''supersedes''))" for k
    unfolding edges using su superseded_byD by (intro incoming_edges_of) fastforce
  have "acyclic (replaces edges)"
  proof (rule acyclic_replaces)
    fix k assume "k \<in> fst ` set edges"
    then obtain d where "(k, d) \<in> set adrs" by (auto simp: edges edges_of_def)
    from re [OF this] show "(k, k) \<notin> (replaces edges)\<^sup>+" by (blast dest: replacementD(2))
  qed
  moreover have "set (listed d ''supersedes'') \<subseteq> JStr ` (fst ` set adrs - {k})" if "(k, d) \<in> set adrs" for k d
    using su [OF that] by (blast dest: superseded_byD(2))
  moreover have "has_text d ''status'' (str ''superseded'') \<longleftrightarrow> (\<exists>(j, e)\<in>set adrs. JStr k \<in> set (listed e ''supersedes''))"
    if "(k, d) \<in> set adrs" for k d
    using re [OF that] replacementD(1) unfolding inc [symmetric] by blast
  ultimately show "succession_sound adrs"
    unfolding succession_sound_def edges by blast
qed

section \<open>The registers together\<close>

interpretation decision_register: identified "decision u root" fst for u root
  by unfold_locales (rule decisionD(2))

interpretation hazard_register: identified "hazard u root ids" "\<lambda>k. k" for u root ids
  by unfold_locales (use hazardD in fastforce)

interpretation case_register: identified "fault_case u root ids" "\<lambda>k. k" for u root ids
  by unfold_locales (use fault_caseD in fastforce)

lemma decisionsD:
  assumes "decisions u root document w = (Inr adrs, v)"
  shows "list_all2 (decision_row u) (listed document ''decisions'') adrs" "distinct (map fst adrs)" "succession_sound adrs"
proof -
  from assms obtain x ds edges u1 u2 where d: "getitem document ''decisions'' = Inr x" "iterate x = Inr ds"
    "register (decision u root) [] ds u1 = (Inr adrs, u2)" "succession adrs = Inr edges"
    by (auto simp: decisions_def runs)
  have "listed document ''decisions'' = ds" using d by (simp add: listed_def item_def)
  with register_rows [OF decisionD(1) d(3)] show "list_all2 (decision_row u) (listed document ''decisions'') adrs" by auto
  from decision_register.all_distinct [OF d(3)] show "distinct (map fst adrs)" by simp
  from successionD(2) [OF d(4)] show "succession_sound adrs" .
qed

lemma requirement_fresh: "requirement u root adrs ids r w = (Inr k, v) \<Longrightarrow> k \<notin> set ids"
  using requirement_idD by (fastforce simp: requirement_def requirement_fields_def runs)

interpretation requirement_register: identified "requirement u root adrs" "\<lambda>k. k" for u root adrs
  by unfold_locales (use requirement_fresh in fastforce)

lemma requirementsD:
  assumes "requirements u root adrs data w = (Inr ids, v)" "distinct (map fst adrs)"
  shows "list_all2 (requirement_row u adrs) (listed data ''requirements'') ids" "distinct ids"
proof -
  from assms(1) obtain x rs where d: "getitem data ''requirements'' = Inr x" "iterate x = Inr rs"
    "register (requirement u root adrs) [] rs w = (Inr ids, v)"
    by (auto simp: requirements_def runs)
  have "listed data ''requirements'' = rs" using d by (simp add: listed_def item_def)
  with register_rows [OF requirementD(1) [OF _ assms(2)] d(3)]
  show "list_all2 (requirement_row u adrs) (listed data ''requirements'') ids" by auto
  from requirement_register.all_distinct [OF d(3)] show "distinct ids" by simp
qed

lemma hazardsD:
  assumes "hazards u root ids data document w = (Inr hids, v)"
  shows "list_all2 (hazard_row u ids) (listed document ''hazards'') hids" "distinct hids"
    "list_all (\<lambda>r. links_to r ''hazards'' hids) (listed data ''requirements'')"
proof -
  from assms obtain x hs y rs zs u1 u2 where d: "getitem document ''hazards'' = Inr x" "iterate x = Inr hs"
    "register (hazard u root ids) [] hs u1 = (Inr hids, u2)" "getitem data ''requirements'' = Inr y" "iterate y = Inr rs"
    "for_each (linked hids) rs = Inr zs"
    by (auto simp: hazards_def runs)
  have listed: "listed document ''hazards'' = hs" "listed data ''requirements'' = rs"
    using d by (simp_all add: listed_def item_def)
  have "\<And>r k s w v. hazard u root ids s r w = (Inr k, v) \<Longrightarrow> hazard_row u ids r k" using hazardD by blast
  from register_rows [OF this d(3)] listed show "list_all2 (hazard_row u ids) (listed document ''hazards'') hids" by auto
  from hazard_register.all_distinct [OF d(3)] show "distinct hids" by simp
  have "links_to r ''hazards'' hids" if "linked hids r = Inr z" for r z
    using that by (auto simp: linked_def intro!: links_toI)
  with d(6) listed(2) show "list_all (\<lambda>r. links_to r ''hazards'' hids) (listed data ''requirements'')"
    by (auto simp: list_all_iff dest!: for_each_InrD)
qed

lemma fault_casesD:
  assumes "fault_cases u root ids document w = (Inr seen, v)"
  shows "list_all2 (case_row u ids) (listed document ''cases'') seen" "distinct seen"
proof -
  from assms obtain x cs u1 where d: "getitem document ''cases'' = Inr x" "iterate x = Inr cs"
    "register (fault_case u root ids) [] cs u1 = (Inr seen, v)"
    by (auto simp: fault_cases_def runs)
  have listed: "listed document ''cases'' = cs" using d by (simp add: listed_def item_def)
  have "\<And>r k s w v. fault_case u root ids s r w = (Inr k, v) \<Longrightarrow> case_row u ids r k" using fault_caseD by blast
  from register_rows [OF this d(3)] listed show "list_all2 (case_row u ids) (listed document ''cases'') seen" by auto
  from case_register.all_distinct [OF d(3)] show "distinct seen" by simp
qed

text \<open>What an accepted set of registers satisfies, given the four documents.\<close>

definition traceable :: "unicode \<Rightarrow> json \<Rightarrow> json \<Rightarrow> json \<Rightarrow> json \<Rightarrow> registers \<Rightarrow> bool" where
  "traceable u data decs hz fc g \<longleftrightarrow>
     list_all2 (decision_row u) (listed decs ''decisions'') (g_adrs g) \<and> distinct (map fst (g_adrs g)) \<and>
     succession_sound (g_adrs g) \<and>
     list_all2 (requirement_row u (g_adrs g)) (listed data ''requirements'') (g_requirements g) \<and>
     distinct (g_requirements g) \<and>
     list_all (\<lambda>r. links_to r ''hazards'' (g_hazards g)) (listed data ''requirements'') \<and>
     list_all2 (hazard_row u (g_requirements g)) (listed hz ''hazards'') (g_hazards g) \<and> distinct (g_hazards g) \<and>
     list_all2 (case_row u (g_requirements g)) (listed fc ''cases'') (g_cases g) \<and> distinct (g_cases g)"

lemma validate_registers_traceable:
  assumes "validate_registers u depth root w = (Inr g, v)"
  obtains data decs hz fc w1 w2 where
    "load_json depth (engineering_file root ''requirements.json'') w = (Inr data, w1)"
    "load_json depth (engineering_file root ''adrs.json'') w1 = (Inr decs, w2)"
    "\<exists>w3 w4. load_json depth (engineering_file root ''hazards.json'') w3 = (Inr hz, w4)"
    "\<exists>w5 w6. load_json depth (engineering_file root ''fault-cases.json'') w5 = (Inr fc, w6)"
    "traceable u data decs hz fc g"
proof -
  from assms obtain data w1 decs w2 w3 w4 hz w5 w6 fc w7 where
    l: "load_json depth (engineering_file root ''requirements.json'') w = (Inr data, w1)"
      "load_json depth (engineering_file root ''adrs.json'') w1 = (Inr decs, w2)"
      "load_json depth (engineering_file root ''hazards.json'') w4 = (Inr hz, w5)"
      "load_json depth (engineering_file root ''fault-cases.json'') w6 = (Inr fc, w7)"
    and d: "decisions u root decs w2 = (Inr (g_adrs g), w3)"
      "requirements u root (g_adrs g) data w3 = (Inr (g_requirements g), w4)"
      "hazards u root (g_requirements g) data hz w5 = (Inr (g_hazards g), w6)"
      "fault_cases u root (g_requirements g) fc w7 = (Inr (g_cases g), v)"
    by (auto simp: validate_registers_def runs)
  note a = decisionsD [OF d(1)]
  from a requirementsD [OF d(2) a(2)] hazardsD [OF d(3)] fault_casesD [OF d(4)]
  have "traceable u data decs hz fc g" by (simp add: traceable_def)
  with l that show ?thesis by blast
qed

end
