(* ===== verification/Gpr.thy ===== *)
theory Gpr
  imports Engineering
begin

text \<open>
  The lists of main units in the project files of GPRbuild, as \<open>ci/engineering.py\<close> and
  \<open>ci/unified-audit.py\<close> take them from the text with regular expressions.
\<close>

section \<open>findall\<close>

text \<open>
  \<open>re.findall\<close> of an expression with one group that matches no empty text: the search goes on behind
  each match.
\<close>

function findall :: "regex \<Rightarrow> cursor \<Rightarrow> pystr list" where
  "findall a s =
     (case search a s of
        None \<Rightarrow> []
      | Some s' \<Rightarrow>
          (case group 1 s' of None \<Rightarrow> [] | Some t \<Rightarrow> t) #
          (if length (c_after s') < length (c_after s) then findall a s' else []))"
  by pat_completeness auto
termination
  by (relation "measure (\<lambda>(a, s). length (c_after s))") auto

declare findall.simps [simp del]

section \<open>Main units\<close>

definition any_char :: regex where
  "any_char = Class (\<lambda>_. True)"

definition spaces :: regex where
  "spaces = Star True (Class is_space)"

definition word :: "string \<Rightarrow> regex" where
  "word s = literal (str s)"

fun cats :: "regex list \<Rightarrow> regex" where
  "cats [] = Nothing"
| "cats [a] = a"
| "cats (a # as) = Cat a (cats as)"

text \<open>\<open>for Main use\s*\((.*?)\);\<close> with \<open>re.S\<close>\<close>

definition main_list :: regex where
  "main_list = cats [word ''for Main use'', spaces, word ''('', Group 1 (Star False any_char), word '');'']"

text \<open>\<open>"([^"]+\.adb)"\<close> and \<open>"([a-z0-9_]+)\.adb"\<close>\<close>

definition test_main :: regex where
  "test_main = cats [Class (\<lambda>c. c = 34), Group 1 (Cat (some_of (Class (\<lambda>c. c \<noteq> 34))) (word ''.adb'')), Class (\<lambda>c. c = 34)]"

definition application_main :: regex where
  "application_main = cats [Class (\<lambda>c. c = 34), Group 1 (some_of (Class (\<lambda>c. is_lower c \<or> is_digit c \<or> c = 95))),
     word ''.adb'', Class (\<lambda>c. c = 34)]"

text \<open>The units an expression finds in the main list of a project file.\<close>

definition main_units :: "regex \<Rightarrow> exn \<Rightarrow> pystr \<Rightarrow> pystr list res" where
  "main_units unit e gpr =
     (case search main_list (at_start gpr) of
        None \<Rightarrow> Inl e
      | Some s \<Rightarrow> Inr (findall unit (at_start (case group 1 s of None \<Rightarrow> [] | Some t \<Rightarrow> t))))"

end
