(* ===== verification/Test_Plan.thy ===== *)
theory Test_Plan
  imports Gpr
begin

text \<open>
  The last part of \<open>validate\<close> in \<open>ci/engineering.py\<close>: the roles and the plan that gives every test main
  of the project files an execution tier, its arguments and an owner.
\<close>

section \<open>Roles\<close>

definition role_row :: "json list \<Rightarrow> json \<Rightarrow> json res" where
  "role_row seen role =
     rbind (schema role [''role'', ''scope'', ''assigned_people'']) (\<lambda>_.
     rbind (item role ''scope'' (\<lambda>x. strings x False)) (\<lambda>_.
     rbind (item role ''assigned_people'' (\<lambda>x. strings x True)) (\<lambda>_.
     item role ''role'' (\<lambda>k.
     rbind (refuse (among k seen) (Invalid ''duplicate role'')) (\<lambda>_. Inr k)))))"

fun roles :: "json list \<Rightarrow> json list \<Rightarrow> json list res" where
  "roles seen [] = Inr seen"
| "roles seen (r # rs) = rbind (role_row seen r) (\<lambda>k. roles (seen @ [k]) rs)"

definition ownership :: "json \<Rightarrow> json list res" where
  "ownership owners =
     rbind (schema owners [''format'', ''roles'', ''unassigned_is_approved'']) (\<lambda>_.
     rbind (item owners ''unassigned_is_approved'' (\<lambda>x. ensure (x = JBool False) (Invalid ''unassigned owner is not an approval''))) (\<lambda>_.
     rbind (item owners ''roles'' iterate) (roles [])))"

section \<open>The mains planned and the mains registered\<close>

definition dedupe :: "json list \<Rightarrow> json list" where
  "dedupe js = foldl (\<lambda>acc j. if list_ex (same j) acc then acc else acc @ [j]) [] js"

text \<open>\<open>{r['main'] for r in test_plan['ada_tests']}\<close>, refused when two entries have the same main.\<close>

definition planned_mains :: "json list \<Rightarrow> json list res" where
  "planned_mains ts =
     rbind (for_each (\<lambda>t. item t ''main'' (\<lambda>m. if hashable m then Inr m else Inl TypeError)) ts) (\<lambda>ms.
     rbind (ensure (length (dedupe ms) = length ts) (Invalid ''duplicate test main'')) (\<lambda>_.
     Inr (dedupe ms)))"

text \<open>The mains that the project file of a repository registers.\<close>

definition registered_mains :: "pystr \<Rightarrow> string \<Rightarrow> pystr list io" where
  "registered_mains root repo =
     seq (read_regular (slash (slash root (str repo)) (str ''tests.gpr'')) READ_LIMIT) (\<lambda>b.
     lift (rbind (decoded b) (\<lambda>text.
           rbind (main_units test_main (Invalid ''missing GPR test main list'') text) (\<lambda>fs.
           Inr (map (\<lambda>f. str repo @ str ''/tests/'' @ f) fs)))))"

definition is_text :: "json \<Rightarrow> bool" where
  "is_text j \<longleftrightarrow> (case j of JStr _ \<Rightarrow> True | _ \<Rightarrow> False)"

text \<open>\<open>sorted\<close> of distinct hashable values raises \<open>TypeError\<close> where two cannot be compared.\<close>

definition sortable :: "json list \<Rightarrow> bool" where
  "sortable js \<longleftrightarrow> length js \<le> 1 \<or> list_all is_text js \<or> list_all (\<lambda>j. number_of j \<noteq> None) js"

definition same_mains :: "json list \<Rightarrow> pystr list \<Rightarrow> unit res" where
  "same_mains planned expected =
     ensure (set planned = JStr ` set expected)
       (if sortable (filter (\<lambda>j. j \<notin> JStr ` set expected) planned) then Invalid ''test plan mismatch'' else TypeError)"

section \<open>Entries\<close>

definition word_any_case :: "unicode \<Rightarrow> string \<Rightarrow> regex" where
  "word_any_case u s = literal_any_case (u_variants u) (str s)"

definition digits :: "unicode \<Rightarrow> regex" where
  "digits u = Group 1 (some_of (Class (\<lambda>c. u_digit u c \<noteq> None)))"

text \<open>
  \<open>Argument_Count\s*/=\s*(\d+)\<close> and \<open>\bExpect\s*\(\s*(?:Ada\.Command_Line\.)?Argument_Count\s*=\s*(\d+)\<close>, both with
  \<open>re.I\<close>.
\<close>

definition count_refused :: "unicode \<Rightarrow> regex" where
  "count_refused u = cats [word_any_case u ''Argument_Count'', spaces, word ''/='', spaces, digits u]"

definition count_expected :: "unicode \<Rightarrow> regex" where
  "count_expected u = cats [Boundary (u_word u), word_any_case u ''Expect'', spaces, word ''('', spaces,
     Alt (word_any_case u ''Ada.Command_Line.'') Nothing, word_any_case u ''Argument_Count'', spaces, word ''='', spaces, digits u]"

definition argument_count :: "unicode \<Rightarrow> pystr \<Rightarrow> pystr option" where
  "argument_count u text =
     (case search (count_refused u) (at_start text) of
        Some s \<Rightarrow> group 1 s
      | None \<Rightarrow> (case search (count_expected u) (at_start text) of Some s \<Rightarrow> group 1 s | None \<Rightarrow> None))"

text \<open>\<open>int\<close> of decimal digits; Python refuses more than 4300.\<close>

definition digits_value :: "unicode \<Rightarrow> pystr \<Rightarrow> int res" where
  "digits_value u s =
     (if 4300 < length s then Inl ValueError
      else Inr (foldl (\<lambda>n c. n * 10 + (case u_digit u c of Some d \<Rightarrow> int d | None \<Rightarrow> 0)) 0 s))"

definition argument_ok :: "json \<Rightarrow> unit res" where
  "argument_ok arg =
     (case arg of
        JStr s \<Rightarrow>
          rbind (ensure (s \<noteq> [] \<and> 0 \<notin> set s) (Invalid ''invalid argument in test plan'')) (\<lambda>_.
          let relative = (if take 6 s = str ''$TEMP/'' then drop 6 s else s)
          in ensure (36 \<notin> set relative \<and> take 1 relative \<noteq> str ''/'' \<and>
               \<not> list_ex (\<lambda>p. p \<in> {[], str ''..'', str ''.''}) (split_on 47 relative)) (Invalid ''unsafe argument in test plan''))
      | _ \<Rightarrow> Inl (Invalid ''invalid argument in test plan''))"

text \<open>The checks before the reference to the source of the main, and those after it.\<close>

definition entry_fields :: "json list \<Rightarrow> json \<Rightarrow> unit res" where
  "entry_fields role_ids t =
     rbind (schema t [''main'', ''tier'', ''arguments'', ''result'', ''prepare_directories'', ''execution_owner'', ''note'']) (\<lambda>_.
     rbind (item t ''arguments'' (\<lambda>x. strings x True)) (\<lambda>_.
     rbind (item t ''prepare_directories'' (\<lambda>x. strings x True)) (\<lambda>_.
     refuse (negated (item t ''execution_owner'' (\<lambda>o'. among o' role_ids))) (Invalid ''unassigned test execution role''))))"

definition entry_arguments :: "unicode \<Rightarrow> pystr \<Rightarrow> json \<Rightarrow> unit res" where
  "entry_arguments u text t =
     rbind (case argument_count u text of
              None \<Rightarrow> Inr ()
            | Some s \<Rightarrow> rbind (item t ''arguments'' size_of) (\<lambda>k. rbind (digits_value u s) (\<lambda>n.
                ensure (k = n) (Invalid ''wrong argument count in execution plan'')))) (\<lambda>_.
     rbind (item t ''arguments'' (\<lambda>a. item t ''prepare_directories'' (iterate_sum a))) (\<lambda>args.
     rbind (for_each argument_ok args) (\<lambda>_.
     refuse (orelse (item t ''tier'' (\<lambda>x. Inr (\<not> one_of x [''unit'', ''isolated-io'', ''host-read-only''])))
                    (item t ''result'' (\<lambda>x. Inr (\<not> equals_text x ''not-run''))))
       (Invalid ''test-plan execution status is not evidence''))))"

definition plan_entry :: "unicode \<Rightarrow> pystr \<Rightarrow> json list \<Rightarrow> json \<Rightarrow> unit io" where
  "plan_entry u root role_ids t =
     seq (lift (entry_fields role_ids t)) (\<lambda>_.
     seq (lift (getitem t ''main'')) (\<lambda>m.
     seq (resolve_ref u root m) (\<lambda>(_, text).
     lift (entry_arguments u text t))))"

section \<open>The plan\<close>

definition validate_plan :: "unicode \<Rightarrow> nat \<Rightarrow> pystr \<Rightarrow> json list io" where
  "validate_plan u depth root =
     seq (load_json depth (engineering_file root ''test-plan.json'')) (\<lambda>plan.
     seq (lift (rbind (schema plan [''format'', ''ada_tests'']) (\<lambda>_. format_one plan ''test plan format''))) (\<lambda>_.
     seq (load_json depth (engineering_file root ''ownership.json'')) (\<lambda>owners.
     seq (lift (ownership owners)) (\<lambda>role_ids.
     seq (lift (item plan ''ada_tests'' iterate)) (\<lambda>ts.
     seq (lift (planned_mains ts)) (\<lambda>planned.
     seq (each (registered_mains root) REPOS) (\<lambda>mains.
     seq (lift (same_mains planned (concat mains))) (\<lambda>_.
     seq (each (plan_entry u root role_ids) ts) (\<lambda>_.
     ret planned)))))))))"

end
