(* ===== verification/Unified_Audit.thy ===== *)
theory Unified_Audit
  imports Gpr Sha256
begin

text \<open>
  \<open>ci/unified-audit.py\<close>: the capability register, the lineage of the restored files with its amendments,
  and the artifact manifests of the repositories, each checked by the functions of \<open>ci/engineering.py\<close>.
\<close>

section \<open>Capabilities\<close>

definition capability_fields :: "unicode \<Rightarrow> pystr list \<Rightarrow> json \<Rightarrow> (pystr \<times> json list) res" where
  "capability_fields u seen row =
     rbind (schema row [''id'', ''name'', ''level'', ''code'', ''implemented_scope'', ''remaining'']) (\<lambda>_.
     rbind (refuse
       (orelse (negated (item row ''id'' (matches_fully (id_regex u ''CAP-'' 3)))) (item row ''id'' (\<lambda>i. element i seen)))
       (Invalid ''duplicate or invalid capability'')) (\<lambda>_.
     rbind (item row ''level'' (\<lambda>l. refuse (negated (element l (map str
         [''runtime-unvalidated'', ''sdk-unvalidated'', ''restored-model'', ''tooling'', ''not-implemented'', ''not-promised''])))
       (Invalid ''unknown or inflated implementation status''))) (\<lambda>_.
     rbind (refuse
       (orelse (item row ''name'' (\<lambda>x. Inr (\<not> truthy x)))
       (orelse (item row ''implemented_scope'' (\<lambda>x. Inr (\<not> truthy x)))
               (item row ''remaining'' (\<lambda>x. Inr (\<not> truthy x)))))
       (Invalid ''scope or residual boundary absent'')) (\<lambda>_.
     rbind (item row ''code'' (\<lambda>c. strings c True)) (\<lambda>_.
     item row ''level'' (\<lambda>l. item row ''code'' (\<lambda>c.
     rbind (ensure (\<not> (one_of l [''runtime-unvalidated'', ''sdk-unvalidated'', ''restored-model'', ''tooling''] \<and> \<not> truthy c))
       (Invalid ''implementation claim without code'')) (\<lambda>_.
     rbind (ensure (\<not> (one_of l [''not-implemented'', ''not-promised''] \<and> truthy c))
       (Invalid ''ambiguous implementation/no-implementation claim'')) (\<lambda>_.
     item row ''id'' (\<lambda>i. rbind (as_text i) (\<lambda>k. rbind (iterate c) (\<lambda>refs. Inr (k, refs)))))))))))))"

definition capability :: "unicode \<Rightarrow> pystr \<Rightarrow> pystr list \<Rightarrow> json \<Rightarrow> pystr io" where
  "capability u root seen row =
     seq (lift (capability_fields u seen row)) (\<lambda>(k, refs).
     seq (each (resolve_ref u root) refs) (\<lambda>_.
     ret k))"

definition no_qualification :: "json \<Rightarrow> unit res" where
  "no_qualification data =
     refuse
       (orelse (item data ''format'' (\<lambda>f. Inr (\<not> exactly_one f)))
       (orelse (item data ''production_qualified'' (\<lambda>x. Inr (x \<noteq> JBool False)))
               (item data ''ada_executed'' (\<lambda>x. Inr (x \<noteq> JBool False)))))
       (Invalid ''capability source cannot confer qualification'')"

definition capabilities :: "unicode \<Rightarrow> nat \<Rightarrow> pystr \<Rightarrow> json io" where
  "capabilities u depth root =
     seq (load_json depth (engineering_file root ''capabilities.json'')) (\<lambda>data.
     seq (lift (rbind (schema data [''format'', ''production_qualified'', ''ada_executed'', ''capabilities'']) (\<lambda>_.
                rbind (no_qualification data) (\<lambda>_.
                item data ''capabilities'' iterate)))) (\<lambda>rows.
     seq (register (capability u root) [] rows) (\<lambda>_.
     ret data)))"

section \<open>Lineage\<close>

text \<open>A dict whose keys need not be strings.\<close>

type_synonym dict = "(json \<times> json) list"

definition lookup :: "dict \<Rightarrow> json \<Rightarrow> json option" where
  "lookup d k = map_option snd (find (\<lambda>p. same (fst p) k) d)"

fun put :: "json \<Rightarrow> json \<Rightarrow> dict \<Rightarrow> dict" where
  "put k v [] = [(k, v)]"
| "put k v (p # d) = (if same (fst p) k then (fst p, v) # d else p # put k v d)"

text \<open>\<open>{row['path']: row['sha256'] for row in data['restored']}\<close>\<close>

fun recorded :: "dict \<Rightarrow> json list \<Rightarrow> dict res" where
  "recorded d [] = Inr d"
| "recorded d (row # rows) =
     item row ''path'' (\<lambda>k. item row ''sha256'' (\<lambda>v.
     rbind (ensure (hashable k) TypeError) (\<lambda>_. recorded (put k v d) rows)))"

definition digest_field :: "json \<Rightarrow> string \<Rightarrow> unit res" where
  "digest_field row f =
     item row f (\<lambda>x. ensure (case x of JStr s \<Rightarrow> is_digest s | _ \<Rightarrow> False) (Invalid ''amendment digest syntax''))"

definition adr_path :: regex where
  "adr_path = Cat (literal (str ''assurance/docs/engineering/adr/ADR-''))
     (Cat (times 4 (Class is_digit)) (literal (str ''.ja.md'')))"

text \<open>The values at \<open>current[path]\<close>, where it exists.\<close>

definition amends_original :: "dict \<Rightarrow> json list \<Rightarrow> json \<Rightarrow> bool res" where
  "amends_original current amended row =
     item row ''path'' (\<lambda>path.
     rbind (among path (map fst current)) (\<lambda>known.
     if \<not> known then Inr False
     else rbind (among path amended) (\<lambda>before.
     if before then Inr False
     else case lookup current path of
            None \<Rightarrow> Inl KeyError
          | Some old \<Rightarrow> item row ''from_sha256'' (\<lambda>a. if old \<noteq> a then Inr False
                         else item row ''to_sha256'' (\<lambda>b. Inr (a \<noteq> b))))))"

definition amendment_reviewed :: "json \<Rightarrow> bool res" where
  "amendment_reviewed row =
     item row ''scope'' (\<lambda>sc.
     if \<not> (case sc of JStr s \<Rightarrow> \<not> list_all is_space s | _ \<Rightarrow> False) then Inr False
     else item row ''validation'' (\<lambda>v.
     if \<not> one_of v [''source-inspected; ada-not-run; independent-review-pending'',
          ''source-inspected; native-validation-recorded-separately; independent-review-pending''] then Inr False
     else item row ''adr'' (\<lambda>a. Inr (case a of JStr s \<Rightarrow> full_match adr_path s | _ \<Rightarrow> False))))"

text \<open>One amendment: the digest in force for its path and the paths amended so far.\<close>

definition amendment :: "unicode \<Rightarrow> pystr \<Rightarrow> dict \<Rightarrow> json list \<Rightarrow> json \<Rightarrow> (dict \<times> json list) io" where
  "amendment u root current amended row =
     seq (lift (
       rbind (schema row [''path'', ''from_sha256'', ''to_sha256'', ''adr'', ''scope'', ''validation'']) (\<lambda>_.
       rbind (digest_field row ''from_sha256'') (\<lambda>_.
       rbind (digest_field row ''to_sha256'') (\<lambda>_.
       rbind (refuse (negated (amends_original current amended row)) (Invalid ''amendment must identify a unique exact original'')) (\<lambda>_.
       rbind (refuse (negated (amendment_reviewed row)) (Invalid ''amendment scope/review reference invalid'')) (\<lambda>_.
       getitem row ''adr''))))))) (\<lambda>adr.
     seq (resolve_ref u root adr) (\<lambda>_.
     lift (item row ''path'' (\<lambda>path. item row ''to_sha256'' (\<lambda>v. Inr (put path v current, amended @ [path]))))))"

fun amendments :: "unicode \<Rightarrow> pystr \<Rightarrow> dict \<Rightarrow> json list \<Rightarrow> json list \<Rightarrow> (dict \<times> json list) io" where
  "amendments u root current amended [] = ret (current, amended)"
| "amendments u root current amended (row # rows) =
     seq (amendment u root current amended row) (\<lambda>(current', amended'). amendments u root current' amended' rows)"

text \<open>One file of the lineage; \<open>restored\<close> tells the group.\<close>

definition lineage_file :: "unicode \<Rightarrow> pystr \<Rightarrow> bool \<Rightarrow> dict \<Rightarrow> json list \<Rightarrow> json \<Rightarrow> json io" where
  "lineage_file u root restored current seen row =
     seq (lift (getitem row ''path'')) (\<lambda>path.
     seq (lift (refuse (among path seen) (Invalid ''duplicate lineage path''))) (\<lambda>_.
     seq (resolve_ref u root path) (\<lambda>(p, _).
     seq (if restored
          then seq (read_regular p READ_LIMIT) (\<lambda>b.
               case lookup current path of
                 None \<Rightarrow> raise KeyError
               | Some v \<Rightarrow> check (JStr (sha b) = v) (Invalid ''restored code changed without exact lineage amendment''))
          else ret ()) (\<lambda>_.
     ret path))))"

fun lineage_files :: "unicode \<Rightarrow> pystr \<Rightarrow> bool \<Rightarrow> dict \<Rightarrow> json list \<Rightarrow> json list \<Rightarrow> json list io" where
  "lineage_files u root restored current seen [] = ret seen"
| "lineage_files u root restored current seen (row # rows) =
     seq (lineage_file u root restored current seen row) (\<lambda>path.
     lineage_files u root restored current (seen @ [path]) rows)"

definition not_approval :: "json \<Rightarrow> unit res" where
  "not_approval changes =
     refuse
       (orelse (item changes ''format'' (\<lambda>f. Inr (\<not> exactly_one f)))
       (orelse (item changes ''production_qualification'' (\<lambda>x. Inr (x \<noteq> JBool False)))
               (item changes ''independent_review'' (\<lambda>x. Inr (\<not> equals_text x ''pending'')))))
       (Invalid ''lineage amendment is not independent approval'')"

definition not_qualified :: "json \<Rightarrow> unit res" where
  "not_qualified data =
     refuse
       (orelse (item data ''production_qualification'' (\<lambda>x. Inr (x \<noteq> JBool False)))
               (item data ''ada_compile'' (\<lambda>x. Inr (\<not> equals_text x ''not-run''))))
       (Invalid ''lineage is not qualification'')"

definition amendment_list :: "json \<Rightarrow> json list res" where
  "amendment_list changes =
     item changes ''amendments'' (\<lambda>x. case x of JArr rows \<Rightarrow> Inr rows | _ \<Rightarrow> Inl (Invalid ''amendment list required''))"

record lineage_report =
  n_restored :: int
  n_newer :: int
  n_canonical :: nat
  n_amended :: nat
  n_archive :: json
  n_sha256 :: json

text \<open>\<open>'/tests/' not in x['path']\<close>\<close>

definition canonical_row :: "json \<Rightarrow> bool res" where
  "canonical_row x = item x ''path'' (\<lambda>p. rbind (as_text p) (\<lambda>s. Inr (\<not> occurs (str ''/tests/'') s)))"

definition lineage_summary :: "json \<Rightarrow> json list \<Rightarrow> lineage_report res" where
  "lineage_summary data amended =
     rbind (item data ''restored'' size_of) (\<lambda>r.
     rbind (item data ''retained_newer_conflicts'' size_of) (\<lambda>k.
     rbind (item data ''restored'' (\<lambda>x. rbind (iterate x) (for_each canonical_row))) (\<lambda>c.
     rbind (getitem data ''source_archive'') (\<lambda>a.
     rbind (getitem data ''source_sha256'') (\<lambda>s.
     Inr \<lparr>n_restored = r, n_newer = k, n_canonical = length (filter (\<lambda>b. b) c), n_amended = length amended,
          n_archive = a, n_sha256 = s\<rparr>)))))"

definition lineage :: "unicode \<Rightarrow> nat \<Rightarrow> pystr \<Rightarrow> lineage_report io" where
  "lineage u depth root =
     seq (load_json depth (engineering_file root ''lineage-merge.json'')) (\<lambda>data.
     seq (load_json depth (engineering_file root ''lineage-amendments.json'')) (\<lambda>changes.
     seq (lift (rbind (schema changes [''format'', ''production_qualification'', ''independent_review'', ''amendments'']) (\<lambda>_.
                rbind (not_approval changes) (\<lambda>_.
                rbind (not_qualified data) (\<lambda>_.
                rbind (amendment_list changes) (\<lambda>rows.
                rbind (item data ''restored'' iterate) (\<lambda>files.
                rbind (recorded [] files) (\<lambda>current.
                Inr (rows, files, current))))))))) (\<lambda>(rows, files, current).
     seq (amendments u root current [] rows) (\<lambda>(current', amended).
     seq (lineage_files u root True current' [] files) (\<lambda>seen.
     seq (lift (item data ''retained_newer_conflicts'' iterate)) (\<lambda>newer.
     seq (lineage_files u root False current' seen newer) (\<lambda>_.
     seq (lift (item data ''restored_docs'' iterate)) (\<lambda>docs.
     seq (each (resolve_ref u root) docs) (\<lambda>_.
     lift (lineage_summary data amended))))))))))"

section \<open>Packaging\<close>

text \<open>\<open>s.removeprefix(p)\<close>; a value that is not a string has no such attribute.\<close>

definition remove_prefix :: "string \<Rightarrow> json \<Rightarrow> pystr res" where
  "remove_prefix p j =
     (case j of
        JStr s \<Rightarrow> Inr (if take (length p) s = str p then drop (length p) s else s)
      | _ \<Rightarrow> Inl AttributeError)"

text \<open>One executable of an artifact; \<open>declared\<close> are the names so far, each with its destination.\<close>

definition executable_row :: "pystr list \<Rightarrow> json \<Rightarrow> pystr res" where
  "executable_row declared row =
     rbind (schema row [''source'', ''destination'', ''mode'']) (\<lambda>_.
     rbind (item row ''source'' (remove_prefix ''build/bin/'')) (\<lambda>name.
     let target = str ''usr/libexec/nia/'' @ name
     in rbind (refuse
          (orelse (Inr (name \<in> set declared))
          (orelse (item row ''source'' (\<lambda>x. Inr (x \<noteq> JStr (str ''build/bin/'' @ name))))
          (orelse (item row ''destination'' (\<lambda>x. Inr (x \<noteq> JStr target)))
          (orelse (Inr (target \<in> (\<lambda>n. str ''usr/libexec/nia/'' @ n) ` set declared))
                  (item row ''mode'' (\<lambda>x. Inr (\<not> equals_text x ''0755'')))))))
          (Invalid ''artifact executable scope'')) (\<lambda>_.
        Inr name)))"

fun executables :: "pystr list \<Rightarrow> json list \<Rightarrow> pystr list res" where
  "executables declared [] = Inr declared"
| "executables declared (row # rows) =
     rbind (executable_row declared row) (\<lambda>name. executables (declared @ [name]) rows)"

definition no_authority :: "string \<Rightarrow> json \<Rightarrow> unit res" where
  "no_authority repo manifest =
     refuse
       (orelse (item manifest ''schema'' (\<lambda>x. Inr (\<not> equals_text x ''org.niaos.firstparty-artifact/v1'')))
       (orelse (item manifest ''component'' (\<lambda>x. Inr (\<not> equals_text x repo)))
       (orelse (item manifest ''transport'' (\<lambda>x. Inr (\<not> equals_text x ''deb'')))
       (orelse (item manifest ''origin'' (\<lambda>x. Inr (\<not> equals_text x ''nia-firstparty'')))
       (orelse (item manifest ''sources'' (\<lambda>x. Inr (\<not> equals_text x (repo @ ''.gpr''))))
       (orelse (item manifest ''dependency_set_qualified'' (\<lambda>x. Inr (x \<noteq> JBool False)))
       (orelse (item manifest ''production_qualified'' (\<lambda>x. Inr (x \<noteq> JBool False)))
       (orelse (item manifest ''native_database_writer'' (\<lambda>x. Inr (x \<noteq> JBool False)))
               (item manifest ''automatic_hooks'' (\<lambda>x. Inr (x \<noteq> JArr [])))))))))))
       (Invalid ''unqualified artifact cannot confer authority'')"

definition ARTIFACT_FIELDS :: "string list" where
  "ARTIFACT_FIELDS = [''schema'', ''component'', ''transport'', ''origin'', ''sources'', ''executables'',
     ''dependency_derivation'', ''dependency_set_qualified'', ''automatic_hooks'', ''native_database_writer'', ''production_qualified'']"

definition artifact :: "string \<Rightarrow> pystr \<Rightarrow> json \<Rightarrow> pystr list res" where
  "artifact repo gpr manifest =
     rbind (schema manifest ARTIFACT_FIELDS) (\<lambda>_.
     rbind (no_authority repo manifest) (\<lambda>_.
     rbind (main_units application_main (Invalid ''missing application main catalog'') gpr) (\<lambda>expected.
     rbind (item manifest ''executables'' iterate) (\<lambda>rows.
     rbind (executables [] rows) (\<lambda>declared.
     rbind (ensure (set declared = set expected) (Invalid ''artifact inventory differs from GPR application mains'')) (\<lambda>_.
     Inr (map (\<lambda>name. str repo @ str ''/'' @ name) declared)))))))"

text \<open>The application mains of one repository; the report lists those of all.\<close>

definition package :: "nat \<Rightarrow> pystr \<Rightarrow> string \<Rightarrow> pystr list io" where
  "package depth root repo =
     seq (read_regular (slash (slash root (str repo)) (str (repo @ ''.gpr''))) READ_LIMIT) (\<lambda>b.
     seq (lift (decoded b)) (\<lambda>gpr.
     seq (load_json depth (slash (slash root (str repo)) (str ''packaging/nia/artifact.json''))) (\<lambda>manifest.
     lift (artifact repo gpr manifest))))"

definition packaging :: "nat \<Rightarrow> pystr \<Rightarrow> pystr list io" where
  "packaging depth root = seq (each (package depth root) REPOS) (\<lambda>xss. ret (concat xss))"

end
