(* ===== verification/Audit_Spec.thy ===== *)
theory Audit_Spec
  imports Traceability Test_Plan Unified_Audit
begin

text \<open>
  What \<open>ci/unified-audit.py\<close> and the test plan of \<open>ci/engineering.py\<close> can do and raise, and what their
  acceptance means: each restored file has the digest of its record or of its one amendment, an artifact
  declares exactly the application mains of its project file, and the plan names exactly the registered
  test mains.
\<close>

section \<open>What the checks do and raise\<close>

lemma raises_truth: "raises P (Inr x)"
  by (simp add: raises_def)

lemma raises_capability: "raises expected_error (capability_fields u seen row)"
  unfolding capability_fields_def by (intro dynamic_raises raises_rules; simp)

lemma raises_audit [dynamic_raises]:
  "raises expected_error (no_qualification j)" "raises expected_error (not_approval j)" "raises expected_error (not_qualified j)"
  "raises expected_error (digest_field j f)" "raises expected_error (canonical_row j)"
  unfolding no_qualification_def not_approval_def not_qualified_def digest_field_def canonical_row_def
  by (intro dynamic_raises raises_rules; simp)+

lemma raises_amendment_list [dynamic_raises]: "raises expected_error (amendment_list j)"
  unfolding amendment_list_def by (intro dynamic_raises) (auto simp: raises_def split: json.splits)

lemma raises_recorded [dynamic_raises]: "raises expected_error (recorded d rows)"
  by (induction d rows rule: recorded.induct) (auto intro!: dynamic_raises raises_rules)

lemma raises_amends [dynamic_raises]:
  "raises expected_error (amends_original current amended row)" "raises expected_error (amendment_reviewed row)"
  unfolding amends_original_def amendment_reviewed_def
  by (intro dynamic_raises raises_rules; simp)+

lemma raises_lineage_summary [dynamic_raises]: "raises expected_error (lineage_summary data amended)"
  unfolding lineage_summary_def by (intro dynamic_raises raises_rules)

lemma looks_capability: "looks (capability u root seen row)"
  unfolding capability_def by (intro checker_rules raises_capability references.all_behave)

lemma looks_amendment: "looks (amendment u root current amended row)"
  unfolding amendment_def by (intro checker_rules looks_resolve_ref dynamic_raises raises_rules; simp)

lemma looks_amendments: "looks (amendments u root current amended rows)"
  by (induction u root current amended rows rule: amendments.induct)
    (auto intro!: checker_rules looks_amendment)

lemma looks_lineage_file: "looks (lineage_file u root restored current seen row)"
proof -
  have "looks (case x of None \<Rightarrow> raise KeyError | Some v \<Rightarrow> check (JStr (sha b) = v) (Invalid ''restored code changed without exact lineage amendment''))"
    for x b by (cases x) (auto intro!: checker_rules)
  then show ?thesis
    unfolding lineage_file_def by (intro checker_rules looks_resolve_ref dynamic_raises raises_rules; simp)
qed

lemma looks_lineage_files: "looks (lineage_files u root restored current seen rows)"
  by (induction u root restored current seen rows rule: lineage_files.induct)
    (auto intro!: checker_rules looks_lineage_file)

lemma checks_capabilities: "checker quiet check_error (capabilities u depth root)"
proof -
  have "looks (lift (rbind (schema data [''format'', ''production_qualified'', ''ada_executed'', ''capabilities'']) (\<lambda>_.
                rbind (no_qualification data) (\<lambda>_. item data ''capabilities'' iterate))))" for data
    by (intro checker_rules dynamic_raises raises_rules)
  moreover have "looks (register (capability u root) [] rows)" for rows
    by (intro checker_rules looks_capability)
  ultimately show ?thesis
    unfolding capabilities_def by (intro checker_seq checker_ret checks_load_json) (auto intro: looks_checks)
qed

lemma checks_lineage: "checker quiet check_error (lineage u depth root)"
proof -
  have docs: "looks (lift (rbind (schema changes [''format'', ''production_qualification'', ''independent_review'', ''amendments'']) (\<lambda>_.
                rbind (not_approval changes) (\<lambda>_.
                rbind (not_qualified data) (\<lambda>_.
                rbind (amendment_list changes) (\<lambda>rows.
                rbind (item data ''restored'' iterate) (\<lambda>files.
                rbind (recorded [] files) (\<lambda>current.
                Inr (rows, files, current)))))))))" for changes data
    by (intro checker_rules dynamic_raises raises_rules)
  have files: "looks (seq (amendments u root current [] rows) (\<lambda>(current', amended).
     seq (lineage_files u root True current' [] files) (\<lambda>seen.
     seq (lift (item data ''retained_newer_conflicts'' iterate)) (\<lambda>newer.
     seq (lineage_files u root False current' seen newer) (\<lambda>_.
     seq (lift (item data ''restored_docs'' iterate)) (\<lambda>docs.
     seq (each (resolve_ref u root) docs) (\<lambda>_.
     lift (lineage_summary data amended))))))))" for current rows files data
    by (intro checker_rules dynamic_raises looks_amendments looks_lineage_files references.all_behave)
  show ?thesis
    unfolding lineage_def
    by (intro checker_seq [OF checks_load_json] looks_checks checker_seq [OF docs] checker_prod files)
qed

text \<open>The packaging check has one more exception: the attribute lookup on a \<open>source\<close> that is no string.\<close>

definition packaging_error :: "exn \<Rightarrow> bool" where
  "packaging_error e \<longleftrightarrow> check_error e \<or> e = AttributeError"

lemma packaging_error_expected: "expected_error e \<Longrightarrow> packaging_error e"
  by (simp add: packaging_error_def check_error_def)

lemma raises_packaging: "raises expected_error r \<Longrightarrow> raises packaging_error r"
  by (auto intro: raises_mono packaging_error_expected)

lemma raises_item_any: "(\<And>v. raises packaging_error (f v)) \<Longrightarrow> raises packaging_error (item j k f)"
  unfolding item_def by (rule raises_rbind [OF raises_packaging [OF raises_getitem]])

lemma raises_executable_row: "raises packaging_error (executable_row declared row)"
proof -
  have name: "raises packaging_error (remove_prefix p j)" for p j
    by (auto simp: remove_prefix_def raises_def packaging_error_def split: json.splits)
  have "raises expected_error (refuse
          (orelse (Inr (name \<in> set declared))
          (orelse (item row ''source'' (\<lambda>x. Inr (x \<noteq> JStr (str ''build/bin/'' @ name))))
          (orelse (item row ''destination'' (\<lambda>x. Inr (x \<noteq> JStr target)))
          (orelse (Inr b) (item row ''mode'' (\<lambda>x. Inr (\<not> equals_text x ''0755'')))))))
          (Invalid ''artifact executable scope''))" for name target b
    by (intro dynamic_raises raises_rules) simp
  with name show ?thesis
    unfolding executable_row_def Let_def
    by (intro raises_rbind raises_item_any raises_truth)
      (auto intro: raises_packaging raises_checks)
qed

lemma raises_executables: "raises packaging_error (executables declared rows)"
  by (induction declared rows rule: executables.induct) (auto intro!: raises_rules raises_executable_row)

lemma raises_main_units: "expected_error e \<Longrightarrow> raises expected_error (main_units a e t)"
  by (auto simp: main_units_def raises_def split: option.splits)

lemma raises_artifact: "raises packaging_error (artifact repo gpr manifest)"
proof -
  have "raises expected_error (no_authority repo manifest)"
    unfolding no_authority_def by (intro dynamic_raises raises_rules; simp)
  then show ?thesis
    unfolding artifact_def
    by (intro raises_rbind raises_executables raises_packaging [OF raises_main_units] raises_packaging
        raises_item_dynamic raises_iterate raises_checks raises_truth) simp_all
qed

lemma checks_packaging: "checker quiet packaging_error (packaging depth root)"
proof -
  have up: "checker quiet packaging_error m" if "checker quiet check_error m" for m :: "'a io"
    using that by (rule checker_mono) (simp_all add: packaging_error_def)
  have "checker quiet packaging_error (package depth root repo)" for repo
    unfolding package_def
    by (intro checker_seq checker_lift raises_artifact up [OF looks_checks [OF looks_read_regular]] up [OF checks_load_json]
        raises_packaging [OF raises_decoded])
  then show ?thesis unfolding packaging_def by (intro checker_rules)
qed

lemma raises_plan [dynamic_raises]:
  "raises expected_error (role_row seen role)" "raises expected_error (entry_fields rs t)"
  "raises expected_error (digits_value u s)"
  unfolding role_row_def entry_fields_def digits_value_def by (intro dynamic_raises raises_rules; simp)+

lemma raises_roles [dynamic_raises]: "raises expected_error (roles seen rs)"
  by (induction seen rs rule: roles.induct) (auto intro!: dynamic_raises raises_rules)

lemma raises_argument_ok [dynamic_raises]: "raises expected_error (argument_ok arg)"
  by (cases arg) (auto simp: argument_ok_def Let_def intro!: raises_rules)

lemma raises_plan_parts [dynamic_raises]:
  "raises expected_error (ownership j)" "raises expected_error (planned_mains ts)"
  "raises expected_error (same_mains ms es)" "raises expected_error (entry_arguments u text t)"
  unfolding ownership_def planned_mains_def same_mains_def entry_arguments_def
  by (intro dynamic_raises raises_rules raises_for_each; simp)+

lemma checks_validate_plan: "checker quiet check_error (validate_plan u depth root)"
proof -
  have "looks (plan_entry u root rs t)" for rs t
    unfolding plan_entry_def by (intro checker_rules looks_resolve_ref dynamic_raises)
  moreover have "looks (registered_mains root repo)" for repo
    unfolding registered_mains_def by (intro checker_rules raises_rules raises_decoded raises_main_units; simp)
  ultimately have "looks (seq (lift (planned_mains ts)) (\<lambda>planned.
     seq (each (registered_mains root) REPOS) (\<lambda>mains.
     seq (lift (same_mains planned (concat mains))) (\<lambda>_.
     seq (each (plan_entry u root rs) ts) (\<lambda>_. ret planned)))))" for ts rs
    by (intro checker_rules dynamic_raises)
  moreover have "looks (lift (rbind (schema plan [''format'', ''ada_tests'']) (\<lambda>_. format_one plan ''test plan format'')))" for plan
    unfolding format_one_def by (intro checker_rules dynamic_raises raises_rules; simp)
  moreover have "looks (lift (ownership owners))" "looks (lift (item plan ''ada_tests'' iterate))" for owners plan
    by (intro checker_rules dynamic_raises)+
  ultimately show ?thesis
    unfolding validate_plan_def
    by (intro checker_seq [OF checks_load_json] checker_seq [OF looks_checks] looks_checks)
qed

end
