(* ===== verification/Lineage_Spec.thy ===== *)
theory Lineage_Spec
  imports Audit_Spec
begin

text \<open>
  What the acceptance of the lineage means: the digest in force for a path is that of its one amendment,
  which names the recorded digest as its origin, or the recorded one; and each restored file was read and
  has the digest in force.
\<close>

section \<open>Dicts\<close>

lemma lookup_put: "lookup (put k v d) (JStr p) = (if k = JStr p then Some v else lookup d (JStr p))"
  by (induction k v d rule: put.induct) (auto simp: lookup_def)

definition path_of :: "json \<Rightarrow> json" where
  "path_of r = (case getitem r ''path'' of Inl _ \<Rightarrow> JNull | Inr k \<Rightarrow> k)"

lemma path_of_item [simp]: "getitem r ''path'' = Inr k \<Longrightarrow> path_of r = k"
  by (simp add: path_of_def)

lemma recorded_other:
  "recorded d rows = Inr d' \<Longrightarrow> JStr p \<notin> path_of ` set rows \<Longrightarrow> lookup d' (JStr p) = lookup d (JStr p)"
  by (induction d rows rule: recorded.induct) (auto simp: lookup_put)

lemma recorded_row:
  "recorded d rows = Inr d' \<Longrightarrow> distinct (map path_of rows) \<Longrightarrow> r \<in> set rows \<Longrightarrow> path_of r = JStr p \<Longrightarrow>
   \<exists>v. getitem r ''sha256'' = Inr v \<and> lookup d' (JStr p) = Some v"
proof (induction d rows rule: recorded.induct)
  case (2 d row rows)
  from 2(2) obtain k v where k: "getitem row ''path'' = Inr k" "getitem row ''sha256'' = Inr v" "recorded (put k v d) rows = Inr d'"
    by auto
  show ?case
  proof (cases "r = row")
    case True
    with 2 k have "JStr p \<notin> path_of ` set rows" by force
    with recorded_other [OF k(3)] True k 2(5) show ?thesis by (auto simp: lookup_put)
  next
    case False
    with 2 k show ?thesis by auto
  qed
qed simp

section \<open>Amendments\<close>

lemma amendmentD:
  assumes "amendment u root cur am row w = (Inr (cur', am'), v)"
  obtains k a b where "getitem row ''path'' = Inr k" "getitem row ''from_sha256'' = Inr a" "getitem row ''to_sha256'' = Inr b"
    "am' = am @ [k]" "cur' = put k b cur" "lookup cur k = Some a" "\<And>p. k = JStr p \<Longrightarrow> JStr p \<notin> set am" "a \<noteq> b"
proof -
  from assms obtain k b where k: "getitem row ''path'' = Inr k" "getitem row ''to_sha256'' = Inr b" "am' = am @ [k]" "cur' = put k b cur"
    and t: "amends_original cur am row = Inr True"
    by (auto simp: amendment_def runs)
  from t k obtain a where "getitem row ''from_sha256'' = Inr a" "lookup cur k = Some a" "a \<noteq> b" "among k am = Inr False"
    by (auto simp: amends_original_def split: if_splits option.splits)
  moreover have "JStr p \<notin> set am" if "k = JStr p" for p
    using \<open>among k am = Inr False\<close> that by (auto simp: among_def list_ex_iff split: if_splits)
  ultimately show ?thesis using k that by blast
qed

lemma amendments_fresh:
  "amendments u root cur am rows w = (Inr (cur', am'), v) \<Longrightarrow> JStr p \<in> set am \<Longrightarrow> JStr p \<notin> path_of ` set rows"
proof (induction rows arbitrary: cur am w)
  case (Cons row rows)
  from Cons.prems(1) obtain c a u1 where s: "amendment u root cur am row w = (Inr (c, a), u1)"
    "amendments u root c a rows u1 = (Inr (cur', am'), v)"
    by (auto simp: runs)
  from s(1) show ?case
    by (rule amendmentD) (use Cons.IH [OF s(2)] Cons.prems(2) in auto)
qed simp

lemma amendments_other:
  "amendments u root cur am rows w = (Inr (cur', am'), v) \<Longrightarrow> JStr p \<notin> path_of ` set rows \<Longrightarrow>
   lookup cur' (JStr p) = lookup cur (JStr p)"
proof (induction rows arbitrary: cur am w)
  case (Cons row rows)
  from Cons.prems(1) obtain c a u1 where s: "amendment u root cur am row w = (Inr (c, a), u1)"
    "amendments u root c a rows u1 = (Inr (cur', am'), v)"
    by (auto simp: runs)
  from s(1) show ?case
    by (rule amendmentD) (use Cons.IH [OF s(2)] Cons.prems(2) in \<open>auto simp: lookup_put\<close>)
qed (simp add: runs)

lemma amendments_row:
  "amendments u root cur am rows w = (Inr (cur', am'), v) \<Longrightarrow> r \<in> set rows \<Longrightarrow> path_of r = JStr p \<Longrightarrow>
   \<exists>a b. getitem r ''from_sha256'' = Inr a \<and> getitem r ''to_sha256'' = Inr b \<and> lookup cur (JStr p) = Some a \<and>
     lookup cur' (JStr p) = Some b"
proof (induction rows arbitrary: cur am w)
  case (Cons row rows)
  from Cons.prems(1) obtain c am1 u1 where s: "amendment u root cur am row w = (Inr (c, am1), u1)"
    "amendments u root c am1 rows u1 = (Inr (cur', am'), v)"
    by (auto simp: runs)
  from s(1) obtain k a b where k: "getitem row ''path'' = Inr k" "getitem row ''from_sha256'' = Inr a"
    "getitem row ''to_sha256'' = Inr b" "am1 = am @ [k]" "c = put k b cur" "lookup cur k = Some a"
    by (rule amendmentD)
  show ?case
  proof (cases "k = JStr p")
    case True
    with amendments_fresh [OF s(2), of p] k(4) have none: "JStr p \<notin> path_of ` set rows" by simp
    with Cons.prems(2,3) have "r = row" by (auto simp: image_iff)
    with amendments_other [OF s(2) none] k True show ?thesis by (simp add: lookup_put)
  next
    case False
    with Cons.prems(2,3) k(1) have "r \<in> set rows" by auto
    from Cons.IH [OF s(2) this Cons.prems(3)] k(5) False show ?thesis by (simp add: lookup_put)
  qed
qed simp

section \<open>Files\<close>

text \<open>The file of a row was resolved and, for a restored one, read; \<open>d\<close> is its digest in force.\<close>

definition file_checked :: "unicode \<Rightarrow> pystr \<Rightarrow> pystr \<Rightarrow> (bytes \<Rightarrow> bool) \<Rightarrow> bool" where
  "file_checked u root p good \<longleftrightarrow>
     (\<exists>w1 w2 w3 target content b. resolve_ref u root (JStr p) w1 = (Inr (target, content), w2) \<and>
        read_regular target READ_LIMIT w2 = (Inr b, w3) \<and> good b)"

lemma lineage_fileD:
  assumes "lineage_file u root restored cur seen row w = (Inr k, v)"
  shows "\<exists>p. k = JStr p \<and> getitem row ''path'' = Inr k \<and> k \<notin> set seen \<and>
    (restored \<longrightarrow> file_checked u root p (\<lambda>b. lookup cur (JStr p) = Some (JStr (sha b))))"
proof -
  from assms obtain w1 w2 target content where k: "getitem row ''path'' = Inr k" "among k seen = Inr False"
    "resolve_ref u root k w1 = (Inr (target, content), w2)"
    and r: "restored \<Longrightarrow> \<exists>b w3. read_regular target READ_LIMIT w2 = (Inr b, w3) \<and> lookup cur k = Some (JStr (sha b))"
    by (auto simp: lineage_file_def runs split: if_splits option.splits)
  from resolve_ref_is_reference [OF k(3)] obtain p where p: "k = JStr p"
    by (cases k) (auto simp: is_reference_def parse_ref_def)
  moreover have "k \<notin> set seen"
    using k(2) p by (auto simp: among_def list_ex_iff split: if_splits)
  ultimately show ?thesis
    using k r unfolding file_checked_def by blast
qed

lemma lineage_filesD:
  "lineage_files u root restored cur seen rows w = (Inr seen', v) \<Longrightarrow>
   distinct (map path_of rows) \<and> set seen \<inter> path_of ` set rows = {} \<and>
   (\<forall>r\<in>set rows. \<exists>p. has_text r ''path'' p \<and>
      (restored \<longrightarrow> file_checked u root p (\<lambda>b. lookup cur (JStr p) = Some (JStr (sha b)))))"
proof (induction rows arbitrary: seen w)
  case (Cons row rows)
  then obtain k u1 where s: "lineage_file u root restored cur seen row w = (Inr k, u1)"
    "lineage_files u root restored cur (seen @ [k]) rows u1 = (Inr seen', v)"
    by (auto simp: runs)
  from lineage_fileD [OF s(1)] Cons.IH [OF s(2)] show ?case
    by (auto simp: has_text_def)
qed simp

section \<open>The lineage\<close>

text \<open>
  The digest a restored file must have: that of its amendment, which starts from the recorded one, or the
  recorded one.
\<close>

definition lineage_digest :: "json list \<Rightarrow> json \<Rightarrow> pystr \<Rightarrow> pystr \<Rightarrow> bool" where
  "lineage_digest changes row p h \<longleftrightarrow>
     (case find (\<lambda>r. path_of r = JStr p) changes of
        None \<Rightarrow> has_text row ''sha256'' h
      | Some r \<Rightarrow> has_text r ''to_sha256'' h \<and> getitem r ''from_sha256'' = getitem row ''sha256'')"

lemma lineage_digestI:
  assumes "recorded [] files = Inr cur" "amendments u root cur [] rows w = (Inr (cur', am'), v)"
    "distinct (map path_of files)" "row \<in> set files" "has_text row ''path'' p" "lookup cur' (JStr p) = Some (JStr h)"
  shows "lineage_digest rows row p h"
proof -
  have path: "path_of row = JStr p" using assms(5) by (simp add: has_text_def)
  from recorded_row [OF assms(1,3,4) path] obtain x where x: "getitem row ''sha256'' = Inr x" "lookup cur (JStr p) = Some x"
    by blast
  show ?thesis
  proof (cases "find (\<lambda>r. path_of r = JStr p) rows")
    case None
    then have "JStr p \<notin> path_of ` set rows" by (auto simp: find_None_iff)
    from amendments_other [OF assms(2) this] x assms(6) None show ?thesis
      by (simp add: lineage_digest_def has_text_def)
  next
    case (Some r)
    then have "r \<in> set rows" "path_of r = JStr p" by (auto simp: find_Some_iff)
    from amendments_row [OF assms(2) this] x assms(6) Some show ?thesis
      by (auto simp: lineage_digest_def has_text_def)
  qed
qed

lemma amendment_listD: "amendment_list changes = Inr rows \<Longrightarrow> getitem changes ''amendments'' = Inr (JArr rows)"
proof -
  assume "amendment_list changes = Inr rows"
  then obtain y where "getitem changes ''amendments'' = Inr y"
    "(case y of JArr rows \<Rightarrow> Inr rows | _ \<Rightarrow> Inl (Invalid ''amendment list required'')) = Inr rows"
    by (auto simp: amendment_list_def)
  then show ?thesis by (cases y) auto
qed

lemma lineage_checked:
  assumes "lineage u depth root w = (Inr rep, v)"
  obtains data changes w1 w2 where
    "load_json depth (engineering_file root ''lineage-merge.json'') w = (Inr data, w1)"
    "load_json depth (engineering_file root ''lineage-amendments.json'') w1 = (Inr changes, w2)"
    "distinct (map path_of (listed data ''restored''))"
    "\<And>row. row \<in> set (listed data ''restored'') \<Longrightarrow>
       \<exists>p. has_text row ''path'' p \<and> file_checked u root p (\<lambda>b. lineage_digest (listed changes ''amendments'') row p (sha b))"
proof -
  from assms obtain data w1 changes w2 rows x files cur cur' am w3 w4 where
    l: "load_json depth (engineering_file root ''lineage-merge.json'') w = (Inr data, w1)"
      "load_json depth (engineering_file root ''lineage-amendments.json'') w1 = (Inr changes, w2)"
    and d: "amendment_list changes = Inr rows" "getitem data ''restored'' = Inr x" "iterate x = Inr files"
      "recorded [] files = Inr cur" "amendments u root cur [] rows w2 = (Inr (cur', am), w3)"
    and f: "\<exists>seen. lineage_files u root True cur' [] files w3 = (Inr seen, w4)"
    by (auto simp: lineage_def runs split: prod.splits)
  have listed: "listed changes ''amendments'' = rows" "listed data ''restored'' = files"
    using amendment_listD [OF d(1)] d(2,3) by (simp_all add: listed_def item_def)
  from f obtain seen where "lineage_files u root True cur' [] files w3 = (Inr seen, w4)" by blast
  note files = lineage_filesD [OF this]
  have "\<exists>p. has_text row ''path'' p \<and> file_checked u root p (\<lambda>b. lineage_digest rows row p (sha b))"
    if row: "row \<in> set files" for row
  proof -
    from files row obtain p where "has_text row ''path'' p" "file_checked u root p (\<lambda>b. lookup cur' (JStr p) = Some (JStr (sha b)))"
      by blast
    moreover from lineage_digestI [OF d(4,5) _ row this(1)] files
    have "lookup cur' (JStr p) = Some (JStr (sha b)) \<Longrightarrow> lineage_digest rows row p (sha b)" for b by blast
    ultimately show ?thesis unfolding file_checked_def by blast
  qed
  with l files that [of data w1 changes w2] show ?thesis unfolding listed by blast
qed

section \<open>Artifacts\<close>

text \<open>An executable is installed from the build directory under its own name.\<close>

definition installs :: "json \<Rightarrow> pystr \<Rightarrow> bool" where
  "installs row name \<longleftrightarrow>
     has_text row ''source'' (str ''build/bin/'' @ name) \<and> has_text row ''destination'' (str ''usr/libexec/nia/'' @ name) \<and>
     has_text row ''mode'' (str ''0755'')"

lemma executable_rowD: "executable_row declared row = Inr name \<Longrightarrow> installs row name \<and> name \<notin> set declared"
  by (auto simp: executable_row_def Let_def installs_def has_text_def equals_text_def)

lemma executablesD:
  "executables declared rows = Inr names \<Longrightarrow> distinct declared \<Longrightarrow>
   distinct names \<and> (\<exists>new. names = declared @ new \<and> list_all2 installs rows new)"
proof (induction declared rows rule: executables.induct)
  case (2 declared row rows)
  then obtain name where n: "executable_row declared row = Inr name" "executables (declared @ [name]) rows = Inr names"
    by auto
  with 2 executable_rowD [OF n(1)] show ?case by fastforce
qed auto

lemma artifactD:
  assumes "artifact repo gpr manifest = Inr xs"
  obtains names units where "xs = map (\<lambda>n. str repo @ str ''/'' @ n) names" "distinct names"
    "list_all2 installs (listed manifest ''executables'') names"
    "main_units application_main (Invalid ''missing application main catalog'') gpr = Inr units" "set names = set units"
    "getitem manifest ''production_qualified'' = Inr (JBool False)" "has_text manifest ''component'' (str repo)"
    "getitem manifest ''automatic_hooks'' = Inr (JArr [])"
proof -
  from assms obtain x rows names units where a: "no_authority repo manifest = Inr ()"
    "main_units application_main (Invalid ''missing application main catalog'') gpr = Inr units"
    "getitem manifest ''executables'' = Inr x" "iterate x = Inr rows" "executables [] rows = Inr names"
    "set names = set units" "xs = map (\<lambda>n. str repo @ str ''/'' @ n) names"
    by (auto simp: artifact_def)
  have "listed manifest ''executables'' = rows" using a(3,4) by (simp add: listed_def item_def)
  moreover from executablesD [OF a(5)] have "distinct names" "list_all2 installs rows names" by auto
  moreover from a(1) have "getitem manifest ''production_qualified'' = Inr (JBool False)"
    "has_text manifest ''component'' (str repo)" "getitem manifest ''automatic_hooks'' = Inr (JArr [])"
    by (auto simp: no_authority_def has_text_def equals_text_def)
  ultimately show ?thesis using that [of names units] a(2,6,7) by blast
qed

end
