(* ===== verification/Plan_Spec.thy ===== *)
theory Plan_Spec
  imports Audit_Spec
begin

text \<open>
  What the acceptance of the test plan means: it names each registered test main exactly once, and no
  argument of an entry leaves the directory it is used in.
\<close>

section \<open>The mains\<close>

lemma dedupe_shorter:
  "length (foldl (\<lambda>acc j. if list_ex (same j) acc then acc else acc @ [j]) acc js) \<le> length acc + length js"
proof (induction js arbitrary: acc)
  case (Cons j js)
  from Cons [of acc] Cons [of "acc @ [j]"] show ?case by auto
qed simp

lemma dedupe_same:
  "length (foldl (\<lambda>acc j. if list_ex (same j) acc then acc else acc @ [j]) acc js) = length acc + length js \<Longrightarrow>
   foldl (\<lambda>acc j. if list_ex (same j) acc then acc else acc @ [j]) acc js = acc @ js \<and> distinct js \<and> set js \<inter> set acc = {}"
proof (induction js arbitrary: acc)
  case (Cons j js)
  have "\<not> list_ex (same j) acc"
  proof
    assume "list_ex (same j) acc"
    with Cons.prems dedupe_shorter [of acc js] show False by simp
  qed
  moreover from this have "j \<notin> set acc" by (auto simp: list_ex_iff)
  ultimately show ?case using Cons.IH [of "acc @ [j]"] Cons.prems by auto
qed simp

lemma dedupe_distinct: "length (dedupe js) = length js \<Longrightarrow> dedupe js = js \<and> distinct js"
  using dedupe_same [of "[]" js] by (simp add: dedupe_def)

lemma planned_mainsD:
  assumes "planned_mains ts = Inr ms"
  shows "list_all2 (\<lambda>t m. getitem t ''main'' = Inr m) ts ms" "distinct ms"
proof -
  from assms obtain js where js: "for_each (\<lambda>t. item t ''main'' (\<lambda>m. if hashable m then Inr m else Inl TypeError)) ts = Inr js"
    "length (dedupe js) = length ts" "ms = dedupe js"
    by (auto simp: planned_mains_def)
  from js(1) have all: "list_all2 (\<lambda>t m. getitem t ''main'' = Inr m) ts js"
    unfolding for_each_Inr_iff by (rule list_all2_mono) (auto split: if_splits)
  then have "length (dedupe js) = length js" using js(2) by (simp add: list_all2_lengthD)
  from dedupe_distinct [OF this] all js(3) show "list_all2 (\<lambda>t m. getitem t ''main'' = Inr m) ts ms" "distinct ms"
    by simp_all
qed

section \<open>The entries\<close>

text \<open>An argument below the working directory, or below the temporary directory of the run.\<close>

definition stays_below :: "json \<Rightarrow> bool" where
  "stays_below arg \<longleftrightarrow>
     (\<exists>s r. arg = JStr s \<and> (s = r \<or> s = str ''$TEMP/'' @ r) \<and> 0 \<notin> set s \<and> 36 \<notin> set r \<and>
        list_all (\<lambda>p. p \<noteq> [] \<and> p \<noteq> str ''..'' \<and> p \<noteq> str ''.'' \<and> 47 \<notin> set p) (split_on 47 r))"

definition entry_sound :: "json list \<Rightarrow> json \<Rightarrow> bool" where
  "entry_sound role_ids t \<longleftrightarrow>
     list_all stays_below (listed t ''arguments'' @ listed t ''prepare_directories'') \<and> has_text t ''result'' (str ''not-run'') \<and>
     (\<exists>x. getitem t ''execution_owner'' = Inr x \<and> list_ex (same x) role_ids)"

lemma temp_prefix: "s = (if take 6 s = t then drop 6 s else s) \<or> s = t @ (if take 6 s = t then drop 6 s else s)"
  using append_take_drop_id [of 6 s] by (cases "take 6 s = t") auto

lemma argument_okD:
  assumes ok: "argument_ok arg = Inr x"
  shows "stays_below arg"
proof (cases arg)
  case (JStr s)
  define r where "r = (if take 6 s = str ''$TEMP/'' then drop 6 s else s)"
  from ok JStr have r: "0 \<notin> set s" "36 \<notin> set r" "\<not> list_ex (\<lambda>p. p \<in> {[], str ''..'', str ''.''}) (split_on 47 r)"
    by (simp_all only: argument_ok_def Let_def json.case rbind_eq_Inr_iff ensure_Inr_iff r_def [symmetric]) blast+
  have "s = r \<or> s = str ''$TEMP/'' @ r" unfolding r_def by (rule temp_prefix)
  moreover have "list_all (\<lambda>p. p \<noteq> [] \<and> p \<noteq> str ''..'' \<and> p \<noteq> str ''.'' \<and> 47 \<notin> set p) (split_on 47 r)"
    using r(3) split_on_parts [of _ 47 r] by (auto simp: list_ex_iff list_all_iff)
  ultimately show ?thesis
    unfolding stays_below_def using JStr r(1,2) by blast
qed (use ok in \<open>simp_all add: argument_ok_def\<close>)

lemma plan_entryD:
  assumes "plan_entry u root role_ids t w = (Inr x, v)"
  shows "entry_sound role_ids t"
proof -
  from assms obtain content where e: "entry_fields role_ids t = Inr ()" "entry_arguments u content t = Inr ()"
    by (auto simp: plan_entry_def runs)
  from e(2) obtain a p args ys where a: "getitem t ''arguments'' = Inr a" "getitem t ''prepare_directories'' = Inr p"
    "iterate_sum a p = Inr args" "for_each argument_ok args = Inr ys" "getitem t ''result'' = Inr (JStr (str ''not-run''))"
    by (auto simp: entry_arguments_def equals_text_def)
  from iterate_sum_iff [OF a(3)] a(1,2) have "args = listed t ''arguments'' @ listed t ''prepare_directories''"
    by (auto simp: listed_def item_def)
  with a(4) have "list_all stays_below (listed t ''arguments'' @ listed t ''prepare_directories'')"
    by (auto simp: list_all_iff dest!: for_each_InrD argument_okD)
  moreover from e(1) have "\<exists>x. getitem t ''execution_owner'' = Inr x \<and> list_ex (same x) role_ids"
    by (auto simp: entry_fields_def among_def split: if_splits)
  ultimately show ?thesis using a(5) by (simp add: entry_sound_def has_text_def)
qed

section \<open>The plan\<close>

lemma each_Inr: "each f xs w = (Inr ys, v) \<Longrightarrow> list_all2 (\<lambda>x y. \<exists>w1 w2. f x w1 = (Inr y, w2)) xs ys"
  by (induction xs arbitrary: w ys) (auto simp: runs)

lemma validate_planD:
  assumes "validate_plan u depth root w = (Inr planned, v)"
  obtains plan w1 mains role_ids where
    "load_json depth (engineering_file root ''test-plan.json'') w = (Inr plan, w1)"
    "list_all2 (\<lambda>repo ms. \<exists>w2 w3. registered_mains root repo w2 = (Inr ms, w3)) REPOS mains"
    "distinct planned" "set planned = JStr ` set (concat mains)"
    "list_all2 (\<lambda>t m. getitem t ''main'' = Inr m) (listed plan ''ada_tests'') planned"
    "list_all (entry_sound role_ids) (listed plan ''ada_tests'')"
proof -
  from assms obtain plan w1 role_ids x ts mains w4 w5 us w6 where p:
    "load_json depth (engineering_file root ''test-plan.json'') w = (Inr plan, w1)"
    "getitem plan ''ada_tests'' = Inr x" "iterate x = Inr ts" "planned_mains ts = Inr planned"
    "each (registered_mains root) REPOS w4 = (Inr mains, w5)" "same_mains planned (concat mains) = Inr ()"
    "each (plan_entry u root role_ids) ts w5 = (Inr us, w6)"
    by (auto simp: validate_plan_def runs)
  have ts: "listed plan ''ada_tests'' = ts" using p(2,3) by (simp add: listed_def item_def)
  have "set planned = JStr ` set (concat mains)" using p(6) by (simp add: same_mains_def)
  moreover have "list_all (entry_sound role_ids) ts"
    using each_Inr [OF p(7)] by induction (auto dest: plan_entryD)
  ultimately show ?thesis
    using that [OF p(1) each_Inr [OF p(5)]] planned_mainsD [OF p(4)] unfolding ts by blast
qed

end
