(* ===== verification/Runner.thy ===== *)
theory Runner
  imports Guard Engineering_Files Sha256
begin

text \<open>
  \<open>clean_env\<close>, \<open>run_command\<close> and \<open>expand_test_args\<close> of \<open>ci/run-engineering-checks.py\<close>: one command in a session
  of its own, its output copied to a log of limited size, its process group killed while its leader is
  still there to be waited for. Times are integers in nanoseconds.
\<close>

section \<open>Calls\<close>

definition MAX_LOG :: nat where
  "MAX_LOG = 16 * 1024 * 1024"

text \<open>
  \<open>Observe\<close> is \<open>waitid\<close> with \<open>WNOWAIT\<close>, which leaves the process to be waited for; \<open>Await\<close> is
  \<open>Popen.wait(timeout=5)\<close>; \<open>Select\<close> is \<open>select(timeout=0.05)\<close> on the one output. \<open>Which\<close> is \<open>shutil.which\<close>,
  \<open>Make_temp\<close> is \<open>tempfile.mkdtemp\<close>; \<open>Put\<close> writes a JSON report, whose text is not modelled. \<open>Is_file\<close>, \<open>Read_all\<close>,
  \<open>Mode_of\<close>, \<open>Put_bytes\<close> and \<open>Chmod\<close> are the methods of \<open>Path\<close>; \<open>Make_dirs\<close> is \<open>mkdir\<close> with \<open>parents\<close> and
  \<open>exist_ok\<close>, without the permissions of the new directories.
\<close>

datatype rcall =
    Now
  | Pause int
  | Default_sigchld
  | Create_log pystr
  | Write_log bytes
  | Close_log
  | Log_there pystr
  | Spawn "pystr list" pystr "(pystr \<times> pystr) list"
  | New_selector
  | Watch_output
  | Select
  | Read_output int
  | Unwatch_output
  | Close_selector
  | Close_output
  | Observe int
  | Terminate_group int
  | Kill_group int
  | Await int
  | Make_dirs pystr
  | Which pystr pystr
  | Effective_user
  | Make_dir pystr
  | Make_temp pystr "pystr option"
  | Put pystr
  | Put_text pystr pystr
  | Is_file pystr
  | Read_all pystr
  | Mode_of pystr
  | Put_bytes pystr bytes
  | Chmod pystr nat
  | Remove_tree pystr
  | File call

datatype ranswer =
    Fault nat
  | Refused
  | Late
  | Okay
  | Count int
  | Yes_no bool
  | Data bytes
  | Name "pystr option"
  | Reply answer

type_synonym 'a run = "(rcall, ranswer, 'a) prog"

definition r_call :: "rcall \<Rightarrow> (ranswer \<Rightarrow> 'a res) \<Rightarrow> 'a run" where
  "r_call c f w =
     (case answer_of c w of
        Fault n \<Rightarrow> Inl (os_error n)
      | Refused \<Rightarrow> Inl ValueError
      | Late \<Rightarrow> Inl TimeoutExpired
      | r \<Rightarrow> f r, logged c w)"

definition r_unit :: "rcall \<Rightarrow> unit run" where
  "r_unit c = r_call c (\<lambda>_. Inr ())"

definition r_int :: "rcall \<Rightarrow> int run" where
  "r_int c = r_call c (\<lambda>r. case r of Count i \<Rightarrow> Inr i | _ \<Rightarrow> Inl (OSError 0))"

definition r_bool :: "rcall \<Rightarrow> bool run" where
  "r_bool c = r_call c (\<lambda>r. case r of Yes_no b \<Rightarrow> Inr b | _ \<Rightarrow> Inl (OSError 0))"

text \<open>A read returns at most what was asked for.\<close>

definition read_output :: "bytes run" where
  "read_output = r_call (Read_output 65536) (\<lambda>r. case r of Data b \<Rightarrow> Inr (take 65536 b) | _ \<Rightarrow> Inl (OSError 0))"

text \<open>Time does not go back; a pause lasts at least as long as asked, a \<open>select\<close> that finds nothing its time limit.\<close>

definition clock_now :: "int run" where
  "clock_now w =
     (let t = (case answer_of Now w of Count i \<Rightarrow> max i (w_time w) | _ \<Rightarrow> w_time w)
      in (Inr t, (logged Now w)\<lparr>w_time := t\<rparr>))"

definition pause :: "int \<Rightarrow> unit run" where
  "pause d w =
     (let late = (case answer_of (Pause d) w of Count i \<Rightarrow> max i 0 | _ \<Rightarrow> 0)
      in (Inr (), (logged (Pause d) w)\<lparr>w_time := w_time w + d + late\<rparr>))"

definition select_output :: "bool run" where
  "select_output w =
     (case answer_of Select w of
        Fault n \<Rightarrow> (Inl (os_error n), logged Select w)
      | Yes_no True \<Rightarrow> (Inr True, logged Select w)
      | r \<Rightarrow> (Inr False, (logged Select w)\<lparr>w_time := w_time w + 50000000 + (case r of Count i \<Rightarrow> max i 0 | _ \<Rightarrow> 0)\<rparr>))"

text \<open>A program on files, among the calls of the runner.\<close>

definition as_reply :: "ranswer \<Rightarrow> answer" where
  "as_reply r = (case r of Reply a \<Rightarrow> a | Fault n \<Rightarrow> Fails n | _ \<Rightarrow> Fails 0)"

definition on_files :: "'a io \<Rightarrow> 'a run" where
  "on_files m w =
     (let (r, v) = m \<lparr>w_os = (\<lambda>l c. as_reply (w_os w (w_log w @ map (\<lambda>(c, a). (File c, Reply a)) l) (File c))),
                      w_log = [], w_fds = w_fds w, w_cwd = w_cwd w, w_time = w_time w\<rparr>
      in (r, w\<lparr>w_log := w_log w @ map (\<lambda>(c, a). (File c, Reply a)) (w_log v), w_fds := w_fds v\<rparr>))"

section \<open>The record of a run\<close>

datatype run_result = Unrun | Pass | Fail | Timed_out

datatype run_reason =
    Unavailable
  | Time_limit
  | Log_size_limit
  | Reaper_lost
  | Not_reaped
  | Os_error nat
  | Cleanup_incomplete

text \<open>\<open>record\<close> and the local variables that the handlers and the \<open>finally\<close> clause read.\<close>

record running =
  t_result :: run_result
  t_reason :: "run_reason option"
  t_code :: "int option"
  t_reaped :: bool
  t_bytes :: "nat option"
  t_child :: "int option"
  t_owned :: bool
  t_selector :: bool
  t_watching :: bool
  t_total :: nat

definition fresh_run :: running where
  "fresh_run = \<lparr>t_result = Unrun, t_reason = None, t_code = None, t_reaped = False, t_bytes = None, t_child = None,
     t_owned = False, t_selector = False, t_watching = False, t_total = 0\<rparr>"

record run_record =
  u_argv :: "pystr list"
  u_cwd :: pystr
  u_result :: run_result
  u_reason :: "run_reason option"
  u_code :: "int option"
  u_reaped :: bool
  u_bytes :: "nat option"
  u_seconds :: int
  u_sha256 :: "pystr option"

section \<open>run_command\<close>

definition stop_group :: "int \<Rightarrow> int \<Rightarrow> unit run" where
  "stop_group grace child =
     seq (if grace = 0 then ret ()
          else seq (catch no_process (r_unit (Terminate_group child)) (\<lambda>_. ret ())) (\<lambda>_. pause grace)) (\<lambda>_.
     catch no_process (r_unit (Kill_group child)) (\<lambda>_. ret ()))"

lemma now_time: "clock_now w = (r, v) \<Longrightarrow> r = Inr (w_time v) \<and> w_time w \<le> w_time v"
  by (auto simp: clock_now_def Let_def split: ranswer.splits)

lemma pause_time: "pause d w = (r, v) \<Longrightarrow> r = Inr () \<and> w_time w + d \<le> w_time v"
  by (auto simp: pause_def Let_def split: ranswer.splits)

lemma select_time: "select_output w = (Inr b, v) \<Longrightarrow> w_time w + (if b then 0 else 50000000) \<le> w_time v"
  by (auto simp: select_output_def logged_def split: ranswer.splits bool.splits)

lemma r_call_time: "r_call c f w = (r, v) \<Longrightarrow> w_time v = w_time w"
  by (auto simp: r_call_def logged_def)

lemma log_room: "b \<noteq> [] \<Longrightarrow> \<not> m - n < length b \<Longrightarrow> m - (n + length b) < m - n"
  by (cases b) auto

text \<open>The loop that copies the output, until the process has ended and its output was read to the end.\<close>

function collect :: "int \<Rightarrow> int \<Rightarrow> int \<Rightarrow> running \<Rightarrow> (running \<times> status) run" where
  "collect timeout start child s w =
     under s (r_bool (Observe child)) (\<lambda>observed.
     branch (observed \<and> \<not> t_watching s) (ret (s, Finished))
       (under s clock_now (\<lambda>t.
        branch (timeout < t - start)
          (ret (s\<lparr>t_result := Timed_out, t_reason := Some Time_limit\<rparr>, Finished))
          (branch (t_watching s)
            (under s select_output (\<lambda>ready.
             branch ready
               (under s read_output (\<lambda>block.
                branch (block = [])
                  (under s (r_unit Unwatch_output) (\<lambda>_. collect timeout start child (s\<lparr>t_watching := False\<rparr>)))
                  (under s (r_unit (Write_log (take (MAX_LOG - t_total s) block))) (\<lambda>_.
                   branch (MAX_LOG - t_total s < length block)
                     (ret (s\<lparr>t_total := MAX_LOG, t_result := Fail, t_reason := Some Log_size_limit\<rparr>, Finished))
                     (collect timeout start child (s\<lparr>t_total := t_total s + length block\<rparr>))))))
               (collect timeout start child s)))
            (under s (pause 10000000) (\<lambda>_. collect timeout start child s)))))) w"
  by pat_completeness auto
termination
  by (relation "measures [\<lambda>(timeout, start, child, s, w). if t_watching s then 1 else 0,
      \<lambda>(timeout, start, child, s, w). MAX_LOG - t_total s, \<lambda>(timeout, start, child, s, w). nat (start + timeout + 1 - w_time w)]")
    (auto dest!: now_time pause_time select_time r_call_time simp: r_bool_def r_unit_def read_output_def log_room)

declare collect.simps [simp del]

text \<open>What follows the start of the process, up to the result.\<close>

definition wait_result :: "int \<Rightarrow> int \<Rightarrow> running \<Rightarrow> (running \<times> status) run" where
  "wait_result grace child s =
     under s (r_unit Close_selector) (\<lambda>_.
     let s = s\<lparr>t_selector := False\<rparr> in
     under s (stop_group grace child) (\<lambda>_.
     under s (r_int (Await child)) (\<lambda>rc.
     ret (s\<lparr>t_owned := False, t_code := Some rc, t_reaped := True, t_bytes := Some (t_total s),
            t_result := (if t_result s = Unrun then if rc = 0 then Pass else Fail else t_result s)\<rparr>, Finished))))"

definition attend :: "int \<Rightarrow> int \<Rightarrow> int \<Rightarrow> int \<Rightarrow> running \<Rightarrow> (running \<times> status) run" where
  "attend timeout grace start child s =
     under s (r_unit New_selector) (\<lambda>_.
     let s = s\<lparr>t_selector := True\<rparr> in
     under s (r_unit Watch_output) (\<lambda>_.
     go_on (collect timeout start child (s\<lparr>t_watching := True\<rparr>)) (wait_result grace child)))"

definition not_found :: "exn \<Rightarrow> bool" where
  "not_found e \<longleftrightarrow> e = OSError 2"

definition with_child :: "int \<Rightarrow> int \<Rightarrow> int \<Rightarrow> pystr list \<Rightarrow> pystr \<Rightarrow> (pystr \<times> pystr) list \<Rightarrow> running \<Rightarrow> (running \<times> status) run" where
  "with_child timeout grace start argv cwd env s =
     under s (attempt not_found (r_int (Spawn argv cwd env))) (\<lambda>r.
     case r of
       Inl _ \<Rightarrow> ret (s\<lparr>t_reason := Some Unavailable\<rparr>, Finished)
     | Inr child \<Rightarrow> attend timeout grace start child (s\<lparr>t_child := Some child, t_owned := True\<rparr>))"

text \<open>\<open>with log.open('xb') as out: body\<close>\<close>

definition with_log :: "pystr \<Rightarrow> (running \<Rightarrow> (running \<times> status) run) \<Rightarrow> running \<Rightarrow> (running \<times> status) run" where
  "with_log log body s =
     under s (r_unit (Create_log log)) (\<lambda>_.
     seq (body s) (\<lambda>(s, st). under s (r_unit Close_log) (\<lambda>_. ret (s, st))))"

definition attempted_run ::
  "int \<Rightarrow> int \<Rightarrow> int \<Rightarrow> pystr list \<Rightarrow> pystr \<Rightarrow> (pystr \<times> pystr) list \<Rightarrow> pystr \<Rightarrow> (running \<times> status) run" where
  "attempted_run timeout grace start argv cwd env log =
     under fresh_run (r_bool Default_sigchld) (\<lambda>default.
     if \<not> default then ret (fresh_run, Raised (Invalid ''test runner requires exclusive child ownership and default SIGCHLD''))
     else with_log log (with_child timeout grace start argv cwd env) fresh_run)"

text \<open>The handlers: \<open>ChildProcessError\<close>, \<open>TimeoutExpired\<close>, \<open>OSError\<close>.\<close>

fun errno_of :: "exn \<Rightarrow> nat" where
  "errno_of (OSError n) = n"
| "errno_of FileExistsError = 17"
| "errno_of _ = 0"

definition run_handled :: "running \<Rightarrow> status \<Rightarrow> running \<times> exn option" where
  "run_handled s st =
     (case st of
        Finished \<Rightarrow> (s, None)
      | Raised e \<Rightarrow>
          if is_no_child e then (s\<lparr>t_owned := False, t_result := Fail, t_reason := Some Reaper_lost\<rparr>, None)
          else if e = TimeoutExpired then (s\<lparr>t_result := Timed_out, t_reason := Some Not_reaped\<rparr>, None)
          else if is_os_error e then (s\<lparr>t_result := Fail, t_reason := Some (Os_error (errno_of e))\<rparr>, None)
          else (s, Some e))"

definition cleanup_caught :: "exn \<Rightarrow> bool" where
  "cleanup_caught e \<longleftrightarrow> is_os_error e \<or> e = TimeoutExpired"

text \<open>The part of the \<open>finally\<close> clause for a process that is still owned.\<close>

definition release :: "int \<Rightarrow> running \<Rightarrow> running run" where
  "release grace s =
     (case t_child s of
        None \<Rightarrow> ret s
      | Some child \<Rightarrow>
          if t_owned s then
            seq (attempt cleanup_caught (seq (r_bool (Observe child)) (\<lambda>_.
                 seq (stop_group grace child) (\<lambda>_. r_int (Await child))))) (\<lambda>r.
            ret (case r of Inr _ \<Rightarrow> s\<lparr>t_reaped := True\<rparr>
                         | Inl _ \<Rightarrow> s\<lparr>t_result := Fail, t_reason := Some Cleanup_incomplete\<rparr>))
          else ret s)"

definition log_digest :: "pystr \<Rightarrow> pystr option run" where
  "log_digest log =
     seq (r_bool (Log_there log)) (\<lambda>there.
     if there then seq (on_files (read_regular log (int MAX_LOG))) (\<lambda>b. ret (Some (sha b))) else ret None)"

definition conclude :: "int \<Rightarrow> int \<Rightarrow> pystr list \<Rightarrow> pystr \<Rightarrow> pystr \<Rightarrow> running \<Rightarrow> run_record run" where
  "conclude grace start argv cwd log s =
     seq (if t_selector s then r_unit Close_selector else ret ()) (\<lambda>_.
     seq (release grace s) (\<lambda>s.
     seq (if t_child s = None then ret () else r_unit Close_output) (\<lambda>_.
     seq clock_now (\<lambda>t.
     seq (log_digest log) (\<lambda>h.
     ret \<lparr>u_argv = argv, u_cwd = cwd, u_result = t_result s, u_reason = t_reason s, u_code = t_code s,
          u_reaped = t_reaped s, u_bytes = t_bytes s, u_seconds = t - start, u_sha256 = h\<rparr>)))))"

definition run_command ::
  "pystr list \<Rightarrow> pystr \<Rightarrow> pystr \<Rightarrow> (pystr \<times> pystr) list \<Rightarrow> int \<Rightarrow> int \<Rightarrow> run_record run" where
  "run_command argv cwd log env timeout grace =
     seq (check (0 \<le> grace \<and> grace \<le> 6 * SECOND) (Invalid ''termination grace must be 0..6 seconds'')) (\<lambda>_.
     seq clock_now (\<lambda>start.
     seq (attempted_run timeout grace start argv cwd env log) (\<lambda>(s, st).
     let (s, escaped) = run_handled s st in
     seq (conclude grace start argv cwd log s) (\<lambda>r.
     case escaped of None \<Rightarrow> ret r | Some e \<Rightarrow> raise e))))"

section \<open>clean_env and expand_test_args\<close>

text \<open>\<open>path\<close> is \<open>os.environ.get('PATH')\<close>.\<close>

definition clean_env :: "pystr option \<Rightarrow> pystr \<Rightarrow> (pystr \<times> pystr) list res" where
  "clean_env path home =
     (let p = (case path of None \<Rightarrow> str ''/usr/bin:/bin'' | Some p \<Rightarrow> p)
      in rbind (ensure (\<not> list_ex (\<lambda>x. x = [] \<or> take 1 x \<noteq> str ''/'') (split_on 58 p))
           (Invalid ''PATH must contain only nonempty absolute directories'')) (\<lambda>_.
         Inr [(str ''PATH'', p), (str ''HOME'', home), (str ''TMPDIR'', home), (str ''LANG'', str ''C.UTF-8''),
              (str ''LC_ALL'', str ''C.UTF-8''), (str ''PYTHONDONTWRITEBYTECODE'', str ''1''), (str ''PYTHONNOUSERSITE'', str ''1'')]))"

text \<open>\<open>v.startswith\<close> needs a string; \<open>temp / tail\<close> is written for a relative path.\<close>

definition text_value :: "json \<Rightarrow> pystr res" where
  "text_value v = (case v of JStr s \<Rightarrow> Inr s | _ \<Rightarrow> Inl AttributeError)"

definition in_temp :: "pystr \<Rightarrow> bool" where
  "in_temp v \<longleftrightarrow> take 6 v = str ''$TEMP/''"

definition expand_argument :: "pystr \<Rightarrow> pystr \<Rightarrow> pystr res" where
  "expand_argument temp v =
     (if in_temp v then
        let tail = drop 6 v
        in rbind (ensure (tail \<noteq> [] \<and> str ''..'' \<notin> set (pure_parts tail) \<and> take 1 tail \<noteq> str ''/'')
             (Invalid ''unsafe temporary test argument'')) (\<lambda>_.
           Inr (foldl slash temp (pure_parts tail)))
      else
        rbind (ensure (36 \<notin> set v \<and> take 1 v \<noteq> str ''/'' \<and> str ''..'' \<notin> set (pure_parts v))
          (Invalid ''unsupported test argument'')) (\<lambda>_.
        Inr v))"

text \<open>\<open>test.get('prepare_directories', [])\<close>\<close>

definition preparations :: "json \<Rightarrow> json res" where
  "preparations test =
     (case test of
        JObj kvs \<Rightarrow> Inr (case map_of kvs (str ''prepare_directories'') of None \<Rightarrow> JArr [] | Some v \<Rightarrow> v)
      | _ \<Rightarrow> Inl AttributeError)"

definition prepare_directory :: "pystr \<Rightarrow> json \<Rightarrow> unit run" where
  "prepare_directory temp v =
     seq (lift (text_value v)) (\<lambda>s.
     if in_temp s then seq (lift (expand_argument temp s)) (\<lambda>p. r_unit (Make_dirs p)) else ret ())"

definition expand_test_args :: "json \<Rightarrow> pystr \<Rightarrow> pystr list run" where
  "expand_test_args test temp =
     seq (lift (rbind (preparations test) iterate)) (\<lambda>vs.
     seq (each (prepare_directory temp) vs) (\<lambda>_.
     lift (rbind (item test ''arguments'' iterate) (\<lambda>vs.
       for_each (\<lambda>v. rbind (text_value v) (expand_argument temp)) vs))))"

end
