(* ===== verification/Source_Tree.thy ===== *)
theory Source_Tree
  imports Engineering_Files Sha256 "HOL-Library.Product_Lexorder"
begin

text \<open>
  \<open>regular_tree\<close> and \<open>source_subject\<close> of \<open>ci/engineering.py\<close>: the walk over the sources of all checkouts with
  \<open>os.walk\<close>, and the digest that stands for them. \<open>os.walk\<close> is that of Python 3.12 and later. A directory it cannot
  list is passed over in silence.
\<close>

section \<open>os.walk\<close>

text \<open>A path of \<open>PATH_MAX\<close> bytes or more is refused by the kernel, so a walk comes to an end.\<close>

definition PATH_MAX :: nat where
  "PATH_MAX = 4096"

definition EXCLUDED :: "string list" where
  "EXCLUDED = [''.git'', ''build'', ''evidence'', ''__pycache__'', ''.pytest_cache'']"

definition excluded :: "pystr \<Rightarrow> bool" where
  "excluded n \<longleftrightarrow> n \<in> str ` set EXCLUDED"

text \<open>A name in a directory, as \<open>os.scandir\<close> gives it.\<close>

definition entry_name :: "pystr \<Rightarrow> bool" where
  "entry_name n \<longleftrightarrow> n \<noteq> [] \<and> 47 \<notin> set n \<and> n \<noteq> str ''.'' \<and> n \<noteq> str ''..''"

text \<open>\<open>entry.is_dir()\<close> and \<open>os.path.islink\<close> inside \<open>os.walk\<close>: an error counts as no.\<close>

definition asked :: "call \<Rightarrow> bool io" where
  "asked c = seq (attempt is_os_error (sys_int c)) (\<lambda>r. ret (case r of Inl _ \<Rightarrow> False | Inr i \<Rightarrow> i \<noteq> 0))"

text \<open>The entries of a directory, each with whether it is one; \<open>None\<close> if they cannot be listed.\<close>

definition scan :: "pystr \<Rightarrow> (pystr \<times> bool) list option io" where
  "scan p =
     seq (check (encodable p) ValueError) (\<lambda>_.
     seq (attempt is_os_error (sys_names (Scandir p))) (\<lambda>r.
     case r of
       Inl _ \<Rightarrow> ret None
     | Inr ns \<Rightarrow>
         seq (each (\<lambda>n. seq (asked (Is_directory (slash p n))) (\<lambda>d. ret (n, d))) (filter entry_name ns)) (\<lambda>es.
         ret (Some es))))"

section \<open>regular_tree\<close>

definition subdirectories :: "(pystr \<times> bool) list \<Rightarrow> pystr list" where
  "subdirectories es = sort (filter (\<lambda>n. entry_name n \<and> \<not> excluded n) (map fst (filter snd es)))"

definition has_suffix :: "pystr \<Rightarrow> pystr \<Rightarrow> bool" where
  "has_suffix x s \<longleftrightarrow> length x \<le> length s \<and> drop (length s - length x) s = x"

definition plain_files :: "(pystr \<times> bool) list \<Rightarrow> pystr list" where
  "plain_files es =
     filter (\<lambda>n. \<not> excluded n \<and> \<not> has_suffix (str ''.pyc'') n) (sort (map fst (filter (\<lambda>e. \<not> snd e) es)))"

lemma each_cong [fundef_cong]: "xs = ys \<Longrightarrow> (\<And>x. x \<in> set ys \<Longrightarrow> f x = g x) \<Longrightarrow> each f xs = each g ys"
  by (induction xs arbitrary: ys) auto

lemma slash_longer: "entry_name n \<Longrightarrow> length p < length (slash p n)"
  by (auto simp: slash_def entry_name_def str_def)

lemma subdirectories_names: "d \<in> set (subdirectories es) \<Longrightarrow> entry_name d"
  by (auto simp: subdirectories_def)

text \<open>
  \<open>rel\<close> are the parts of the path below the root. The caller's \<open>f\<close> is what is done with a file when it is
  yielded, before the walk goes on.
\<close>

function os_walk :: "(pystr list \<Rightarrow> bytes \<Rightarrow> 'a res) \<Rightarrow> pystr list \<Rightarrow> pystr \<Rightarrow> 'a list io" where
  "os_walk f rel here =
     (if PATH_MAX \<le> length here then ret []
      else seq (scan here) (\<lambda>listing.
        case listing of
          None \<Rightarrow> ret []
        | Some es \<Rightarrow>
            seq (each (\<lambda>d. seq (is_symlink (slash here d)) (\<lambda>l. check (\<not> l) (Invalid ''directory link''))) (subdirectories es)) (\<lambda>_.
            seq (each (\<lambda>n. seq (read_regular (slash here n) READ_LIMIT) (\<lambda>b. lift (f (rel @ [n]) b))) (plain_files es)) (\<lambda>xs.
            seq (each (\<lambda>d. asked (Is_link (slash here d))) (rev (subdirectories es))) (\<lambda>linked.
            seq (each (\<lambda>d. os_walk f (rel @ [d]) (slash here d))
                   (map fst (filter (\<lambda>e. \<not> snd e) (zip (subdirectories es) (rev linked))))) (\<lambda>yss.
            ret (xs @ concat yss)))))))"
  by pat_completeness auto
termination
  by (relation "measure (\<lambda>(f, rel, here). PATH_MAX - length here)")
    (auto intro!: diff_less_mono2 slash_longer dest!: set_zip_leftD dest: subdirectories_names)

declare os_walk.simps [simp del]

definition regular_tree :: "(pystr list \<Rightarrow> bytes \<Rightarrow> 'a res) \<Rightarrow> pystr \<Rightarrow> 'a list io" where
  "regular_tree f root =
     seq (each (\<lambda>repo.
       let base = slash root (str repo) in
       seq (is_symlink base) (\<lambda>linked.
       seq (if linked then ret False else seq (sys_int (Is_directory base)) (\<lambda>i. ret (i \<noteq> 0))) (\<lambda>there.
       seq (check there (Invalid ''missing ordinary repository'')) (\<lambda>_.
       os_walk f [str repo] base)))) WORKTREES) (\<lambda>xss.
     ret (concat xss))"

section \<open>source_subject\<close>

text \<open>\<open>str.encode()\<close>: surrogates cannot be encoded.\<close>

definition utf8_char :: "nat \<Rightarrow> nat list" where
  "utf8_char c =
     (if c < 128 then [c]
      else if c < 2048 then [192 + c div 64, 128 + c mod 64]
      else if c < 65536 then [224 + c div 4096, 128 + c div 64 mod 64, 128 + c mod 64]
      else [240 + c div 262144, 128 + c div 4096 mod 64, 128 + c div 64 mod 64, 128 + c mod 64])"

definition scalar :: "nat \<Rightarrow> bool" where
  "scalar c \<longleftrightarrow> c < 0xD800 \<or> 0xDFFF < c \<and> c < 0x110000"

definition encode :: "pystr \<Rightarrow> bytes res" where
  "encode s = (if list_all scalar s then Inr (map of_nat (concat (map utf8_char s))) else Inl ValueError)"

definition posix :: "pystr list \<Rightarrow> pystr" where
  "posix parts = join_with 47 parts"

definition subject_lines :: "(pystr \<times> pystr) list \<Rightarrow> pystr" where
  "subject_lines files = concat (map (\<lambda>(n, h). h @ str ''  '' @ n @ [10]) (sort files))"

definition subject :: "(pystr \<times> pystr) list \<Rightarrow> pystr res" where
  "subject files =
     rbind (encode (subject_lines files)) (\<lambda>raw.
     Inr (sha (ascii_bytes (str ''MISSION-ENGINEERING-SOURCE-v1'' @ [10]) @ raw)))"

definition source_subject :: "pystr \<Rightarrow> pystr io" where
  "source_subject root =
     seq (regular_tree (\<lambda>rel b. Inr (posix rel, sha b)) root) (\<lambda>files. lift (subject files))"

end
