(* ===== verification/Inventory.thy ===== *)
theory Inventory
  imports Source_Tree Gpr Json
begin

text \<open>
  \<open>inventory\<close> and \<open>api_index\<close> of \<open>ci/engineering.py\<close>: the declarations that the lines of the Ada and C sources of all
  checkouts show to regular expressions, and the Markdown index made of them.
\<close>

section \<open>Expressions\<close>

definition any_word :: "unicode \<Rightarrow> string \<Rightarrow> regex" where
  "any_word u s = literal_any_case (u_variants u) (str s)"

definition ci_class :: "unicode \<Rightarrow> (nat \<Rightarrow> bool) \<Rightarrow> regex" where
  "ci_class u P = any_case (u_variants u) P"

definition optional :: "regex \<Rightarrow> regex" where
  "optional a = Alt a Nothing"

fun alts :: "regex list \<Rightarrow> regex" where
  "alts [] = Class (\<lambda>_. False)"
| "alts [a] = a"
| "alts (a # as) = Alt a (alts as)"

definition gap :: regex where
  "gap = some_of (Class is_space)"

definition is_letter :: "nat \<Rightarrow> bool" where
  "is_letter c \<longleftrightarrow> is_lower c \<or> is_upper c"

text \<open>\<open>[A-Za-z][A-Za-z0-9_.]*\<close>\<close>

definition ada_name :: "unicode \<Rightarrow> regex" where
  "ada_name u = Cat (ci_class u is_letter) (many (ci_class u (\<lambda>c. is_letter c \<or> is_digit c \<or> c = 95 \<or> c = 46)))"

definition c_declaration :: "unicode \<Rightarrow> regex" where
  "c_declaration u =
     cats [spaces, optional (Cat (any_word u ''static'') gap),
       alts [any_word u ''int'', any_word u ''void'', any_word u ''size_t'', any_word u ''uint64_t''], gap,
       Group 1 (Cat (ci_class u (\<lambda>c. is_letter c \<or> c = 95)) (many (ci_class u (\<lambda>c. is_letter c \<or> is_digit c \<or> c = 95)))),
       spaces, word ''('']"

definition ada_declaration :: "unicode \<Rightarrow> regex" where
  "ada_declaration u =
     cats [spaces, optional (Cat (any_word u ''overriding'') gap),
       alts [any_word u ''procedure'', any_word u ''function'',
         Cat (any_word u ''package'') (optional (Cat gap (any_word u ''body'')))], gap,
       Group 1 (ada_name u)]"

definition with_clause :: "unicode \<Rightarrow> regex" where
  "with_clause u = cats [Boundary (u_word u), any_word u ''with'', gap, Group 1 (ada_name u), spaces, word '';'']"

definition spark_off :: "unicode \<Rightarrow> regex" where
  "spark_off u = cats [any_word u ''SPARK_Mode'', spaces, word ''=>'', spaces, any_word u ''Off'']"

section \<open>Modules\<close>

record module =
  m_path :: pystr
  m_sha256 :: pystr
  m_repository :: pystr
  m_layer :: pystr
  m_boundary :: pystr
  m_symbols :: "(pystr \<times> nat) list"
  m_dependencies :: "pystr list"

text \<open>\<open>PurePath.suffix\<close>\<close>

definition suffix_of :: "pystr \<Rightarrow> pystr" where
  "suffix_of n =
     (let t = takeWhile (\<lambda>c. c \<noteq> 46) (rev n)
      in if 46 \<in> set n \<and> t \<noteq> [] \<and> length t + 1 < length n then 46 # rev t else [])"

definition is_module :: "pystr list \<Rightarrow> bool" where
  "is_module rel \<longleftrightarrow> length rel = 3 \<and> rel ! 1 \<in> str ` {''src'', ''runtime'', ''app''} \<and>
     suffix_of (last rel) \<in> str ` {''.ads'', ''.adb'', ''.c'', ''.h''}"

definition is_c :: "pystr list \<Rightarrow> bool" where
  "is_c rel \<longleftrightarrow> suffix_of (last rel) \<in> str ` {''.c'', ''.h''}"

text \<open>\<open>re.match\<close> on each line, with the number of the line.\<close>

definition declared :: "regex \<Rightarrow> pystr \<Rightarrow> pystr option" where
  "declared a line = (case matches a (at_start line) of [] \<Rightarrow> None | s # _ \<Rightarrow> group 1 s)"

definition symbols_of :: "regex \<Rightarrow> pystr \<Rightarrow> (pystr \<times> nat) list" where
  "symbols_of a text =
     concat (map (\<lambda>(n, line). case declared a line of None \<Rightarrow> [] | Some x \<Rightarrow> [(x, n)]) (enumerate 1 (split_lines [] text)))"

definition module_of :: "unicode \<Rightarrow> pystr list \<Rightarrow> bytes \<Rightarrow> module option res" where
  "module_of u rel raw =
     (if \<not> is_module rel then Inr None
      else rbind (decoded raw) (\<lambda>text.
        Inr (Some \<lparr>m_path = posix rel, m_sha256 = sha raw, m_repository = rel ! 0, m_layer = rel ! 1,
          m_boundary = (if is_c rel \<or> search (spark_off u) (at_start text) \<noteq> None
                        then str ''non-SPARK-or-boundary'' else str ''SPARK-intent-not-proof''),
          m_symbols = symbols_of (if is_c rel then c_declaration u else ada_declaration u) text,
          m_dependencies = (if is_c rel then [] else sort (remdups (findall (with_clause u) (at_start text))))\<rparr>)))"

section \<open>inventory\<close>

text \<open>The list under \<open>modules\<close>, and the dict as a JSON value.\<close>

definition modules_of :: "unicode \<Rightarrow> pystr \<Rightarrow> module list io" where
  "modules_of u root =
     seq (regular_tree (module_of u) root) (\<lambda>ms. ret (sort_key m_path (List.map_filter id ms)))"

definition symbol_json :: "pystr \<times> nat \<Rightarrow> json" where
  "symbol_json x = JObj [(str ''name'', JStr (fst x)), (str ''line'', JInt (int (snd x)))]"

definition module_json :: "module \<Rightarrow> json" where
  "module_json m = JObj
     [(str ''path'', JStr (m_path m)), (str ''sha256'', JStr (m_sha256 m)), (str ''repository'', JStr (m_repository m)),
      (str ''layer'', JStr (m_layer m)), (str ''verification_boundary'', JStr (m_boundary m)),
      (str ''symbols'', JArr (map symbol_json (m_symbols m))),
      (str ''with_dependencies'', JArr (map JStr (m_dependencies m))), (str ''semantic_analysis'', JBool False)]"

definition inventory_json :: "module list \<Rightarrow> json" where
  "inventory_json ms = JObj
     [(str ''format'', JInt 1), (str ''scope'', JStr (str ''canonical Ada and C src/runtime/app; vendor copies excluded'')),
      (str ''formal_proof'', JBool False), (str ''modules'', JArr (map module_json ms))]"

definition inventory_of :: "unicode \<Rightarrow> pystr \<Rightarrow> json io" where
  "inventory_of u root = seq (modules_of u root) (\<lambda>ms. ret (inventory_json ms))"

section \<open>api_index\<close>

text \<open>
  The head of the index, in Japanese: the title, the file it is made from and that it is a lexical index and no proof, what
  it lists, what the word intent means, and the columns file, layer and boundary, declarations with their lines.
\<close>

definition INDEX_HEAD :: "pystr list" where
  "INDEX_HEAD = [
    str ''# Canonical Ada/C API / '' @ [0x5883, 0x754C, 0x7D22, 0x5F15],
    [],
    [0x751F, 0x6210, 0x5143] @ str '': assurance/engineering/component-catalog.json'' @ [0x3002, 0x5B57, 0x53E5,
      0x7D22, 0x5F15, 0x3067, 0x3042, 0x308A, 0x3001, 0x610F, 0x5473, 0x89E3, 0x6790, 0x30FB, 0x8A3C,
      0x660E, 0x30FB, 0x5B8C, 0x5168, 0x306A, 0x5404] @ str ''API'' @ [0x4ED5, 0x69D8, 0x3067, 0x306F,
      0x3042, 0x308A, 0x307E, 0x305B, 0x3093, 0x3002],
    str ''src/runtime/app'' @ [0x306E, 0x5168] @ str ''canonical Ada/C'' @ [0x30D5, 0x30A1, 0x30A4, 0x30EB,
      0x3092, 0x5217, 0x6319, 0x3057, 0x307E, 0x3059, 0x3002] @ str ''vendor'' @ [0x91CD, 0x8907, 0x3068] @
      str ''tests'' @ [0x306F, 0x5225, 0x53F0, 0x5E33, 0x3067, 0x3059, 0x3002],
    str ''SPARK-intent'' @ [0x306F, 0x30BD, 0x30FC, 0x30B9, 0x4E0A, 0x306E, 0x610F, 0x56F3, 0x3067, 0x3042,
      0x308A, 0x3001, 0x672A, 0x6307, 0x5B9A, 0x30B3, 0x30FC, 0x30C9, 0x3084, 0x5916, 0x90E8, 0x4F9D,
      0x5B58, 0x307E, 0x3067, 0x8A3C, 0x660E, 0x6E08, 0x307F, 0x3068, 0x306F, 0x6271, 0x3044, 0x307E,
      0x305B, 0x3093, 0x3002],
    [],
    str ''|'' @ [0x30D5, 0x30A1, 0x30A4, 0x30EB] @ str ''|'' @ [0x5C64] @ str '' / '' @ [0x691C, 0x8A3C, 0x5883,
      0x754C] @ str ''|'' @ [0x5BA3, 0x8A00] @ str ''/'' @ [0x5B9A, 0x7FA9, 0xFF08, 0x884C, 0xFF09] @ str
      ''|'',
    str ''|---|---|---|'']"

definition joined :: "pystr \<Rightarrow> pystr list \<Rightarrow> pystr" where
  "joined sep xs = (case xs of [] \<Rightarrow> [] | x # xs \<Rightarrow> x @ concat (map (\<lambda>y. sep @ y) xs))"

text \<open>A module without declarations says so.\<close>

definition index_line :: "module \<Rightarrow> pystr" where
  "index_line m =
     (let symbols = joined (str ''<br>'') (map (\<lambda>(x, n). x @ str '':'' @ dec_nat n) (m_symbols m))
      in str ''|['' @ m_path m @ str ''](../../../'' @ m_path m @ str '')|'' @ m_layer m @ str '' / '' @ m_boundary m @ str ''|'' @
         (if symbols = [] then str ''('' @ [0x5B57, 0x53E5, 0x62BD, 0x51FA, 0x5BFE, 0x8C61, 0x306A, 0x3057] @ str '')'' else symbols) @ str ''|'')"

definition api_index :: "module list \<Rightarrow> pystr" where
  "api_index ms = joined [10] (INDEX_HEAD @ map index_line ms) @ [10]"

end
