(* ===== verification/Validate.thy ===== *)
theory Validate
  imports Test_Plan Inventory
begin

text \<open>
  The whole of \<open>validate\<close> of \<open>ci/engineering.py\<close>: the registers, the catalog of components against the sources, the test
  plan, and the digest of the sources that were checked.
\<close>

section \<open>Equality of JSON values\<close>

text \<open>
  Python's \<open>==\<close> on what \<open>json.loads\<close> returns: lists element by element, dicts without regard to the order of their keys,
  numbers by value.
\<close>

function (sequential) same_value :: "json \<Rightarrow> json \<Rightarrow> bool" where
  "same_value (JArr xs) (JArr ys) \<longleftrightarrow> length xs = length ys \<and> list_all (\<lambda>(x, y). same_value x y) (zip xs ys)"
| "same_value (JObj kvs) (JObj kvs') \<longleftrightarrow> length kvs = length kvs' \<and>
     list_all (\<lambda>(k, v). case map_of kvs' k of None \<Rightarrow> False | Some v' \<Rightarrow> same_value v v') kvs"
| "same_value (JArr _) _ \<longleftrightarrow> False"
| "same_value (JObj _) _ \<longleftrightarrow> False"
| "same_value i j \<longleftrightarrow> same i j"
  by pat_completeness auto
termination
  by (relation "measure (\<lambda>(i, j). size i)")
    (auto simp: less_Suc_eq_le dest!: set_zip_leftD intro: size_list_estimation' [where f = size] size_list_estimation' [where f = "size_prod (\<lambda>x. 0) size"])

section \<open>The catalog\<close>

definition catalog :: "unicode \<Rightarrow> nat \<Rightarrow> pystr \<Rightarrow> module list io" where
  "catalog u depth root =
     seq (load_json depth (engineering_file root ''component-catalog.json'')) (\<lambda>saved.
     seq (modules_of u root) (\<lambda>actual.
     seq (read_regular (slash root (str ''assurance/docs/engineering/api-index.ja.md'')) READ_LIMIT) (\<lambda>b.
     seq (lift (decoded b)) (\<lambda>index.
     seq (check (index = api_index actual) (Invalid ''API index stale'')) (\<lambda>_.
     seq (check (same_value saved (inventory_json actual)) (Invalid ''component inventory stale'')) (\<lambda>_.
     ret actual))))))"

section \<open>validate\<close>

text \<open>What varies in the report.\<close>

record validated =
  v_requirements :: nat
  v_decisions :: nat
  v_hazards :: nat
  v_fault_cases :: nat
  v_modules :: nat
  v_tests :: nat
  v_subject :: pystr

definition validate :: "unicode \<Rightarrow> nat \<Rightarrow> pystr \<Rightarrow> validated io" where
  "validate u depth root =
     seq (validate_registers u depth root) (\<lambda>r.
     seq (catalog u depth root) (\<lambda>ms.
     seq (validate_plan u depth root) (\<lambda>planned.
     seq (source_subject root) (\<lambda>s.
     ret \<lparr>v_requirements = length (g_requirements r), v_decisions = length (g_adrs r), v_hazards = length (g_hazards r),
          v_fault_cases = length (g_cases r), v_modules = length ms, v_tests = length planned, v_subject = s\<rparr>))))"

end
