(* ===== verification/Check_Runner.thy ===== *)
theory Check_Runner
  imports Runner Validate
begin

text \<open>
  \<open>main\<close> of \<open>ci/run-engineering-checks.py\<close>: the checks of the sources, and then the builds and registered Ada tests, or
  the proofs. It runs one command after the other with \<open>run_command\<close> and keeps a record of each. The arguments come
  parsed, the root resolved; the texts of the JSON reports are not modelled.
\<close>

section \<open>State\<close>

datatype mode = Source | Build | Proof

record settings =
  y_mode :: mode
  y_host :: bool
  y_timeout :: int
  y_python :: pystr
  y_path :: "pystr option"
  y_root :: pystr
  y_output :: pystr
  y_temporary :: pystr
  y_env :: "(pystr \<times> pystr) list"

text \<open>A command to run, and the record of a check.\<close>

record step =
  p_name :: pystr
  p_argv :: "pystr list"
  p_cwd :: pystr
  p_layer :: pystr

record checked =
  k_name :: pystr
  k_layer :: pystr
  k_result :: run_result
  k_run :: "run_record option"

datatype ada_execution = Ada_not_run | Ada_requested | Ada_all_pass

datatype formal_proof = Proof_not_run | Proof_passed | Proof_incomplete

text \<open>\<open>report\<close>, with the list \<open>checks\<close>.\<close>

record session =
  z_checks :: "checked list"
  z_ada :: ada_execution
  z_proof :: formal_proof
  z_before :: "pystr option"
  z_verdict :: "validated option"
  z_after :: "pystr option"
  z_error :: "exn option"

definition fresh_session :: session where
  "fresh_session = \<lparr>z_checks = [], z_ada = Ada_not_run, z_proof = Proof_not_run, z_before = None, z_verdict = None,
     z_after = None, z_error = None\<rparr>"

type_synonym staged = "(session \<times> status) run"

definition pass :: "checked \<Rightarrow> bool" where
  "pass k \<longleftrightarrow> k_result k = Pass"

definition noted :: "checked \<Rightarrow> session \<Rightarrow> session" where
  "noted k s = s\<lparr>z_checks := z_checks s @ [k]\<rparr>"

text \<open>An entry for something that was not run, and whether the last entry is a pass.\<close>

definition skipped :: "pystr \<Rightarrow> pystr \<Rightarrow> checked" where
  "skipped name layer = \<lparr>k_name = name, k_layer = layer, k_result = Unrun, k_run = None\<rparr>"

definition last_passed :: "session \<Rightarrow> bool" where
  "last_passed s \<longleftrightarrow> z_checks s \<noteq> [] \<and> pass (last (z_checks s))"

section \<open>invoke\<close>

definition which :: "settings \<Rightarrow> pystr \<Rightarrow> pystr option run" where
  "which c name =
     r_call (Which name (case map_of (y_env c) (str ''PATH'') of None \<Rightarrow> [] | Some p \<Rightarrow> p))
       (\<lambda>r. case r of Name p \<Rightarrow> Inr p | _ \<Rightarrow> Inr None)"

definition invoke :: "settings \<Rightarrow> step \<Rightarrow> session \<Rightarrow> staged" where
  "invoke c p s =
     under s (run_command (p_argv p) (p_cwd p) (slash (y_output c) (p_name p @ str ''.log'')) (y_env c) (y_timeout c * SECOND)
                (if p_layer p = str ''proof'' then 6 * SECOND else 0)) (\<lambda>r.
     ret (noted \<lparr>k_name = p_name p, k_layer = p_layer p, k_result = u_result r, k_run = Some r\<rparr> s, Finished))"

text \<open>All of them, whatever their results; and one after the other until one does not pass.\<close>

fun invoke_all :: "settings \<Rightarrow> step list \<Rightarrow> session \<Rightarrow> staged" where
  "invoke_all c [] s = ret (s, Finished)"
| "invoke_all c (p # ps) s = go_on (invoke c p s) (invoke_all c ps)"

fun invoke_while :: "settings \<Rightarrow> step list \<Rightarrow> (session \<Rightarrow> staged) \<Rightarrow> session \<Rightarrow> staged" where
  "invoke_while c [] k s = k s"
| "invoke_while c (p # ps) k s =
     go_on (invoke c p s) (\<lambda>s. if last_passed s then invoke_while c ps k s else ret (s, Finished))"

text \<open>Commands whose arguments are evaluated just before they are run.\<close>

fun invoke_each :: "settings \<Rightarrow> step res list \<Rightarrow> session \<Rightarrow> staged" where
  "invoke_each c [] s = ret (s, Finished)"
| "invoke_each c (p # ps) s = under s (lift p) (\<lambda>p. go_on (invoke c p s) (invoke_each c ps))"

section \<open>The checks of the sources\<close>

definition a_step :: "settings \<Rightarrow> string \<Rightarrow> pystr list \<Rightarrow> string \<Rightarrow> string \<Rightarrow> step" where
  "a_step c name argv cwd layer =
     \<lparr>p_name = str name, p_argv = argv, p_cwd = (if cwd = [] then y_root c else slash (y_root c) (str cwd)), p_layer = str layer\<rparr>"

definition python :: "settings \<Rightarrow> string list \<Rightarrow> pystr list" where
  "python c args = y_python c # map str args"

definition unittests :: "settings \<Rightarrow> string \<Rightarrow> pystr list" where
  "unittests c dir = python c [''-B'', ''-m'', ''unittest'', ''discover'', ''-s'', dir, ''-p'', ''test_*.py'', ''-v'']"

definition source_steps :: "settings \<Rightarrow> step list" where
  "source_steps c =
     [a_step c ''engineering-unittests'' (unittests c ''assurance/tests/engineering'') [] ''source-and-reference'',
      a_step c ''component-ci-generated'' (python c [''-B'', ''assurance/ci/sync-component-ci.py'']) [] ''source'',
      a_step c ''manager-reference-tests'' (unittests c ''controlcore/tests/reference'') [] ''source-and-reference'',
      a_step c ''configuration-reference-tests'' (unittests c ''configcore/tests'') [] ''reference-and-limited-native-probe'',
      a_step c ''resolution-reference-tests'' (unittests c ''resolvercore/tests'') [] ''reference-and-untrusted-proposal-tool-tests'',
      a_step c ''cohort-recovery-tests'' (unittests c ''assurance/tests_py'') [] ''actual-nonprivileged-cryptography-and-io'',
      a_step c ''capsule-policy-tree-tests'' (unittests c ''capsulecore/tests_py'') [] ''reference-and-actual-candidate-tree-io'',
      a_step c ''resolver-source-profile'' (python c [''ci/profile.py'']) ''resolvercore'' ''source'',
      a_step c ''resolver-neutral-boundary'' (python c [''ci/check-neutral.py'']) ''resolvercore'' ''source'',
      a_step c ''native-resolver-lock'' (python c [''ci/check-resolver.py'']) ''pkgcore'' ''source'',
      a_step c ''distribution-tool-tests'' (unittests c ''distribution/tests'') [] ''actual-build-tool-tests'',
      a_step c ''nia-product-audit'' (python c [''-B'', ''assurance/ci/nia-product-audit.py'']) [] ''source-product-coherence'',
      a_step c ''unified-architecture-audit'' (python c [''-B'', ''assurance/ci/unified-audit.py'']) [] ''source'',
      a_step c ''syntax-and-doc-links'' (python c [''-B'', ''assurance/ci/engineering.py'', ''lint'']) [] ''source'']
     @ map (\<lambda>repo. a_step c (repo @ ''-contract'') (map str [''/bin/sh'', ''ci/check-contract.sh'']) repo ''source'') REPOS
     @ [a_step c ''manager-implementation-profile'' (python c [''ci/manager-profile.py'']) ''controlcore'' ''source'']"

text \<open>Programs on files, among the calls of the runner.\<close>

definition source_checks :: "settings \<Rightarrow> session \<Rightarrow> staged" where
  "source_checks c s =
     go_on (invoke_all c (source_steps c) s) (\<lambda>s'.
     under s' (check (list_all pass (drop (length (z_checks s)) (z_checks s'))) (Invalid ''source checks failed; build/proof not attempted''))
       (\<lambda>_. ret (s', Finished)))"

text \<open>\<open>gprbuild --version\<close> and \<open>gnatprove --version\<close>, where they are installed.\<close>

fun tool_versions :: "settings \<Rightarrow> string list \<Rightarrow> session \<Rightarrow> staged" where
  "tool_versions c [] s = ret (s, Finished)"
| "tool_versions c (tool # tools) s =
     under s (which c (str tool)) (\<lambda>p.
     go_on (if p = None then ret (s, Finished)
            else invoke c (a_step c (tool @ ''-version'') (map str [tool, ''--version'']) [] ''tool-identification'') s)
       (tool_versions c tools))"

section \<open>Builds and registered tests\<close>

text \<open>\<open>PurePath(main).stem\<close>\<close>

definition stem_of :: "pystr \<Rightarrow> pystr" where
  "stem_of p =
     (let n = (if pure_parts p = [] then [] else last (pure_parts p))
      in take (length n - length (suffix_of n)) n)"

text \<open>Checks of what two of the tests of \<open>pkgcore\<close> left behind; \<open>args[i]\<close> raises \<open>IndexError\<close>.\<close>

definition argument :: "pystr list \<Rightarrow> nat \<Rightarrow> pystr res" where
  "argument args i = (if i < length args then Inr (args ! i) else Inl IndexError)"

definition in_root :: "settings \<Rightarrow> string \<Rightarrow> pystr" where
  "in_root c p = slash (y_root c) (str p)"

definition in_output :: "settings \<Rightarrow> pystr \<Rightarrow> pystr" where
  "in_output c p = slash (y_output c) p"

definition examination :: "settings \<Rightarrow> string \<Rightarrow> string \<Rightarrow> pystr list \<Rightarrow> string \<Rightarrow> step" where
  "examination c name script args layer = a_step c name ([y_python c, str ''-B'', in_root c script] @ args) [] layer"

definition examinations :: "settings \<Rightarrow> pystr \<Rightarrow> pystr list \<Rightarrow> step res list" where
  "examinations c stem args =
     (let log_of = [str ''--native'', in_output c (str ''pkgcore-'' @ stem @ str ''.log'')] in
      if stem = str ''run_conffile_observation_tests'' then
        [rbind (argument args 0) (\<lambda>cas. Inr (examination c ''configuration-retained-attributes-oracle'' ''pkgcore/tests/check_configuration_entry.py''
           (log_of @ [str ''--cas'', cas, str ''--output'', in_output c (str ''configuration-entry-oracle''),
            str ''--driver'', in_root c ''pkgcore/build/test-bin/run_deb_payload_tests'']) ''actual-configuration-retained-attributes''))]
      else if stem = str ''run_root_configuration_tests'' then
        [rbind (argument args 0) (\<lambda>cas. Inr (examination c ''configured-root-originals-and-retention-oracle'' ''pkgcore/tests/check_configured_root.py''
           (log_of @ [str ''--cas'', cas, str ''--output'', in_output c (str ''configured-root-oracle'')])
           ''actual-configured-root-and-retention'')),
         rbind (argument args 0) (\<lambda>cas. rbind (argument args 1) (\<lambda>root.
           Inr (examination c ''configured-root-current-observation-oracle'' ''pkgcore/tests/check_configured_root_current.py''
           (log_of @ [str ''--cas'', cas, str ''--root'', root, str ''--driver'', in_root c ''pkgcore/build/test-bin/run_root_configuration_tests'',
            str ''--output'', in_output c (str ''configured-current-oracle'')]) ''actual-configured-root-current-observation''))),
         rbind (argument args 0) (\<lambda>cas. Inr (examination c ''configured-root-saved-record-oracle'' ''pkgcore/tests/check_configured_root_record.py''
           (log_of @ [str ''--cas'', cas, str ''--driver'', in_root c ''pkgcore/build/test-bin/run_root_configuration_tests'',
            str ''--output'', in_output c (str ''configured-record-oracle'')]) ''actual-configured-root-saved-references''))]
      else if stem = str ''run_root_archive_tests'' then
        [rbind (argument args 0) (\<lambda>cas. Inr (examination c ''root-archive-original-span-oracle'' ''pkgcore/tests/compare_root_archive.py''
           ([str ''--media'', in_root c ''pkgcore/tests/fixtures/root-archive''] @ log_of @
            [str ''--cas'', cas, str ''--output'', in_output c (str ''root-archive-oracle.json'')]) ''actual-root-archive-original-spans'')),
         rbind (argument args 0) (\<lambda>cas. Inr (examination c ''root-directory-order-oracle'' ''pkgcore/tests/compare_root_order.py''
           ([str ''--media'', in_root c ''pkgcore/tests/fixtures/root-archive/order''] @ log_of @
            [str ''--cas'', cas, str ''--output'', in_output c (str ''root-order-oracle'')]) ''actual-root-directory-order''))]
      else [])"

definition publications :: "settings \<Rightarrow> step list" where
  "publications c =
     [examination c ''root-archive-publication'' ''pkgcore/tests/check_root_publication.py''
        [str ''--driver'', in_root c ''pkgcore/build/test-bin/run_generation_publication_tests''] ''actual-root-archive-publication'',
      examination c ''configured-publication'' ''pkgcore/tests/check_configured_publication.py''
        [str ''--driver'', in_root c ''pkgcore/build/test-bin/run_generation_publication_tests''] ''actual-configured-publication'',
      examination c ''archive-receipt-native-bridge'' ''distribution/native/check_archive_receipt_bridge.py''
        [str ''--driver'', in_root c ''pkgcore/build/test-bin/run_archive_supply_tests''] ''actual-supply-and-native-cas'',
      examination c ''supply-map-native-bridge'' ''distribution/native/check_supply_map_bridge.py''
        [str ''--driver'', in_root c ''pkgcore/build/test-bin/run_supply_map_tests''] ''actual-supply-and-native-map'']"

text \<open>One test of the plan, in its own temporary directory.\<close>

definition make_temp :: "pystr \<Rightarrow> pystr option \<Rightarrow> pystr run" where
  "make_temp prefix dir = r_call (Make_temp prefix dir) (\<lambda>r. case r of Name (Some p) \<Rightarrow> Inr p | _ \<Rightarrow> Inl (OSError 0))"

definition test_step :: "settings \<Rightarrow> string \<Rightarrow> pystr \<Rightarrow> pystr \<Rightarrow> pystr list \<Rightarrow> step" where
  "test_step c repo stem tier args =
     \<lparr>p_name = str repo @ str ''-'' @ stem, p_argv = slash (slash (in_root c repo) (str ''build/test-bin'')) stem # args,
      p_cwd = in_root c repo, p_layer = str ''ada-'' @ tier\<rparr>"

definition run_test :: "settings \<Rightarrow> string \<Rightarrow> json \<Rightarrow> session \<Rightarrow> staged" where
  "run_test c repo test s =
     under s (lift (rbind (getitem test ''main'') text_value)) (\<lambda>main.
     if take (length repo + 1) main \<noteq> str (repo @ ''/'') then ret (s, Finished)
     else
       let stem = stem_of main in
       under s (lift (getitem test ''tier'')) (\<lambda>tier.
       if equals_text tier ''host-read-only'' \<and> \<not> y_host c then
         ret (noted (skipped stem (str ''ada-host-observation'')) s, Finished)
       else
         under s (make_temp (stem @ str ''-'') (Some (y_temporary c))) (\<lambda>place.
         under s (expand_test_args test place) (\<lambda>args.
         under s (lift (as_text tier)) (\<lambda>tier.
         go_on (invoke c (test_step c repo stem tier args) s)
           (invoke_each c (if repo = ''pkgcore'' then examinations c stem args else [])))))))"

fun run_tests :: "settings \<Rightarrow> string \<Rightarrow> json list \<Rightarrow> session \<Rightarrow> staged" where
  "run_tests c repo [] s = ret (s, Finished)"
| "run_tests c repo (t # ts) s = go_on (run_test c repo t s) (run_tests c repo ts)"

definition build_steps :: "settings \<Rightarrow> string \<Rightarrow> step list" where
  "build_steps c repo =
     [a_step c (repo @ ''-compile-all'') (map str [''make'', ''compile-all'']) repo ''ada-build'',
      a_step c (repo @ ''-application-links'') (map str [''make'', ''build'']) repo ''ada-build'',
      a_step c (repo @ ''-tests-build'') (map str [''make'', ''test-build'']) repo ''ada-build'']"

definition built_tests :: "settings \<Rightarrow> nat \<Rightarrow> string \<Rightarrow> session \<Rightarrow> staged" where
  "built_tests c depth repo s =
     under s (on_files (load_json depth (engineering_file (y_root c) ''test-plan.json''))) (\<lambda>plan.
     under s (lift (item plan ''ada_tests'' iterate)) (\<lambda>tests.
     go_on (run_tests c repo tests s) (invoke_all c (if repo = ''pkgcore'' then publications c else []))))"

definition build_repo :: "settings \<Rightarrow> nat \<Rightarrow> bool \<Rightarrow> string \<Rightarrow> session \<Rightarrow> staged" where
  "build_repo c depth available repo s =
     (if \<not> available then ret (noted (skipped (str (repo @ ''-ada-build'')) (str ''ada-build'')) s, Finished)
      else invoke_while c (build_steps c repo) (built_tests c depth repo) s)"

fun build_repos :: "settings \<Rightarrow> nat \<Rightarrow> bool \<Rightarrow> string list \<Rightarrow> session \<Rightarrow> staged" where
  "build_repos c depth available [] s = ret (s, Finished)"
| "build_repos c depth available (repo # repos) s =
     go_on (build_repo c depth available repo s) (build_repos c depth available repos)"

definition build_checks :: "settings \<Rightarrow> nat \<Rightarrow> session \<Rightarrow> staged" where
  "build_checks c depth s =
     under s (which c (str ''gprbuild'')) (\<lambda>p.
     let available = (p \<noteq> None) in
     go_on (build_repos c depth available REPOS (s\<lparr>z_ada := Ada_requested\<rparr>)) (\<lambda>s.
     ret (if available \<and> list_all pass (z_checks s) then s\<lparr>z_ada := Ada_all_pass\<rparr> else s, Finished)))"

section \<open>Proofs\<close>

definition proof_steps :: "settings \<Rightarrow> string \<Rightarrow> step list" where
  "proof_steps c repo =
     [a_step c (repo @ ''-flow'') (map str [''make'', ''flow'']) repo ''proof'',
      a_step c (repo @ ''-prove'') (map str [''make'', ''prove'']) repo ''proof'']"

text \<open>A step that does not pass ends the loop over the repositories.\<close>

definition proof_checks :: "settings \<Rightarrow> session \<Rightarrow> staged" where
  "proof_checks c s =
     under s (which c (str ''gnatprove'')) (\<lambda>p.
     if p = None then ret (noted (skipped (str ''gnatprove'') (str ''proof'')) s, Finished)
     else go_on (invoke_while c (concat (map (proof_steps c) REPOS)) (\<lambda>s. ret (s, Finished)) s) (\<lambda>s.
       ret (s\<lparr>z_proof := (if list_all pass (z_checks s) then Proof_passed else Proof_incomplete)\<rparr>, Finished)))"

section \<open>main\<close>

text \<open>The body of the \<open>try\<close> statement after \<open>clean_env\<close>.\<close>

definition FIXTURE_TOOLS :: "string list" where
  "FIXTURE_TOOLS = [''gpg'', ''gpgv'', ''gpg-agent'', ''gpgconf'', ''dpkg-deb'']"

definition mode_checks :: "settings \<Rightarrow> nat \<Rightarrow> session \<Rightarrow> staged" where
  "mode_checks c depth s =
     (case y_mode c of Source \<Rightarrow> ret (s, Finished) | Build \<Rightarrow> build_checks c depth s | Proof \<Rightarrow> proof_checks c s)"

definition all_checks :: "unicode \<Rightarrow> nat \<Rightarrow> settings \<Rightarrow> session \<Rightarrow> staged" where
  "all_checks u depth c s =
     under s (each (\<lambda>t. which c (str t)) ([''gprbuild'', ''gnatprove''] @ FIXTURE_TOOLS)) (\<lambda>tools.
     under s (check (None \<notin> set (drop 2 tools)) (Invalid ''required native fixture tools unavailable'')) (\<lambda>_.
     under s (on_files (source_subject (y_root c))) (\<lambda>before.
     let s = s\<lparr>z_before := Some before\<rparr> in
     under s (on_files (validate u depth (y_root c))) (\<lambda>val.
     under s (r_unit (Put (in_output c (str ''traceability.json'')))) (\<lambda>_.
     let s = noted \<lparr>k_name = str ''traceability'', k_layer = str ''source'', k_result = Pass, k_run = None\<rparr> s\<lparr>z_verdict := Some val\<rparr> in
     go_on (tool_versions c [''gprbuild'', ''gnatprove''] s) (\<lambda>s.
     go_on (source_checks c s) (\<lambda>s.
     go_on (mode_checks c depth s) (\<lambda>s.
     under s (on_files (source_subject (y_root c))) (\<lambda>after.
     let s = s\<lparr>z_after := Some after\<rparr> in
     under s (check (before = after) (Invalid ''sources changed while checks were running'')) (\<lambda>_.
     ret (s, Finished)))))))))))"

text \<open>The handler, and \<open>finally\<close>: the temporary tree is removed, the report and the digests of all logs are written.\<close>

definition reported :: "exn \<Rightarrow> bool" where
  "reported e \<longleftrightarrow> is_os_error e \<or> is_value_error e \<or> e = KeyError"

definition evidence_manifest :: "settings \<Rightarrow> pystr run" where
  "evidence_manifest c =
     seq (on_files (seq (sys_names (Scandir (y_output c))) (\<lambda>names.
       each (\<lambda>n. seq (read_regular (slash (y_output c) n) (int MAX_LOG)) (\<lambda>b. ret (sha b @ str ''  '' @ n @ [10])))
         (sort (filter entry_name names))))) (\<lambda>lines.
     ret (concat lines))"

definition finish_checks :: "settings \<Rightarrow> unit run" where
  "finish_checks c =
     seq (r_unit (Remove_tree (y_temporary c))) (\<lambda>_.
     seq (r_unit (Put (in_output c (str ''report.json'')))) (\<lambda>_.
     seq (evidence_manifest c) (\<lambda>text.
     r_unit (Put_text (in_output c (str ''evidence-manifest.sha256'')) text))))"

datatype check_exit = Misused | Ended int session

definition run_code :: "session \<Rightarrow> status \<Rightarrow> int" where
  "run_code s st = (if st = Finished \<and> list_all pass (z_checks s) then 0 else 1)"

definition checks_with :: "unicode \<Rightarrow> nat \<Rightarrow> settings \<Rightarrow> check_exit run" where
  "checks_with u depth c =
     seq (under fresh_session (lift (clean_env (y_path c) (y_temporary c))) (\<lambda>env.
       all_checks u depth (c\<lparr>y_env := env\<rparr>) fresh_session)) (\<lambda>(s, st).
     seq (finish_checks c) (\<lambda>_.
     case st of
       Finished \<Rightarrow> ret (Ended (run_code s st) s)
     | Raised e \<Rightarrow> if reported e then ret (Ended 1 (s\<lparr>z_error := Some e\<rparr>)) else raise e))"

text \<open>\<open>c\<close> holds the parsed arguments and the resolved root.\<close>

definition run_checks :: "unicode \<Rightarrow> nat \<Rightarrow> settings \<Rightarrow> check_exit run" where
  "run_checks u depth c =
     (if \<not> (5 \<le> y_timeout c \<and> y_timeout c \<le> 86400) then ret Misused
      else seq (if y_mode c = Source then ret 1 else r_int Effective_user) (\<lambda>uid.
      if uid = 0 then ret Misused
      else
        let ev = in_root c ''assurance/evidence'' in
        seq (on_files (is_symlink ev)) (\<lambda>linked.
        seq (check (\<not> linked) (Invalid ''linked evidence directory'')) (\<lambda>_.
        seq (r_unit (Make_dir ev)) (\<lambda>_.
        seq (make_temp (str ''engineering-'') (Some ev)) (\<lambda>output.
        seq (make_temp (str ''mission-engineering-tests-'') None) (\<lambda>temporary.
        checks_with u depth (c\<lparr>y_output := output, y_temporary := temporary\<rparr>)))))))) "

end
