(* ===== verification/Component_Ci.thy ===== *)
theory Component_Ci
  imports Check_Runner
begin

text \<open>
  \<open>ci/sync-component-ci.py\<close>: the test runners, proof makefiles, container setup and workflows of the component
  repositories, generated from the shared test plan, and their comparison with the files that are there.
\<close>

section \<open>Texts\<close>

text \<open>The lines of the generated files. \<open>comparisons\<close>: the tests of \<open>pkgcore\<close> whose log is compared, and how.\<close>

definition SCRIPT_HEAD :: "pystr list" where
  "SCRIPT_HEAD = [
     str ''#!/bin/sh'',
     str ''# SPDX-License-Identifier: BSD-3-Clause'',
     str ''# Generated by assurance/ci/sync-component-ci.py; edit test-plan.json.'',
     str ''set -eu'',
     str ''umask 077'',
     str ''cd \"$(CDPATH= cd -- \"$(dirname -- \"$0\")/..\" && pwd)\"'',
     str ''[ \"$(id -u)\" -ne 0 ] || { echo \"Use an unprivileged build user\" >&2; exit 78; }'',
     str ''D=$(mktemp -d \"${TMPDIR:-/tmp}/nia-tests.XXXXXXXX\")'',
     str ''trap 'rm -rf -- \"$D\"' EXIT HUP INT TERM'']"

definition PKGCORE_HEAD :: "pystr list" where
  "PKGCORE_HEAD = [
     str ''cc -std=c11 -Wall -Wextra -Werror -O1 -g -fstack-protector-strong -fsanitize=address,undefined -fno-omit-frame-pointer \"$PWD/tests/observer-transport/check.c\" -lsodium -o \"$D/observer-transport\"'',
     str ''timeout --kill-after=5s 30s \"$D/observer-transport\"'',
     str ''cc -std=c11 -Wall -Wextra -Werror -O1 -g -fstack-protector-strong -fsanitize=address,undefined -fno-omit-frame-pointer \"$PWD/tests/conffile-snapshot/check.c\" -lsodium -o \"$D/conffile-snapshot\"'',
     str ''mkdir -m 700 \"$D/conffile-root\"'',
     str ''timeout --kill-after=5s 45s \"$D/conffile-snapshot\" \"$D/conffile-root\"'',
     str ''python3 \"$PWD/tests/make_deb_final_set_fixtures.py\" --check'',
     str ''python3 \"$PWD/tests/make_deb_transition_fixtures.py\" --check'',
     str ''python3 \"$PWD/tests/make_selected_catalog_fixtures.py\" --check'',
     str ''python3 \"$PWD/tests/make_root_archive_fixtures.py\" --check'',
     str ''python3 \"$PWD/tests/make_payload_ownership_fixtures.py\" --check'',
     str ''python3 \"$PWD/tests/make_conffile_fixtures.py\" --check'']"

definition PKGCORE_TAIL :: "pystr list" where
  "PKGCORE_TAIL = [
     str ''timeout --kill-after=5s 610s python3 \"$PWD/tests/check_root_publication.py\" --driver \"$PWD/build/test-bin/run_generation_publication_tests\"'',
     str ''timeout --kill-after=5s 610s python3 \"$PWD/tests/check_configured_publication.py\" --driver \"$PWD/build/test-bin/run_generation_publication_tests\"'',
     str ''timeout --kill-after=5s 600s python3 \"$PWD/tests/check_deb_final_set_upstream.py\" --media \"$PWD/tests/fixtures/deb-final-set\" --work \"$D/upstream-endpoint\"'']"

definition UPSTREAM :: "pystr" where
  "UPSTREAM = str ''timeout --kill-after=5s 600s python3 \"$PWD/tests/check_conffile_upstream.py\" --driver \"$PWD/build/test-bin/run_conffile_tests\" --work \"$D/conffile-upstream\"''"

definition comparisons :: "pystr \<Rightarrow> (pystr \<times> pystr list) option" where
  "comparisons name =
    (if name = str ''run_deb_final_set_tests'' then Some (str ''final-set-native.log'', [
        str ''python3 \"$PWD/tests/compare_deb_final_set.py\" --media \"$PWD/tests/fixtures/deb-final-set\" --native \"$D/final-set-native.log\" --output \"$D/final-set-native-oracle.json\"''])
  else if name = str ''run_deb_transition_tests'' then Some (str ''transition-native.log'', [
        str ''python3 \"$PWD/tests/compare_deb_transition.py\" --media \"$PWD/tests/fixtures/deb-transition\" --native \"$D/transition-native.log\" --output \"$D/transition-native-oracle.json\"''])
  else if name = str ''run_conffile_observation_tests'' then Some (str ''configuration-entry-native.log'', [
        str ''python3 \"$PWD/tests/check_configuration_entry.py\" --native \"$D/configuration-entry-native.log\" --cas \"$D/run_conffile_observation_tests/store\" --output \"$D/configuration-entry-oracle\" --driver \"$PWD/build/test-bin/run_deb_payload_tests\"''])
  else if name = str ''run_root_configuration_tests'' then Some (str ''configured-root-native.log'', [
        str ''python3 \"$PWD/tests/check_configured_root.py\" --native \"$D/configured-root-native.log\" --cas \"$D/run_root_configuration_tests/store\" --output \"$D/configured-root-oracle\"'',
        str ''python3 \"$PWD/tests/check_configured_root_current.py\" --native \"$D/configured-root-native.log\" --cas \"$D/run_root_configuration_tests/store\" --root \"$D/run_root_configuration_tests/root\" --driver \"$PWD/build/test-bin/run_root_configuration_tests\" --output \"$D/configured-current-oracle\"'',
        str ''python3 \"$PWD/tests/check_configured_root_record.py\" --native \"$D/configured-root-native.log\" --cas \"$D/run_root_configuration_tests/store\" --driver \"$PWD/build/test-bin/run_root_configuration_tests\" --output \"$D/configured-record-oracle\"''])
  else if name = str ''run_root_archive_tests'' then Some (str ''root-archive-native.log'', [
        str ''python3 \"$PWD/tests/compare_root_archive.py\" --media \"$PWD/tests/fixtures/root-archive\" --native \"$D/root-archive-native.log\" --cas \"$D/run_root_archive_tests/store\" --output \"$D/root-archive-oracle.json\"'',
        str ''python3 \"$PWD/tests/compare_root_order.py\" --media \"$PWD/tests/fixtures/root-archive/order\" --native \"$D/root-archive-native.log\" --cas \"$D/run_root_archive_tests/store\" --output \"$D/root-order-oracle\"''])
  else if name = str ''run_catalog_store_tests'' then Some (str ''catalog-store-native.log'', [
        str ''python3 \"$PWD/tests/compare_catalog_store.py\" --media \"$PWD/tests/fixtures/selected-catalog\" --native \"$D/catalog-store-native.log\" --cas \"$D/run_catalog_store_tests/store\" --output \"$D/catalog-store-oracle.json\"'',
        str ''python3 \"$PWD/tests/compare_catalog_retention.py\" --media \"$PWD/tests/fixtures/selected-catalog\" --native \"$D/catalog-store-native.log\" --cas \"$D/run_catalog_store_tests/store\" --output \"$D/catalog-retention-oracle.json\"''])
  else if name = str ''run_generation_publication_tests'' then Some (str ''current-catalog-native.log'', [
        str ''python3 \"$PWD/tests/compare_current_catalog.py\" --root \"$D/run_generation_publication_tests/root\" --state \"$D/run_generation_publication_tests/state\" --cas \"$D/run_generation_publication_tests/store\" --bank \"$D/run_generation_publication_tests/bank\" --media \"$PWD/tests/fixtures/selected-catalog\" --native \"$D/current-catalog-native.log\" --output \"$D/current-catalog-oracle.json\"''])
  else None)"

definition PROOF_MK :: "pystr list" where
  "PROOF_MK = [
     str ''# SPDX-License-Identifier: BSD-3-Clause'',
     str ''# Generated by assurance/ci/sync-component-ci.py.'',
     str ''# All component proofs share the guard's per-user lock. No unbounded fallback.'',
     str ''.PHONY: flow prove'',
     str ''flow: check-contract'',
     9 # str ''@command -v \"$(GNATPROVE)\" >/dev/null || { echo 'GNATprove missing; proof NOT RUN' >&2; exit 78; }'',
     9 # str ''mkdir -p build/proof-obj'',
     9 # str ''python3 ci/proof-guard.py -- \"$(GNATPROVE)\" -P proof.gpr -U --mode=flow --checks-as-errors=on --warnings=error'',
     str ''prove: check-contract'',
     9 # str ''@command -v \"$(GNATPROVE)\" >/dev/null || { echo 'GNATprove missing; proof NOT RUN' >&2; exit 78; }'',
     9 # str ''mkdir -p build/proof-obj'',
     9 # str ''python3 ci/proof-guard.py -- \"$(GNATPROVE)\" -P proof.gpr -U --mode=all --level=4 --checks-as-errors=on --warnings=error --proof-warnings=on --report=statistics'']"

definition SETUP :: "pystr list" where
  "SETUP = [
     str ''#!/bin/sh'',
     str ''# SPDX-License-Identifier: BSD-3-Clause'',
     str ''# Generated component CI dependency setup; use only in the pinned CI container.'',
     str ''set -eu'',
     str ''[ \"$(id -u)\" -eq 0 ] || exit 78'',
     str ''rm -f /etc/apt/sources.list.d/debian.sources'',
     str ''cat > /etc/apt/sources.list <<'SOURCES'' @ [39],
     str ''deb [check-valid-until=no] http://snapshot.debian.org/archive/debian/20260907T000000Z trixie main'',
     str ''deb [check-valid-until=no] http://snapshot.debian.org/archive/debian/20260907T000000Z trixie-updates main'',
     str ''deb [check-valid-until=no] http://snapshot.debian.org/archive/debian-security/20260907T000000Z trixie-security main'',
     str ''SOURCES'',
     str ''apt-get update'']"

definition INSTALL :: "pystr" where
  "INSTALL = str ''apt-get install -y --no-install-recommends ''"

definition WORKFLOW :: "pystr list" where
  "WORKFLOW = [
     str ''# Generated by assurance/ci/sync-component-ci.py.'',
     str ''name: Component validation'',
     str ''on:'',
     str ''  pull_request:'',
     str ''  workflow_dispatch:'',
     str ''    inputs:'',
     str ''      run_proof:'',
     str ''        description: Run the full component proof at an integration checkpoint'',
     str ''        type: boolean'',
     str ''        default: false'',
     str ''concurrency:'',
     str ''  group: component-${{ github.workflow }}-${{ github.ref }}'',
     str ''  cancel-in-progress: true'',
     str ''permissions:'',
     str ''  contents: read'',
     str ''jobs:'',
     str ''  native:'',
     str ''    runs-on: ubuntu-24.04'',
     str ''    timeout-minutes: 45'',
     str ''    container:'',
     str ''      image: debian:13.6-slim@sha256:abc9cb88a5587630d7f915f47b23b0668fe250fbfc6457aa4d52b534c1bbf73f'',
     str ''      options: --memory=3g --memory-swap=3g --cpus=1 --pids-limit=128'',
     str ''    steps:'',
     str ''      - uses: actions/checkout@34e114876b0b11c390a56381ad16ebd13914f8d5 # v4.3.1'',
     str ''        with:'',
     str ''          persist-credentials: false'',
     str ''      - name: Install pinned development dependencies'',
     str ''        run: sh ci/setup-container.sh'',
     str ''      - name: Prepare unprivileged builder'',
     str ''        run: |'',
     str ''          useradd --create-home builder'',
     str ''          chown -R builder:builder \"$GITHUB_WORKSPACE\"'',
     str ''      - name: Compile, link and run every Ada test'',
     str ''        run: runuser -u builder -- make compile-all build test'',
     str ''  proof:'',
     str ''    if: github.event_name == 'workflow_dispatch' && inputs.run_proof'',
     str ''    runs-on: ubuntu-24.04'',
     str ''    timeout-minutes: 120'',
     str ''    container:'',
     str ''      image: debian:13.6-slim@sha256:abc9cb88a5587630d7f915f47b23b0668fe250fbfc6457aa4d52b534c1bbf73f'',
     str ''      options: --memory=3g --memory-swap=3g --cpus=1 --pids-limit=128'',
     str ''    steps:'',
     str ''      - uses: actions/checkout@34e114876b0b11c390a56381ad16ebd13914f8d5 # v4.3.1'',
     str ''        with:'',
     str ''          persist-credentials: false'',
     str ''      - run: sh ci/setup-container.sh'',
     str ''      - run: |'',
     str ''          useradd --create-home builder'',
     str ''          chown -R builder:builder \"$GITHUB_WORKSPACE\"'',
     str ''      - name: Install checksum-pinned prover and check SPARK'',
     str ''        run: |'',
     str ''          runuser -u builder -- sh -ec '' @ [39],
     str ''            prover_bin=$(python3 ci/install-gnatprove.py)'',
     str ''            export PATH=\"$prover_bin:$PATH\"'',
     str ''            make flow prove JOBS=1'',
     str ''          '' @ [39],
     str ''      - uses: actions/upload-artifact@ea165f8d65b6e75b540449e92b4886f43607fa02 # v4.6.2'',
     str ''        if: always()'',
     str ''        with:'',
     str ''          name: spark-results'',
     str ''          path: build/proof-obj/gnatprove/'']"

definition REFUSAL :: "pystr list" where
  "REFUSAL = [
     str ''      - name: Verify generation, payload, catalog and endpoint root refusal'',
     str ''        run: sh ci/generation-root-refusal-test.sh'',
     str ''  proof:'']"

section \<open>Arguments for the shell\<close>

text \<open>\<open>shlex.quote\<close>\<close>

definition sh_safe :: "nat \<Rightarrow> bool" where
  "sh_safe c \<longleftrightarrow> is_alnum c \<or> c = 95 \<or> c \<in> set (str ''@%+=:,./-'')"

definition sh_quote :: "pystr \<Rightarrow> pystr" where
  "sh_quote s =
     (if s = [] then [39, 39]
      else if list_all sh_safe s then s
      else 39 # concat (map (\<lambda>c. if c = 39 then [39, 34, 39, 34, 39] else [c]) s) @ [39])"

definition ci_argument :: "pystr \<Rightarrow> pystr \<Rightarrow> pystr" where
  "ci_argument name value =
     (if in_temp value then str ''\"$D/\"'' @ sh_quote (name @ str ''/'' @ drop 6 value)
      else str ''\"$PWD/\"'' @ sh_quote value)"

definition test_command :: "pystr \<Rightarrow> pystr list \<Rightarrow> pystr" where
  "test_command name args =
     str ''timeout --kill-after=5s 600s env -i PATH=\"$PATH\" HOME=\"$D\" TMPDIR=\"$D\" LANG=C.UTF-8 LC_ALL=C.UTF-8 '' @
     str ''\"$PWD/build/test-bin/'' @ name @ str ''\"'' @ concat (map (\<lambda>a. str '' '' @ a) args)"

text \<open>A command whose output is kept in a log and shown, before the log is compared.\<close>

definition captured :: "pystr \<Rightarrow> pystr \<Rightarrow> pystr list \<Rightarrow> pystr list" where
  "captured log command oracles =
     [str ''if '' @ command @ str '' > \"$D/'' @ log @ str ''\" 2>&1; then'', str ''  cat \"$D/'' @ log @ str ''\"'', str ''else'',
      str ''  cat \"$D/'' @ log @ str ''\"'', str ''  exit 1'', str ''fi''] @ oracles"

section \<open>The generated files\<close>

definition ci_arguments :: "pystr \<Rightarrow> json \<Rightarrow> string \<Rightarrow> pystr list res" where
  "ci_arguments name test key =
     rbind (item test key iterate) (for_each (\<lambda>v. rbind (text_value v) (\<lambda>s. Inr (ci_argument name s))))"

definition test_lines :: "string \<Rightarrow> json \<Rightarrow> pystr list res" where
  "test_lines repo test =
     rbind (rbind (getitem test ''main'') text_value) (\<lambda>main.
     if take (length repo + 1) main \<noteq> str (repo @ ''/'') then Inr []
     else
       let name = stem_of main in
       rbind (ci_arguments name test ''prepare_directories'') (\<lambda>dirs.
       rbind (ci_arguments name test ''arguments'') (\<lambda>args.
       let command = test_command name args in
       Inr ([str ''mkdir -p \"$D/'' @ name @ str ''\"''] @ map (\<lambda>d. str ''mkdir -p '' @ d) dirs @
            [str ''echo '' @ sh_quote (str ''Running '' @ name)] @
            (case (if repo = ''pkgcore'' then comparisons name else None) of
               None \<Rightarrow> [command]
             | Some (log, oracles) \<Rightarrow> captured log command oracles) @
            (if repo = ''pkgcore'' \<and> name = str ''run_conffile_tests'' then [UPSTREAM] else [])))))"

definition lines_text :: "pystr list \<Rightarrow> pystr" where
  "lines_text lines = concat (map (\<lambda>l. l @ [10]) lines)"

definition script_text :: "string \<Rightarrow> json \<Rightarrow> pystr res" where
  "script_text repo tests =
     rbind (iterate tests) (\<lambda>ts.
     rbind (for_each (test_lines repo) ts) (\<lambda>lls.
     Inr (lines_text (SCRIPT_HEAD @ (if repo = ''pkgcore'' then PKGCORE_HEAD else []) @ concat lls @
       (if repo = ''pkgcore'' then PKGCORE_TAIL else [])))))"

definition setup_text :: "pystr list \<Rightarrow> pystr" where
  "setup_text packages = lines_text SETUP @ INSTALL @ joined [32] packages @ [10]"

text \<open>\<open>text.replace(old, new, 1)\<close>\<close>

fun replace_first :: "pystr \<Rightarrow> pystr \<Rightarrow> pystr \<Rightarrow> pystr" where
  "replace_first old new s =
     (if take (length old) s = old then new @ drop (length old) s
      else case s of [] \<Rightarrow> [] | c # cs \<Rightarrow> c # replace_first old new cs)"

declare replace_first.simps [simp del]

definition workflow_text :: "string \<Rightarrow> pystr" where
  "workflow_text repo =
     (if repo = ''pkgcore'' then replace_first (str ''  proof:'' @ [10]) (lines_text REFUSAL) (lines_text WORKFLOW)
      else lines_text WORKFLOW)"

section \<open>generated\<close>

text \<open>The generator hands each file to the loop of \<open>main\<close> before it makes the next. Paths are given by their parts.\<close>

type_synonym 'a handler = "pystr list \<Rightarrow> bytes \<Rightarrow> nat \<Rightarrow> 'a run"

definition read_all :: "pystr \<Rightarrow> bytes run" where
  "read_all p = r_call (Read_all p) (\<lambda>r. case r of Data b \<Rightarrow> Inr b | _ \<Rightarrow> Inl (OSError 0))"

definition text_file :: "'a handler \<Rightarrow> string list \<Rightarrow> pystr \<Rightarrow> nat \<Rightarrow> 'a run" where
  "text_file handle path text mode = seq (lift (encode text)) (\<lambda>b. handle (map str path) b mode)"

definition COPIED :: "string list" where
  "COPIED = [''gnatprove.lock.json'', ''install-gnatprove.py'', ''proof-guard.py'']"

definition copies :: "pystr \<Rightarrow> 'a handler \<Rightarrow> string \<Rightarrow> 'a list run" where
  "copies root handle repo =
     (if repo = ''assurance'' then ret []
      else each (\<lambda>name. seq (read_all (slash root (str (''assurance/ci/'' @ name)))) (\<lambda>b. handle (map str [repo, ''ci'', name]) b 420)) COPIED)"

definition component_files :: "pystr \<Rightarrow> 'a handler \<Rightarrow> json \<Rightarrow> pystr list \<Rightarrow> string \<Rightarrow> 'a list run" where
  "component_files root handle tests packages repo =
     seq (lift (script_text repo tests)) (\<lambda>script.
     seq (text_file handle [repo, ''ci'', ''test-all.sh''] script 493) (\<lambda>a.
     seq (copies root handle repo) (\<lambda>bs.
     seq (text_file handle [repo, ''ci'', ''proof.mk''] (lines_text PROOF_MK) 420) (\<lambda>c.
     seq (text_file handle [repo, ''ci'', ''setup-container.sh''] (setup_text packages) 493) (\<lambda>d.
     seq (text_file handle [repo, ''.github'', ''workflows'', ''ci.yml''] (workflow_text repo) 420) (\<lambda>e.
     ret ([a] @ bs @ [c, d, e])))))))"

definition generated :: "nat \<Rightarrow> pystr \<Rightarrow> 'a handler \<Rightarrow> 'a list run" where
  "generated depth root handle =
     seq (on_files (load_json depth (engineering_file root ''test-plan.json''))) (\<lambda>plan.
     seq (lift (getitem plan ''ada_tests'')) (\<lambda>tests.
     seq (read_all (slash root (str ''dev/packages.txt''))) (\<lambda>b.
     seq (lift (decoded b)) (\<lambda>text.
     seq (each (component_files root handle tests (split_space [] text)) REPOS) (\<lambda>xss.
     ret (concat xss))))))"

section \<open>main\<close>

definition placed_at :: "pystr \<Rightarrow> pystr list \<Rightarrow> pystr" where
  "placed_at root path = foldl slash root path"

text \<open>The parts of \<open>failed\<close> that one file adds.\<close>

definition check_file :: "pystr \<Rightarrow> pystr list handler" where
  "check_file root path data mode =
     (let p = placed_at root path; failed = [posix path] in
      seq (r_bool (Is_file p)) (\<lambda>there.
      if \<not> there then ret failed
      else seq (read_all p) (\<lambda>b.
      if b \<noteq> data then ret failed
      else seq (r_int (Mode_of p)) (\<lambda>m.
      ret (if m mod 512 = int mode then [] else failed)))))"

definition write_file :: "pystr \<Rightarrow> pystr list handler" where
  "write_file root path data mode =
     (let p = placed_at root path in
      seq (r_unit (Make_dirs (placed_at root (butlast path)))) (\<lambda>_.
      seq (r_unit (Put_bytes p data)) (\<lambda>_.
      seq (r_unit (Chmod p mode)) (\<lambda>_.
      ret []))))"

text \<open>\<open>SystemExit\<close> with the list, or the message that all is in step.\<close>

datatype sync_exit = In_step | Differs "pystr list"

definition sync_ci :: "unicode \<Rightarrow> nat \<Rightarrow> bool \<Rightarrow> pystr \<Rightarrow> sync_exit run" where
  "sync_ci u depth write root =
     seq (on_files (validate u depth root)) (\<lambda>_.
     seq (generated depth root (if write then write_file root else check_file root)) (\<lambda>failed.
     ret (if concat failed = [] then In_step else Differs (concat failed))))"

end
