(* ===== verification/Runner_Spec.thy ===== *)
theory Runner_Spec
  imports Runner Guard_Spec Plan_Spec
begin

text \<open>
  What \<open>run_command\<close> promises, as an automaton that reads its conversation with the system: it starts at most
  one process, signals only the group of that process and only while the process was seen and not yet waited
  for, and copies to the log what it read, up to the limit.
\<close>

section \<open>The automaton\<close>

text \<open>\<open>Reaped p rc\<close>: waited for, with that return code. \<open>Unseen p\<close> and \<open>Seen p\<close>: process \<open>p\<close> runs or is a zombie; it was seen after the last call that could lose it.\<close>

datatype phase = Unstarted | Unseen int | Seen int | Reaped int int

record view =
  v_phase :: phase
  v_read :: bytes
  v_wrote :: bytes
  v_ended :: bool

definition start_view :: view where
  "start_view = \<lparr>v_phase = Unstarted, v_read = [], v_wrote = [], v_ended = False\<rparr>"

fun is_failure :: "ranswer \<Rightarrow> bool" where
  "is_failure (Fault _) \<longleftrightarrow> True"
| "is_failure Refused \<longleftrightarrow> True"
| "is_failure Late \<longleftrightarrow> True"
| "is_failure _ \<longleftrightarrow> False"

fun same_process :: "int \<Rightarrow> phase \<Rightarrow> bool" where
  "same_process p (Unseen q) \<longleftrightarrow> p = q"
| "same_process p (Seen q) \<longleftrightarrow> p = q"
| "same_process p _ \<longleftrightarrow> False"

fun react :: "view \<Rightarrow> rcall \<times> ranswer \<Rightarrow> view option" where
  "react a (Spawn argv cwd env, r) =
     (if v_phase a = Unstarted
      then Some (case r of Count p \<Rightarrow> a\<lparr>v_phase := Unseen p\<rparr> | _ \<Rightarrow> a) else None)"
| "react a (Observe p, r) =
     (if same_process p (v_phase a)
      then Some (a\<lparr>v_phase := (case r of Yes_no _ \<Rightarrow> Seen p | _ \<Rightarrow> Unseen p)\<rparr>) else None)"
| "react a (Terminate_group p, r) = (if v_phase a = Seen p then Some a else None)"
| "react a (Kill_group p, r) = (if v_phase a = Seen p then Some a else None)"
| "react a (Await p, r) =
     (if same_process p (v_phase a)
      then Some (a\<lparr>v_phase := (case r of Count rc \<Rightarrow> Reaped p rc | _ \<Rightarrow> Unseen p)\<rparr>) else None)"
| "react a (Read_output n, r) =
     Some (case r of Data b \<Rightarrow> a\<lparr>v_read := v_read a @ take 65536 b, v_ended := (take 65536 b = [])\<rparr> | _ \<Rightarrow> a)"
| "react a (Write_log b, r) = Some (if is_failure r then a else a\<lparr>v_wrote := v_wrote a @ b\<rparr>)"
| "react a _ = Some a"

fun reacts :: "view \<Rightarrow> (rcall \<times> ranswer) list \<Rightarrow> view option" where
  "reacts a [] = Some a"
| "reacts a (e # l) = (case react a e of None \<Rightarrow> None | Some b \<Rightarrow> reacts b l)"

lemma reacts_append: "reacts a (l @ l') = (case reacts a l of None \<Rightarrow> None | Some b \<Rightarrow> reacts b l')"
  by (induction l arbitrary: a) (auto split: option.splits)

section \<open>Stages and the automaton\<close>

text \<open>\<open>seen n a w\<close>: the automaton accepts the conversation that follows \<open>n\<close>, and has come to \<open>a\<close>.\<close>

definition seen :: "(rcall \<times> ranswer) list \<Rightarrow> view \<Rightarrow> (rcall, ranswer) machine \<Rightarrow> bool" where
  "seen n a w \<longleftrightarrow> (\<exists>l. w_log w = n @ l \<and> reacts start_view l = Some a)"

text \<open>\<open>tells n m R w\<close>: run from \<open>w\<close>, \<open>m\<close> brings the automaton to a state that satisfies \<open>R\<close> with the result.\<close>

definition tells :: "(rcall \<times> ranswer) list \<Rightarrow> 'a run \<Rightarrow> ('a res \<Rightarrow> view \<Rightarrow> bool) \<Rightarrow> (rcall, ranswer) machine \<Rightarrow> bool" where
  "tells n m R w \<longleftrightarrow> wp m (\<lambda>r v. \<exists>b. seen n b v \<and> R r b) w"

lemma seen_logged: "seen n a w \<Longrightarrow> react a (c, answer_of c w) = Some b \<Longrightarrow> seen n b (logged c w)"
  by (auto simp: seen_def logged_def reacts_append)

lemma seen_time [simp]: "seen n a (w\<lparr>w_time := t\<rparr>) = seen n a w"
  by (simp add: seen_def)

lemma tells_mono: "tells n m R w \<Longrightarrow> (\<And>r b. R r b \<Longrightarrow> Q r b) \<Longrightarrow> tells n m Q w"
  unfolding tells_def by (erule wp_mono) blast

lemma tells_pure:
  "seen n a w \<Longrightarrow> R (Inr x) a \<Longrightarrow> tells n (ret x) R w"
  "seen n a w \<Longrightarrow> R (Inl e) a \<Longrightarrow> tells n (raise e) R w"
  "seen n a w \<Longrightarrow> R r a \<Longrightarrow> tells n (lift r) R w"
  by (auto simp: tells_def wp_rules)

lemma tells_check: "seen n a w \<Longrightarrow> tells n (check c e) (\<lambda>r b. b = a \<and> (\<forall>u. r = Inr u \<longrightarrow> c)) w"
  by (auto simp: tells_def wp_rules)

text \<open>The rules for sequences keep the run of the first part, which the induction for the loop needs.\<close>

lemma tells_under:
  assumes m: "tells n m P w"
    and e: "\<And>e b. P (Inl e) b \<Longrightarrow> R (Inr (s, Raised e)) b"
    and k: "\<And>x b v. m w = (Inr x, v) \<Longrightarrow> seen n b v \<Longrightarrow> P (Inr x) b \<Longrightarrow> tells n (k x) R v"
  shows "tells n (under s m k) R w"
  using m e k unfolding tells_def by (cases "m w"; cases "fst (m w)") (fastforce simp: wp_def under_def)+

lemma tells_seq:
  assumes m: "tells n m P w"
    and e: "\<And>e b. P (Inl e) b \<Longrightarrow> R (Inl e) b"
    and k: "\<And>x b v. seen n b v \<Longrightarrow> P (Inr x) b \<Longrightarrow> tells n (f x) R v"
  shows "tells n (seq m f) R w"
  using m e k unfolding tells_def by (cases "m w"; cases "fst (m w)") (fastforce simp: wp_def seq_def)+

lemma tells_catch:
  assumes m: "tells n m P w"
    and x: "\<And>x b. P (Inr x) b \<Longrightarrow> R (Inr x) b" and e: "\<And>e b. P (Inl e) b \<Longrightarrow> \<not> Q e \<Longrightarrow> R (Inl e) b"
    and h: "\<And>e b v. seen n b v \<Longrightarrow> P (Inl e) b \<Longrightarrow> Q e \<Longrightarrow> tells n (h e) R v"
  shows "tells n (catch Q m h) R w"
  using m x e h unfolding tells_def by (cases "m w"; cases "fst (m w)") (fastforce simp: wp_def catch_def)+

lemma tells_attempt:
  assumes m: "tells n m P w"
    and x: "\<And>x b. P (Inr x) b \<Longrightarrow> R (Inr (Inr x)) b"
    and e: "\<And>e b. P (Inl e) b \<Longrightarrow> \<not> Q e \<Longrightarrow> R (Inl e) b" "\<And>e b. P (Inl e) b \<Longrightarrow> Q e \<Longrightarrow> R (Inr (Inl e)) b"
  shows "tells n (attempt Q m) R w"
proof -
  have "tells n (seq m (\<lambda>x. ret (Inr x))) (\<lambda>r b. (\<exists>x. r = Inr (Inr x) \<and> P (Inr x) b) \<or> (\<exists>e. r = Inl e \<and> P (Inl e) b)) w"
    by (rule tells_seq [OF m]) (auto simp: tells_def wp_ret)
  then show ?thesis
    unfolding attempt_def by (rule tells_catch) (auto simp: tells_def wp_ret x e)
qed

lemma tells_branch: "(b \<Longrightarrow> tells n m R w) \<Longrightarrow> (\<not> b \<Longrightarrow> tells n k R w) \<Longrightarrow> tells n (branch b m k) R w"
  by (cases b) (simp_all add: tells_def wp_def branch_def)

text \<open>The same where the state after the first part is a function of its result.\<close>

lemma under_known:
  assumes m: "tells n m (\<lambda>r b. b = h r) w"
    and e: "\<And>e. R (Inr (s, Raised e)) (h (Inl e))"
    and k: "\<And>x v. m w = (Inr x, v) \<Longrightarrow> seen n (h (Inr x)) v \<Longrightarrow> tells n (k x) R v"
  shows "tells n (under s m k) R w"
  using m by (rule tells_under) (auto intro: e k)

lemma seq_known:
  assumes m: "tells n m (\<lambda>r b. b = h r) w"
    and e: "\<And>e. R (Inl e) (h (Inl e))"
    and k: "\<And>x v. seen n (h (Inr x)) v \<Longrightarrow> tells n (f x) R v"
  shows "tells n (seq m f) R w"
  using m by (rule tells_seq) (auto intro: e k)

section \<open>Calls\<close>

lemma tells_call:
  assumes "seen n a w" "\<And>r. \<exists>b. react a (c, r) = Some b"
    "\<And>r b. react a (c, r) = Some b \<Longrightarrow>
       R (case r of Fault n \<Rightarrow> Inl (os_error n) | Refused \<Rightarrow> Inl ValueError | Late \<Rightarrow> Inl TimeoutExpired | _ \<Rightarrow> f r) b"
  shows "tells n (r_call c f) R w"
proof -
  from assms(2) obtain b where b: "react a (c, answer_of c w) = Some b" by blast
  with seen_logged [OF assms(1) b] assms(3) [OF b] show ?thesis
    by (cases "answer_of c w") (auto simp: tells_def wp_def r_call_def)
qed

text \<open>Calls that the automaton does not mind.\<close>

fun neutral :: "rcall \<Rightarrow> bool" where
  "neutral (Spawn _ _ _) \<longleftrightarrow> False"
| "neutral (Observe _) \<longleftrightarrow> False"
| "neutral (Terminate_group _) \<longleftrightarrow> False"
| "neutral (Kill_group _) \<longleftrightarrow> False"
| "neutral (Await _) \<longleftrightarrow> False"
| "neutral (Read_output _) \<longleftrightarrow> False"
| "neutral (Write_log _) \<longleftrightarrow> False"
| "neutral _ \<longleftrightarrow> True"

lemma react_neutral: "neutral c \<Longrightarrow> react a (c, r) = Some a"
  by (cases c) simp_all

lemma tells_neutral:
  assumes "seen n a w" "neutral c"
  shows "tells n (r_unit c) (\<lambda>r b. b = a) w" "tells n (r_bool c) (\<lambda>r b. b = a) w"
  unfolding r_unit_def r_bool_def by (rule tells_call [OF assms(1)]; use assms(2) in \<open>simp add: react_neutral\<close>)+

lemma tells_clock:
  assumes "seen n a w"
  shows "tells n clock_now (\<lambda>r b. b = a) w" "tells n (pause d) (\<lambda>r b. b = a) w" "tells n select_output (\<lambda>r b. b = a) w"
  using seen_logged [OF assms, of Now a] seen_logged [OF assms, of "Pause d" a] seen_logged [OF assms, of Select a]
  by (auto simp: tells_def wp_def clock_now_def pause_def select_output_def Let_def split: ranswer.splits bool.splits)

lemma tells_files:
  assumes "seen n a w"
  shows "tells n (on_files m) (\<lambda>r b. b = a) w"
proof -
  have "reacts a (map (\<lambda>(c, x). (File c, Reply x)) l) = Some a" for l
    by (induction l) auto
  with assms show ?thesis
    by (auto simp: tells_def wp_def on_files_def seen_def reacts_append split: prod.splits)
qed

text \<open>The calls about the process.\<close>

abbreviation at_phase :: "view \<Rightarrow> phase \<Rightarrow> view" where
  "at_phase a p \<equiv> a\<lparr>v_phase := p\<rparr>"

lemma tells_observe:
  assumes "seen n a w" "same_process p (v_phase a)"
  shows "tells n (r_bool (Observe p)) (\<lambda>r b. b = at_phase a (case r of Inr _ \<Rightarrow> Seen p | Inl _ \<Rightarrow> Unseen p)) w"
  unfolding r_bool_def by (rule tells_call [OF assms(1)]) (auto simp: assms(2) split: ranswer.splits)

lemma tells_await:
  assumes "seen n a w" "same_process p (v_phase a)"
  shows "tells n (r_int (Await p)) (\<lambda>r b. b = at_phase a (case r of Inr rc \<Rightarrow> Reaped p rc | Inl _ \<Rightarrow> Unseen p)) w"
  unfolding r_int_def by (rule tells_call [OF assms(1)]) (auto simp: assms(2) split: ranswer.splits)

lemma tells_spawn:
  assumes "seen n a w" "v_phase a = Unstarted"
  shows "tells n (r_int (Spawn argv cwd env)) (\<lambda>r b. b = (case r of Inr p \<Rightarrow> at_phase a (Unseen p) | Inl _ \<Rightarrow> a)) w"
  unfolding r_int_def by (rule tells_call [OF assms(1)]) (auto simp: assms(2) split: ranswer.splits)

lemma tells_signal:
  assumes "seen n a w" "v_phase a = Seen p"
  shows "tells n (r_unit (Terminate_group p)) (\<lambda>r b. b = a) w" "tells n (r_unit (Kill_group p)) (\<lambda>r b. b = a) w"
  unfolding r_unit_def by (rule tells_call [OF assms(1)]; use assms(2) in simp)+

lemma tells_write:
  assumes "seen n a w"
  shows "tells n (r_unit (Write_log x)) (\<lambda>r b. b = (case r of Inr _ \<Rightarrow> a\<lparr>v_wrote := v_wrote a @ x\<rparr> | Inl _ \<Rightarrow> a)) w"
  unfolding r_unit_def by (rule tells_call [OF assms]) (auto split: ranswer.splits if_splits)

lemma tells_read:
  assumes "seen n a w"
  shows "tells n read_output (\<lambda>r b. b = (case r of Inr x \<Rightarrow> a\<lparr>v_read := v_read a @ x, v_ended := (x = [])\<rparr> | Inl _ \<Rightarrow> a)) w"
  unfolding read_output_def by (rule tells_call [OF assms]) (auto split: ranswer.splits)

lemma tells_stop_group:
  assumes "seen n a w" "v_phase a = Seen p"
  shows "tells n (stop_group grace p) (\<lambda>r b. b = a) w"
proof -
  have signal: "tells n (catch no_process (r_unit c) (\<lambda>_. ret ())) (\<lambda>r b. b = a) v"
    if "seen n a v" "c = Terminate_group p \<or> c = Kill_group p" for v c
    using that(2) tells_signal [OF that(1) assms(2)]
    by (auto intro!: tells_catch [where P = "\<lambda>r b. b = a"] tells_pure)
  show ?thesis
    unfolding stop_group_def
    by (rule tells_seq [where P = "\<lambda>r b. b = a"])
      (auto intro!: tells_pure signal tells_clock tells_seq [where P = "\<lambda>r b. b = a"] assms(1))
qed

section \<open>The loop\<close>

text \<open>The state of the automaton and the variables agree while the process is owned.\<close>

definition owns :: "int \<Rightarrow> running \<Rightarrow> view \<Rightarrow> bool" where
  "owns p s a \<longleftrightarrow> t_child s = Some p \<and> t_owned s \<and> same_process p (v_phase a) \<and> length (v_wrote a) \<le> MAX_LOG \<and>
     t_result s \<noteq> Pass"

definition copied :: "running \<Rightarrow> view \<Rightarrow> bool" where
  "copied s a \<longleftrightarrow> t_result s = Unrun \<and> t_reason s = None \<and> v_wrote a = v_read a \<and> t_total s = length (v_wrote a)"

text \<open>After the loop: no result yet only when all output was read and copied.\<close>

definition collected :: "int \<Rightarrow> (running \<times> status) res \<Rightarrow> view \<Rightarrow> bool" where
  "collected p r a \<longleftrightarrow> (\<exists>s st. r = Inr (s, st) \<and> owns p s a \<and>
     (st = Finished \<longrightarrow> v_phase a = Seen p \<and> (t_result s = Unrun \<longrightarrow> copied s a \<and> v_ended a)))"

lemma collect_unfold:
  "collect timeout start child s =
     under s (r_bool (Observe child)) (\<lambda>observed.
     branch (observed \<and> \<not> t_watching s) (ret (s, Finished))
       (under s clock_now (\<lambda>t.
        branch (timeout < t - start)
          (ret (s\<lparr>t_result := Timed_out, t_reason := Some Time_limit\<rparr>, Finished))
          (branch (t_watching s)
            (under s select_output (\<lambda>ready.
             branch ready
               (under s read_output (\<lambda>block.
                branch (block = [])
                  (under s (r_unit Unwatch_output) (\<lambda>_. collect timeout start child (s\<lparr>t_watching := False\<rparr>)))
                  (under s (r_unit (Write_log (take (MAX_LOG - t_total s) block))) (\<lambda>_.
                   branch (MAX_LOG - t_total s < length block)
                     (ret (s\<lparr>t_total := MAX_LOG, t_result := Fail, t_reason := Some Log_size_limit\<rparr>, Finished))
                     (collect timeout start child (s\<lparr>t_total := t_total s + length block\<rparr>))))))
               (collect timeout start child s)))
            (under s (pause 10000000) (\<lambda>_. collect timeout start child s))))))"
  by (rule ext) (subst collect.simps, simp)

lemma collected_raised: "owns p s b \<Longrightarrow> collected p (Inr (s, Raised e)) b"
  by (simp add: collected_def)

lemma collected_finish:
  "seen n b v \<Longrightarrow> owns p s b \<Longrightarrow> v_phase b = Seen p \<Longrightarrow> (t_result s = Unrun \<Longrightarrow> copied s b \<and> v_ended b) \<Longrightarrow>
   tells n (ret (s, Finished)) (collected p) v"
  by (rule tells_pure(1)) (auto simp: collected_def)

text \<open>One block: what was read is copied, up to the limit.\<close>

lemma copy_collected:
  assumes a: "seen n a w" "v_phase a = Seen p" "owns p s a" "copied s a"
    and ended: "\<And>v u v' b. read_output w = (Inr [], v) \<Longrightarrow> r_unit Unwatch_output v = (Inr u, v') \<Longrightarrow> seen n b v' \<Longrightarrow>
      owns p (s\<lparr>t_watching := False\<rparr>) b \<Longrightarrow> copied (s\<lparr>t_watching := False\<rparr>) b \<Longrightarrow> v_ended b \<Longrightarrow> tells n k (collected p) v'"
    and more: "\<And>x v u v' b. read_output w = (Inr x, v) \<Longrightarrow> x \<noteq> [] \<Longrightarrow>
      r_unit (Write_log (take (MAX_LOG - t_total s) x)) v = (Inr u, v') \<Longrightarrow> \<not> MAX_LOG - t_total s < length x \<Longrightarrow> seen n b v' \<Longrightarrow>
      owns p (s\<lparr>t_total := t_total s + length x\<rparr>) b \<Longrightarrow> copied (s\<lparr>t_total := t_total s + length x\<rparr>) b \<Longrightarrow>
      tells n (k' x) (collected p) v'"
  shows "tells n (under s read_output (\<lambda>x. branch (x = []) (under s (r_unit Unwatch_output) (\<lambda>_. k))
      (under s (r_unit (Write_log (take (MAX_LOG - t_total s) x))) (\<lambda>_.
       branch (MAX_LOG - t_total s < length x)
         (ret (s\<lparr>t_total := MAX_LOG, t_result := Fail, t_reason := Some Log_size_limit\<rparr>, Finished)) (k' x))))) (collected p) w"
proof (rule under_known [OF tells_read [OF a(1)]], goal_cases)
  case (2 x v)
  note x = 2(1) and v = 2(2) [simplified]
  have o: "owns p s (a\<lparr>v_read := v_read a @ x, v_ended := e\<rparr>)" for e
    using a by (simp add: owns_def)
  show ?case
  proof (rule tells_branch, goal_cases)
    case 1
    show ?case
      by (rule under_known [OF tells_neutral(1) [OF v]])
        (use a o x 1 in \<open>auto intro!: ended simp: collected_raised owns_def copied_def\<close>)
  next
    case 2
    note more = more [OF x 2]
    show ?case
    proof (rule under_known [OF tells_write [OF v]], goal_cases)
      case (2 u v')
      note v' = 2(2) [simplified]
      show ?case
        by (rule tells_branch, rule collected_finish [OF v'], goal_cases)
          (rule_tac [4] more [OF 2(1) _ v'], use a in \<open>auto simp: owns_def copied_def\<close>)
    qed (use o in \<open>auto simp: collected_raised owns_def\<close>)
  qed
qed (use a in \<open>simp add: collected_raised\<close>)

lemma collect_collected:
  "seen n a w \<Longrightarrow> owns p s a \<Longrightarrow> copied s a \<Longrightarrow> (\<not> t_watching s \<Longrightarrow> v_ended a) \<Longrightarrow>
   tells n (collect timeout start p s) (collected p) w"
proof (induction timeout start p s w arbitrary: a rule: collect.induct)
  case (1 timeout start p s w)
  let ?a = "at_phase a (Seen p)"
  have o: "owns p s ?a" "owns p s (at_phase a (Unseen p))" and c: "copied s ?a"
    using 1 by (auto simp: owns_def copied_def)
  have same: "same_process p (v_phase a)" using "1.prems" by (simp add: owns_def)
  note r = collected_raised [OF o(1)]
  show ?case
  proof (subst collect_unfold, rule under_known [OF tells_observe [OF "1.prems"(1) same]], goal_cases)
    case (2 observed w1)
    note run = this(1) and w1 = this(2) [simplified]
    show ?case
    proof (rule tells_branch, goal_cases)
      case 1
      with w1 show ?case by (intro collected_finish) (use o c "1.prems" in \<open>auto simp: copied_def\<close>)
    next
      case 2
      note run = run this
      show ?case
      proof (rule under_known [OF tells_clock(1) [OF w1]], rule r, rule tells_branch, goal_cases)
        case (1 t w2)
        from 1(2) show ?case by (rule collected_finish) (use o in \<open>auto simp: owns_def\<close>)
      next
        case (2 t w2)
        note run = run 2(1,3) and w2 = 2(2)
        show ?case
        proof (rule tells_branch, goal_cases)
          case 1
          note run = run this
          show ?case
          proof (rule under_known [OF tells_clock(3) [OF w2]], rule r, rule tells_branch, goal_cases)
            case (1 ready w3)
            note run = run 1(1,3)
            show ?case
              by (rule copy_collected [OF 1(2) _ o(1) c], simp, rule "1.IH"(1) [OF run _ refl], assumption+, simp,
                  rule "1.IH"(2) [OF run], assumption+, use run(5) in simp_all)
          next
            case (2 ready w3)
            show ?case by (rule "1.IH"(3) [OF run 2(1,3,2)]) (use c o run(5) in simp_all)
          qed
        next
          case 2
          note run = run this
          show ?case
            by (rule under_known [OF tells_clock(2) [OF w2]], rule r)
              (auto intro!: "1.IH"(4) [OF run] c o dest: "1.prems"(4))
        qed
      qed
    qed
  qed (simp add: collected_raised o)
qed

section \<open>After the loop\<close>

definition passed :: "running \<Rightarrow> view \<Rightarrow> bool" where
  "passed s a \<longleftrightarrow> t_code s = Some 0 \<and> t_reaped s \<and> t_reason s = None \<and> v_ended a \<and> v_wrote a = v_read a \<and>
     t_bytes s = Some (length (v_wrote a)) \<and> (\<exists>p. v_phase a = Reaped p 0)"

text \<open>What the variables say of the process when an exception, or the end, leaves the body.\<close>

definition settled :: "running \<Rightarrow> view \<Rightarrow> bool" where
  "settled s a \<longleftrightarrow> length (v_wrote a) \<le> MAX_LOG \<and>
     (case t_child s of
        None \<Rightarrow> v_phase a = Unstarted \<and> t_result s \<noteq> Pass
      | Some p \<Rightarrow> if t_owned s then owns p s a
                  else (\<exists>rc. v_phase a = Reaped p rc) \<and> (t_result s = Pass \<longrightarrow> passed s a))"

definition left_settled :: "(running \<times> status) res \<Rightarrow> view \<Rightarrow> bool" where
  "left_settled r a \<longleftrightarrow> (\<exists>s st. r = Inr (s, st) \<and> settled s a)"

lemma owns_settled: "owns p s a \<Longrightarrow> settled s a"
  by (simp add: owns_def settled_def)

lemma left_settledI: "settled s a \<Longrightarrow> left_settled (Inr (s, st)) a"
  by (simp add: left_settled_def)

lemma tells_go_on:
  assumes "tells n m P w" "\<And>e b. \<not> P (Inl e) b" "\<And>s e b. P (Inr (s, Raised e)) b \<Longrightarrow> R (Inr (s, Raised e)) b"
    "\<And>s b v. seen n b v \<Longrightarrow> P (Inr (s, Finished)) b \<Longrightarrow> tells n (k s) R v"
  shows "tells n (go_on m k) R w"
  unfolding go_on_def
  by (rule tells_seq [OF assms(1)]) (auto simp: assms(2) split: status.splits intro!: assms(4) tells_pure(1) assms(3))

lemma wait_settled:
  assumes "seen n a w" "owns p s a" "v_phase a = Seen p" "t_result s = Unrun \<Longrightarrow> copied s a \<and> v_ended a"
  shows "tells n (wait_result grace p s) left_settled w"
proof -
  have o: "owns p (s\<lparr>t_selector := False\<rparr>) a" "owns p (s\<lparr>t_selector := False\<rparr>) (at_phase a (Unseen p))"
    using assms by (simp_all add: owns_def)
  show ?thesis
    unfolding wait_result_def Let_def
  proof (rule under_known [OF tells_neutral(1) [OF assms(1)]], goal_cases)
    case (3 u w1)
    from 3(2) show ?case
    proof (rule under_known [OF tells_stop_group], goal_cases)
      case (3 u w2)
      have "same_process p (v_phase a)" using assms by (simp add: owns_def)
      then show ?case
        by (rule under_known [OF tells_await [OF 3(2)]])
          (use o assms in \<open>auto intro!: tells_pure(1) simp: left_settledI owns_settled left_settled_def settled_def owns_def
            copied_def passed_def\<close>)
    qed (use assms o in \<open>auto intro: left_settledI owns_settled\<close>)
  qed (use assms o in \<open>auto intro: left_settledI owns_settled\<close>)
qed

lemma attend_settled:
  assumes "seen n a w" "owns p s a" "copied s a"
  shows "tells n (attend timeout grace start p s) left_settled w"
proof -
  let ?s = "s\<lparr>t_selector := True, t_watching := True\<rparr>"
  have o: "owns p (s\<lparr>t_selector := True\<rparr>) a" "owns p ?s a" "copied ?s a"
    using assms by (simp_all add: owns_def copied_def)
  show ?thesis
    unfolding attend_def Let_def
  proof (rule under_known [OF tells_neutral(1) [OF assms(1)]], goal_cases)
    case (3 u w1)
    show ?case
    proof (rule under_known [OF tells_neutral(1) [OF 3(2)]], goal_cases)
      case (3 u w2)
      show ?case
        by (rule tells_go_on [OF collect_collected [OF 3(2), of p ?s]])
          (use o in \<open>auto simp: collected_def owns_settled left_settled_def intro: wait_settled\<close>)
    qed (use o in \<open>auto intro: left_settledI owns_settled\<close>)
  qed (use assms in \<open>auto intro: left_settledI owns_settled\<close>)
qed

text \<open>Before the process is started.\<close>

definition idle :: "view \<Rightarrow> bool" where
  "idle a \<longleftrightarrow> v_phase a = Unstarted \<and> v_wrote a = [] \<and> v_read a = []"

lemma idle_settled: "idle a \<Longrightarrow> settled (fresh_run\<lparr>t_reason := x\<rparr>) a" "idle a \<Longrightarrow> settled fresh_run a"
  by (simp_all add: idle_def settled_def fresh_run_def)

lemma child_settled:
  assumes "seen n a w" "idle a"
  shows "tells n (with_child timeout grace start argv cwd env fresh_run) left_settled w"
proof -
  have "tells n (attempt not_found (r_int (Spawn argv cwd env)))
    (\<lambda>r b. case r of Inr (Inr p) \<Rightarrow> b = at_phase a (Unseen p) | _ \<Rightarrow> b = a) w"
    by (rule tells_attempt [OF tells_spawn [OF assms(1)]]) (use assms in \<open>auto simp: idle_def\<close>)
  then show ?thesis
    unfolding with_child_def
    by (rule tells_under)
      (use assms(2) in \<open>auto split: sum.splits intro!: left_settledI idle_settled tells_pure(1) attend_settled
        simp: owns_def copied_def fresh_run_def idle_def settled_def\<close>)
qed

lemma attempted_settled:
  assumes "seen n a w" "idle a"
  shows "tells n (attempted_run timeout grace start argv cwd env log) left_settled w"
proof -
  have "tells n (with_log log (with_child timeout grace start argv cwd env) fresh_run) left_settled v"
    if v: "seen n a v" for v
    unfolding with_log_def
  proof (rule under_known [OF tells_neutral(1) [OF v]], goal_cases)
    case (3 u w1)
    show ?case
      by (rule tells_seq [OF child_settled [OF 3(2) assms(2)]])
        (auto simp: left_settled_def intro!: tells_under [OF tells_neutral(1)] tells_pure(1))
  qed (use assms(2) in \<open>auto intro: left_settledI idle_settled\<close>)
  then show ?thesis
    unfolding attempted_run_def
    by (rule_tac under_known [OF tells_neutral(2) [OF assms(1)]])
      (use assms(2) in \<open>auto intro!: left_settledI idle_settled tells_pure(1)\<close>)
qed

section \<open>The whole run\<close>

text \<open>
  What the record says of the process: nothing lost unless the record says so, and a pass means that the
  process ended by itself with code 0, that its output was read to the end and is the log.
\<close>

definition accounted :: "running \<Rightarrow> view \<Rightarrow> bool" where
  "accounted s a \<longleftrightarrow> length (v_wrote a) \<le> MAX_LOG \<and> (t_result s = Pass \<longrightarrow> passed s a) \<and>
     (t_child s = None \<longrightarrow> v_phase a = Unstarted) \<and>
     (\<forall>p. same_process p (v_phase a) \<longrightarrow> t_result s = Fail \<and> t_reason s \<in> {Some Reaper_lost, Some Cleanup_incomplete})"

text \<open>After the handlers: a process no longer owned is reaped, or lost.\<close>

definition answered :: "running \<Rightarrow> view \<Rightarrow> bool" where
  "answered s a \<longleftrightarrow> (case t_child s of Some p \<Rightarrow> if t_owned s then owns p s a else accounted s a | None \<Rightarrow> accounted s a)"

lemma settled_answered: "settled s a \<Longrightarrow> answered (fst (run_handled s st)) a"
  by (auto simp: settled_def answered_def accounted_def run_handled_def owns_def split: option.splits status.splits if_splits)

lemma release_accounted:
  assumes "seen n a w" "answered s a"
  shows "tells n (release grace s) (\<lambda>r b. case r of Inr s' \<Rightarrow> accounted s' b \<and> t_child s' = t_child s | Inl _ \<Rightarrow> length (v_wrote b) \<le> MAX_LOG) w"
proof -
  have cleanup: "tells n (attempt cleanup_caught (seq (r_bool (Observe p)) (\<lambda>_. seq (stop_group grace p) (\<lambda>_. r_int (Await p)))))
      (\<lambda>r b. length (v_wrote b) \<le> MAX_LOG \<and> (\<forall>x. r = Inr (Inr x) \<longrightarrow> (\<exists>rc. v_phase b = Reaped p rc))) w" if o: "owns p s a" for p
  proof (rule tells_attempt)
    have "same_process p (v_phase a)" "length (v_wrote a) \<le> MAX_LOG" using o by (simp_all add: owns_def)
    then show "tells n (seq (r_bool (Observe p)) (\<lambda>_. seq (stop_group grace p) (\<lambda>_. r_int (Await p))))
      (\<lambda>r b. length (v_wrote b) \<le> MAX_LOG \<and> (\<forall>x. r = Inr x \<longrightarrow> (\<exists>rc. v_phase b = Reaped p rc))) w"
      by (intro seq_known [OF tells_observe [OF assms(1)]] seq_known [OF tells_stop_group [where a = "at_phase a (Seen p)"]] tells_mono [OF tells_await [where a = "at_phase a (Seen p)"]]) auto
  qed auto
  show ?thesis
  proof (cases "\<exists>p. t_child s = Some p \<and> t_owned s")
    case True
    then obtain p where p: "t_child s = Some p" "t_owned s" by blast
    with assms(2) have "owns p s a" by (simp add: answered_def)
    with p show ?thesis
      by (auto simp: release_def accounted_def owns_def split: sum.splits intro!: tells_seq [OF cleanup] tells_pure(1))
  next
    case False
    then have "release grace s = ret s" by (auto simp: release_def split: option.splits)
    with False assms show ?thesis by (auto simp: answered_def split: option.splits intro!: tells_pure(1))
  qed
qed

text \<open>The promise, over the record that is returned.\<close>

definition promise :: "run_record res \<Rightarrow> view \<Rightarrow> bool" where
  "promise r a \<longleftrightarrow> length (v_wrote a) \<le> MAX_LOG \<and>
     (case r of
        Inl _ \<Rightarrow> True
      | Inr u \<Rightarrow>
          (u_result u = Pass \<longrightarrow> u_code u = Some 0 \<and> u_reaped u \<and> u_reason u = None \<and> (\<exists>p. v_phase a = Reaped p 0) \<and>
             v_ended a \<and> v_wrote a = v_read a \<and> u_bytes u = Some (length (v_wrote a))) \<and>
          (\<forall>p. same_process p (v_phase a) \<longrightarrow> u_result u = Fail \<and> u_reason u \<in> {Some Reaper_lost, Some Cleanup_incomplete}))"

lemma conclude_promise:
  assumes "seen n a w" "answered s a"
  shows "tells n (conclude grace start argv cwd log s) promise w"
proof -
  have small: "length (v_wrote a) \<le> MAX_LOG"
    using assms(2) by (auto simp: answered_def accounted_def owns_def split: option.splits if_splits)
  have digest: "tells n (log_digest log) (\<lambda>r b. b = x) v" if "seen n x v" for v x
    unfolding log_digest_def
    by (intro seq_known [OF tells_neutral(2) [OF that]]) (auto intro!: seq_known [OF tells_files] tells_pure(1))
  have maybe: "tells n (if c then r_unit q else ret ()) (\<lambda>r b. b = x) v"
    "tells n (if c then ret () else r_unit q) (\<lambda>r b. b = x) v" if "seen n x v" "neutral q" for c q v x
    using that by (auto intro!: tells_neutral tells_pure(1))
  show ?thesis
    unfolding conclude_def
  proof (rule seq_known [OF maybe(1) [OF assms(1)]], goal_cases)
    case (3 u v)
    show ?case
    proof (rule tells_seq [OF release_accounted [OF 3 assms(2)]], goal_cases)
      case (2 s' b v')
      then have b: "accounted s' b" by simp
      have "length (v_wrote b) \<le> MAX_LOG" using b by (simp add: accounted_def)
      then show ?case
        by (intro seq_known [OF maybe(2) [OF 2(1)]] seq_known [OF tells_clock(1)] seq_known [OF digest] tells_pure(1))
          (use b in \<open>auto simp: promise_def accounted_def passed_def\<close>)
    qed (simp add: promise_def)
  qed (simp_all add: promise_def small)
qed

text \<open>The conversation of a run, read from the state it starts in.\<close>

lemma run_tells:
  "wp (run_command argv cwd log env timeout grace)
     (\<lambda>r v. \<exists>l b. w_log v = w_log w @ l \<and> reacts start_view l = Some b \<and> promise r b) w"
proof -
  let ?n = "w_log w" and ?m = "run_command argv cwd log env timeout grace"
  have start: "seen ?n start_view w" by (simp add: seen_def)
  have idle: "idle start_view" "promise (Inl e) start_view" for e
    by (simp_all add: idle_def start_view_def promise_def)
  have raised: "promise r b \<Longrightarrow> promise (Inl e) b" for r b e by (simp add: promise_def)
  have "tells ?n ?m promise w"
    unfolding run_command_def
  proof (rule tells_seq [OF tells_check [OF start]], goal_cases)
    case (2 u b v)
    then have "seen ?n start_view v" by simp
    then show ?case
    proof (rule seq_known [OF tells_clock(1)], goal_cases)
      case (2 t v1)
      show ?case
      proof (rule tells_seq [OF attempted_settled [OF 2 idle(1)]], goal_cases)
        case (2 x b v2)
        then obtain s st where x: "x = (s, st)" and b: "settled s b" by (auto simp: left_settled_def)
        have "answered (fst (run_handled s st)) b" using b by (rule settled_answered)
        with 2(1) x show ?case
          by (auto split: prod.splits option.splits intro!: tells_seq [OF conclude_promise] tells_pure raised)
      qed (simp add: left_settled_def)
    qed (simp add: idle)
  qed (simp add: idle)
  then show ?thesis
    by (auto simp: tells_def seen_def elim!: wp_mono)
qed

section \<open>What is started\<close>

fun starts_only :: "pystr list \<Rightarrow> pystr \<Rightarrow> (pystr \<times> pystr) list \<Rightarrow> rcall \<Rightarrow> bool" where
  "starts_only argv cwd env (Spawn a d e) \<longleftrightarrow> a = argv \<and> d = cwd \<and> e = env"
| "starts_only argv cwd env _ \<longleftrightarrow> True"

lemma only_r [only_rules]:
  "C c \<Longrightarrow> only C (r_call c f)" "C c \<Longrightarrow> only C (r_unit c)" "C c \<Longrightarrow> only C (r_int c)" "C c \<Longrightarrow> only C (r_bool c)"
  "C (Read_output 65536) \<Longrightarrow> only C read_output" "C Now \<Longrightarrow> only C clock_now" "C (Pause d) \<Longrightarrow> only C (pause d)"
  "C Select \<Longrightarrow> only C select_output"
  by (auto simp: only_def r_unit_def r_int_def r_bool_def r_call_def read_output_def clock_now_def pause_def select_output_def
      logged_def Let_def split: ranswer.splits bool.splits)

lemma only_on_files [only_rules]: "(\<And>c. C (File c)) \<Longrightarrow> only C (on_files m)"
  by (auto simp: only_def on_files_def split: prod.splits)

lemma collect_asks:
  assumes "\<And>c. c \<in> {Observe child, Now, Select, Read_output 65536, Unwatch_output, Pause 10000000} \<union> range Write_log \<Longrightarrow> C c"
  shows "asks C (collect timeout start child s) w"
  using assms
proof (induction timeout start child s w rule: collect.induct)
  case (1 timeout start child s w)
  show ?case
    by (subst collect_unfold, intro asks_under asks_branch) (use 1 in \<open>auto intro!: asks_only only_rules\<close>)
qed

lemma starts_collect [only_rules]: "only (starts_only argv cwd env) (collect timeout start child s)"
  unfolding only_asks by (auto intro!: collect_asks)

lemma starts_stages [only_rules]:
  "only (starts_only argv cwd env) (stop_group grace child)"
  "only (starts_only argv cwd env) (wait_result grace child s)"
  "only (starts_only argv cwd env) (attend timeout grace start child s)"
  "only (starts_only argv cwd env) (with_child timeout grace start argv cwd env s)"
  "only (starts_only argv cwd env) (release grace s)"
  "only (starts_only argv cwd env) (log_digest log)"
proof -
  show stop: "only (starts_only argv cwd env) (stop_group grace child)" for child
    unfolding stop_group_def by (auto intro!: only_rules)
  have wait: "only (starts_only argv cwd env) (wait_result grace child s)" for child s
    unfolding wait_result_def Let_def by (intro only_rules stop) simp_all
  have attend: "only (starts_only argv cwd env) (attend timeout grace start child s)" for child s
    unfolding attend_def Let_def by (intro only_rules wait) simp_all
  show "only (starts_only argv cwd env) (wait_result grace child s)"
    "only (starts_only argv cwd env) (attend timeout grace start child s)"
    by (rule wait attend)+
  show "only (starts_only argv cwd env) (with_child timeout grace start argv cwd env s)"
    unfolding with_child_def by (auto intro!: only_rules attend split: sum.splits)
  show "only (starts_only argv cwd env) (release grace s)"
    unfolding release_def by (auto intro!: only_rules stop split: option.splits)
  show "only (starts_only argv cwd env) (log_digest log)"
    unfolding log_digest_def by (auto intro!: only_rules)
qed

lemma starts_run_command: "only (starts_only argv cwd env) (run_command argv cwd log env timeout grace)"
proof -
  have "only (starts_only argv cwd env) (conclude grace start argv cwd log s)" for start s
    unfolding conclude_def by (auto intro!: only_rules)
  then show ?thesis
    unfolding run_command_def attempted_run_def with_log_def Let_def
    by (auto intro!: only_rules split: prod.splits option.splits)
qed

section \<open>Arguments of the test plan\<close>

text \<open>An argument that stays below is never refused when the test is run.\<close>

lemma pure_parts_plain:
  "list_all (\<lambda>p. p \<noteq> [] \<and> p \<noteq> str ''..'' \<and> p \<noteq> str ''.'' \<and> 47 \<notin> set p) (split_on 47 r) \<Longrightarrow> pure_parts r = split_on 47 r"
  by (auto simp: pure_parts_def filter_id_conv list_all_iff)

lemma stays_below_expand:
  assumes "stays_below (JStr s)"
  shows "expand_argument temp s = Inr s \<and> str ''..'' \<notin> set (pure_parts s) \<and> take 1 s \<noteq> str ''/'' \<or>
    (\<exists>r. s = str ''$TEMP/'' @ r \<and> expand_argument temp s = Inr (foldl slash temp (split_on 47 r)) \<and>
       list_all (\<lambda>p. p \<noteq> [] \<and> p \<noteq> str ''..'' \<and> p \<noteq> str ''.'' \<and> 47 \<notin> set p) (split_on 47 r))"
proof -
  from assms obtain r where r: "s = r \<or> s = str ''$TEMP/'' @ r" "36 \<notin> set r"
    "list_all (\<lambda>p. p \<noteq> [] \<and> p \<noteq> str ''..'' \<and> p \<noteq> str ''.'' \<and> 47 \<notin> set p) (split_on 47 r)"
    by (auto simp: stays_below_def)
  have parts: "str ''..'' \<notin> set (pure_parts r)" using r(3) by (auto simp: pure_parts_plain list_all_iff)
  have tail: "r \<noteq> []" using r(3) by auto
  have "take 1 r \<noteq> str ''/''"
  proof
    assume "take 1 r = str ''/''"
    then have "r = 47 # tl r" by (cases r) (auto simp: str_def)
    then have "split_on 47 r = [] # split_on 47 (tl r)" by (metis split_on.simps(2))
    with r(3) show False by simp
  qed
  from r(1) show ?thesis
  proof
    assume "s = r"
    moreover have "take 6 r \<noteq> str ''$TEMP/''"
    proof
      assume "take 6 r = str ''$TEMP/''"
      then have "36 \<in> set (take 6 r)" by (simp add: str_def)
      then show False using r(2) set_take_subset by fastforce
    qed
    ultimately show ?thesis using r \<open>take 1 r \<noteq> str ''/''\<close> parts by (simp add: expand_argument_def in_temp_def ensure_def)
  next
    assume "s = str ''$TEMP/'' @ r"
    then show ?thesis using r parts tail \<open>take 1 r \<noteq> str ''/''\<close> by (simp add: expand_argument_def in_temp_def pure_parts_plain ensure_def str_def Let_def)
  qed
qed

section \<open>A run\<close>

text \<open>A process that writes two bytes and ends with 0.\<close>

definition demo_run_os :: "(rcall \<times> ranswer) list \<Rightarrow> rcall \<Rightarrow> ranswer" where
  "demo_run_os l c =
     (case c of
        Default_sigchld \<Rightarrow> Yes_no True
      | Spawn _ _ _ \<Rightarrow> Count 42
      | Observe _ \<Rightarrow> Yes_no True
      | Select \<Rightarrow> Yes_no True
      | Read_output n \<Rightarrow> Data (if list_ex (\<lambda>e. fst e = Read_output n) l then [] else [111, 107])
      | Await _ \<Rightarrow> Count 0
      | Log_there _ \<Rightarrow> Yes_no False
      | _ \<Rightarrow> Okay)"

definition demo_run_machine :: "(rcall, ranswer) machine" where
  "demo_run_machine = \<lparr>w_os = demo_run_os, w_log = [], w_fds = [], w_cwd = [], w_time = 0\<rparr>"

definition demo_argv :: "pystr list" where
  "demo_argv = [str ''/bin/true'']"
lemmas run_eval = seq_def under_def branch_def go_on_def catch_def attempt_def check_def ret_def raise_def r_unit_def r_int_def
  r_bool_def r_call_def read_output_def clock_now_def pause_def select_output_def answer_of_def logged_def demo_run_os_def

lemma demo_run_passes:
  "fst (run_command demo_argv (str ''/srv'') (str ''/log'') [] 600 6 demo_run_machine) =
     Inr \<lparr>u_argv = demo_argv, u_cwd = str ''/srv'', u_result = Pass, u_reason = None, u_code = Some 0, u_reaped = True,
          u_bytes = Some 2, u_seconds = 6, u_sha256 = None\<rparr>"
  apply (simp add: run_command_def attempted_run_def with_log_def with_child_def attend_def Let_def run_eval demo_run_machine_def
      fresh_run_def SECOND_def)
  apply (subst collect.simps, simp add: run_eval MAX_LOG_def)
  apply (subst collect.simps, simp add: run_eval MAX_LOG_def)
  apply (subst collect.simps, simp add: run_eval MAX_LOG_def wait_result_def stop_group_def run_handled_def conclude_def release_def
     log_digest_def Let_def)
  done

end
