(* ===== verification/Source_Tree_Spec.thy ===== *)
theory Source_Tree_Spec
  imports Source_Tree Readers Trust_Spec "HOL-Library.Multiset"
begin

text \<open>
  The digest of the sources stands for the files: the text it is taken of can be read back, so equal digests mean equal
  files, unless SHA-256 collides. The walk refines the plain listing of a tree of files.
\<close>

section \<open>UTF-8\<close>

lemma utf8_char_bytes: "scalar c \<Longrightarrow> \<forall>x\<in>set (utf8_char c). x < 256"
  by (auto simp: utf8_char_def scalar_def)

lemma utf8_char_read: "scalar c \<Longrightarrow> utf8 (utf8_char c @ r) = map_option ((#) c) (utf8 r)"
proof -
  assume c: "scalar c"
  consider "c < 128" | "128 \<le> c" "c < 2048" | "2048 \<le> c" "c < 65536" | "65536 \<le> c" by linarith
  then show ?thesis
  proof cases
    case 2
    define q m where "q = c div 64" and "m = c mod 64"
    with 2 have "utf8_char c = [192 + q, 128 + m]" "2 \<le> q" "q < 32" "m < 64" "q * 64 + m = c"
      by (simp_all add: utf8_char_def)
    then show ?thesis by (simp add: cont_def)
  next
    case 3
    define q r' m where "q = c div 4096" and "r' = c div 64 mod 64" and "m = c mod 64"
    with 3 have u: "utf8_char c = [224 + q, 128 + r', 128 + m]" and less: "r' < 64" "m < 64"
      by (simp_all add: utf8_char_def)
    have "c div 64 div 64 = q" by (simp add: q_def div_mult2_eq [symmetric])
    then have "c = (q * 64 + r') * 64 + m" unfolding r'_def m_def by (metis div_mult_mod_eq)
    with u less c 3 show ?thesis by (auto simp: cont_def scalar_def)
  next
    case 4
    define q r1 r2 m where "q = c div 262144" and "r1 = c div 4096 mod 64" and "r2 = c div 64 mod 64" and "m = c mod 64"
    with 4 have u: "utf8_char c = [240 + q, 128 + r1, 128 + r2, 128 + m]" and less: "r1 < 64" "r2 < 64" "m < 64"
      by (simp_all add: utf8_char_def)
    have "c div 4096 div 64 = q" "c div 64 div 64 = c div 4096" by (simp_all add: q_def div_mult2_eq [symmetric])
    then have "c = ((q * 64 + r1) * 64 + r2) * 64 + m" unfolding r1_def r2_def m_def by (metis div_mult_mod_eq)
    with u less c 4 show ?thesis by (auto simp: cont_def scalar_def)
  qed (simp add: utf8_char_def)
qed

lemma utf8_read: "list_all scalar s \<Longrightarrow> utf8 (concat (map utf8_char s)) = Some s"
  by (induction s) (simp_all add: utf8_char_read)

lemma decode_encode: "encode s = Inr b \<Longrightarrow> utf8_decode b = Some s"
proof -
  assume b: "encode s = Inr b"
  then have s: "list_all scalar s" "b = map of_nat (concat (map utf8_char s))" by (auto simp: encode_def split: if_splits)
  have "map unat (map of_nat xs :: bytes) = xs" if "\<forall>x\<in>set xs. x < 256" for xs
    using that by (induction xs) (simp_all add: unat_of_nat)
  moreover have "\<forall>x\<in>set (concat (map utf8_char s)). x < 256"
    using s(1) utf8_char_bytes by (auto simp: list_all_iff)
  ultimately show ?thesis using s utf8_read by (simp add: utf8_decode_def)
qed

lemma encode_inject: "encode s = Inr b \<Longrightarrow> encode t = Inr b \<Longrightarrow> s = t"
  using decode_encode by (metis option.inject)

section \<open>The text of the sources\<close>

text \<open>A line can be read back: the digest has 64 characters and a name no line feed.\<close>

definition line_safe :: "pystr \<times> pystr \<Rightarrow> bool" where
  "line_safe x \<longleftrightarrow> 10 \<notin> set (fst x) \<and> 10 \<notin> set (snd x) \<and> length (snd x) = 64"

definition subject_line :: "pystr \<times> pystr \<Rightarrow> pystr" where
  "subject_line x = snd x @ str ''  '' @ fst x"

lemma subject_lines_join: "subject_lines files = concat (map (\<lambda>x. subject_line x @ [10]) (sort files))"
  by (simp add: subject_lines_def subject_line_def split_def)

lemma subject_line_inject: "line_safe x \<Longrightarrow> line_safe y \<Longrightarrow> subject_line x = subject_line y \<Longrightarrow> x = y"
  by (cases x; cases y) (simp add: subject_line_def line_safe_def)

lemma lines_inject:
  "concat (map (\<lambda>x. subject_line x @ [10]) xs) = concat (map (\<lambda>x. subject_line x @ [10]) ys) \<Longrightarrow>
   list_all line_safe xs \<Longrightarrow> list_all line_safe ys \<Longrightarrow> xs = ys"
proof (induction xs arbitrary: ys)
  case (Cons x xs)
  then obtain y ys' where ys: "ys = y # ys'" by (cases ys) auto
  have free: "10 \<notin> set (subject_line z)" if "line_safe z" for z
    using that by (simp add: subject_line_def line_safe_def str_def)
  from Cons.prems ys have eq: "subject_line x @ 10 # concat (map (\<lambda>x. subject_line x @ [10]) xs) =
      subject_line y @ 10 # concat (map (\<lambda>x. subject_line x @ [10]) ys')" and safe: "line_safe x" "line_safe y"
    by simp_all
  have "takeWhile (\<lambda>c. c \<noteq> 10) (subject_line z @ 10 # r) = subject_line z" if "line_safe z" for z r
    using free [OF that] by (subst takeWhile_append2) auto
  with eq safe have same: "subject_line x = subject_line y" by metis
  with eq have "concat (map (\<lambda>x. subject_line x @ [10]) xs) = concat (map (\<lambda>x. subject_line x @ [10]) ys')" by simp
  with Cons.IH [of ys'] Cons.prems ys have "xs = ys'" by simp
  with subject_line_inject [OF safe same] ys show ?case by simp
next
  case Nil
  then show ?case by (cases ys) auto
qed

lemma subject_lines_inject:
  assumes "subject_lines xs = subject_lines ys" "list_all line_safe xs" "list_all line_safe ys"
  shows "mset xs = mset ys"
proof -
  have "sort xs = sort ys"
    using assms by (intro lines_inject) (auto simp: subject_lines_join list_all_iff)
  then show ?thesis by (metis mset_sort)
qed

lemma subject_lines_mset: "mset xs = mset ys \<Longrightarrow> subject_lines xs = subject_lines ys"
  by (metis subject_lines_join properties_for_sort mset_sort sorted_sort)

text \<open>The digest of a list of files, and the bytes that are hashed for it.\<close>

definition tree_entry :: "pystr list \<times> bytes \<Rightarrow> pystr \<times> pystr" where
  "tree_entry x = (posix (fst x), sha (snd x))"

definition subject_of :: "(pystr list \<times> bytes) list \<Rightarrow> pystr res" where
  "subject_of files = subject (map tree_entry files)"

definition hashed :: "(pystr list \<times> bytes) list \<Rightarrow> bytes set" where
  "hashed files = snd ` set files \<union>
     {ascii_bytes (str ''MISSION-ENGINEERING-SOURCE-v1'' @ [10]) @ raw |raw. encode (subject_lines (map tree_entry files)) = Inr raw}"

text \<open>Two of them with the same digest.\<close>

definition collides :: "bytes set \<Rightarrow> bool" where
  "collides A \<longleftrightarrow> (\<exists>a\<in>A. \<exists>b\<in>A. a \<noteq> b \<and> sha a = sha b)"

text \<open>The names are not empty and hold no slash, which is so for every name, and no line feed.\<close>

definition plain_names :: "(pystr list \<times> bytes) list \<Rightarrow> bool" where
  "plain_names files \<longleftrightarrow> (\<forall>(r, b)\<in>set files. r \<noteq> [] \<and> (\<forall>n\<in>set r. n \<noteq> [] \<and> 47 \<notin> set n \<and> 10 \<notin> set n))"

lemma posix_inject:
  assumes "r \<noteq> []" "r' \<noteq> []" "\<forall>n\<in>set r. 47 \<notin> set n" "\<forall>n\<in>set r'. 47 \<notin> set n" "posix r = posix r'"
  shows "r = r'"
  using assms split_join [of r 47] split_join [of r' 47] by (metis posix_def)

lemma posix_line: "\<forall>n\<in>set r. 10 \<notin> set n \<Longrightarrow> 10 \<notin> set (posix r)"
  unfolding posix_def by (induction "47 :: nat" r rule: join_with.induct) auto

lemma tree_entry_safe:
  assumes "plain_names files"
  shows "list_all line_safe (map tree_entry files)"
proof -
  have "10 \<notin> set (sha b)" for b
    using is_digest_sha [of b] by (auto simp: is_digest_def list_all_iff is_hex_def is_digit_def)
  with assms posix_line show ?thesis
    by (fastforce simp: plain_names_def list_all_iff line_safe_def tree_entry_def)
qed

lemma subject_of_inject:
  assumes "subject_of xs = Inr s" "subject_of ys = Inr s" "plain_names xs" "plain_names ys" "\<not> collides (hashed xs \<union> hashed ys)"
  shows "mset xs = mset ys"
proof -
  have same: "a = b" if "a \<in> hashed xs \<union> hashed ys" "b \<in> hashed xs \<union> hashed ys" "sha a = sha b" for a b
    using that assms(5) unfolding collides_def by blast
  let ?tag = "ascii_bytes (str ''MISSION-ENGINEERING-SOURCE-v1'' @ [10])"
  from assms(1,2) obtain a b where raw: "encode (subject_lines (map tree_entry xs)) = Inr a" "encode (subject_lines (map tree_entry ys)) = Inr b"
    and "sha (?tag @ a) = sha (?tag @ b)"
    by (auto simp: subject_of_def subject_def)
  with same [of "?tag @ a" "?tag @ b"] have "a = b" by (auto simp: hashed_def)
  with raw encode_inject have "subject_lines (map tree_entry xs) = subject_lines (map tree_entry ys)" by blast
  then have "image_mset tree_entry (mset xs) = image_mset tree_entry (mset ys)"
    using subject_lines_inject tree_entry_safe assms(3,4) by (metis mset_map)
  moreover have "x = y" if "x \<in># mset xs" "y \<in># mset ys" "tree_entry x = tree_entry y" for x y
  proof (rule prod_eqI)
    from that assms(3,4) show "fst x = fst y"
      by (intro posix_inject) (auto simp: plain_names_def tree_entry_def)
    from that same [of "snd x" "snd y"] show "snd x = snd y" by (auto simp: hashed_def tree_entry_def)
  qed
  ultimately show ?thesis by (rule multiset.inj_map_strong [rotated])
qed

section \<open>The tree\<close>

text \<open>A tree of files as the kernel shows it; \<open>Closed\<close> is a directory that cannot be listed.\<close>

datatype node = Plain bytes | Folder "(pystr \<times> node) list" | Closed

fun is_folder :: "node \<Rightarrow> bool" where
  "is_folder (Plain b) \<longleftrightarrow> False"
| "is_folder _ \<longleftrightarrow> True"

definition ignored_file :: "pystr \<Rightarrow> bool" where
  "ignored_file n \<longleftrightarrow> excluded n \<or> has_suffix (str ''.pyc'') n"

text \<open>The specification of the walk: the files below, in the order in which the tree happens to be given.\<close>

fun contents :: "pystr list \<Rightarrow> node \<Rightarrow> (pystr list \<times> bytes) list" where
  "contents rel (Folder es) = concat (map (\<lambda>(n, c).
     case c of
       Plain b \<Rightarrow> if ignored_file n then [] else [(rel @ [n], b)]
     | _ \<Rightarrow> if excluded n then [] else contents (rel @ [n]) c) es)"
| "contents rel _ = []"

text \<open>The operating system shows the tree at a path, and nothing changes.\<close>

definition shows_directory :: "os \<Rightarrow> pystr \<Rightarrow> bool" where
  "shows_directory os p \<longleftrightarrow> encodable p \<and> (\<forall>l. os l (Is_directory p) = Is_int 1 \<and> os l (Is_link p) = Is_int 0)"

definition shows_file :: "os \<Rightarrow> pystr \<Rightarrow> bytes \<Rightarrow> bool" where
  "shows_file os p b \<longleftrightarrow> (\<forall>l. os l (Is_directory p) = Is_int 0) \<and>
     ends os (\<lambda>_. False) (\<lambda>x. x = b) (read_regular p READ_LIMIT)"

fun serves :: "os \<Rightarrow> pystr \<Rightarrow> node \<Rightarrow> bool" where
  "serves os p (Plain b) \<longleftrightarrow> shows_file os p b"
| "serves os p Closed \<longleftrightarrow> shows_directory os p \<and> (\<forall>l. \<exists>n. os l (Scandir p) = Fails n)"
| "serves os p (Folder es) \<longleftrightarrow> shows_directory os p \<and> length p < PATH_MAX \<and>
     (\<forall>l. os l (Scandir p) = Is_names (map fst es)) \<and> distinct (map fst es) \<and>
     (\<forall>(n, c)\<in>set es. entry_name n \<and> serves os (slash p n) c)"

section \<open>The walk refines the listing\<close>

lemma serves_directory: "serves os p c \<Longrightarrow> os l (Is_directory p) = Is_int (if is_folder c then 1 else 0)"
  by (cases c) (auto simp: shows_directory_def shows_file_def)

lemma serves_link: "serves os p c \<Longrightarrow> is_folder c \<Longrightarrow> encodable p \<and> os l (Is_link p) = Is_int 0"
  by (cases c) (auto simp: shows_directory_def)

lemma ends_int: "(\<And>l. os l c = Is_int i) \<Longrightarrow> ends os P (\<lambda>x. x = i) (sys_int c)"
  by (simp add: ends_def sys_int_def answer_of_def logged_def)

lemma ends_asked: "(\<And>l. os l c = Is_int i) \<Longrightarrow> ends os P (\<lambda>b. b = (i \<noteq> 0)) (asked c)"
  unfolding asked_def
  by (rule ends_seq [where R = "\<lambda>r. r = Inr i"])
    (auto simp: ends_def sys_int_def answer_of_def logged_def attempt_def catch_def seq_def ret_def)

lemma ends_is_symlink: "(\<And>l. os l (Is_link p) = Is_int 0) \<Longrightarrow> ends os P (\<lambda>b. \<not> b) (is_symlink p)"
  unfolding is_symlink_def
  by (intro ends_if ends_ret ends_seq [OF ends_int [where i = 0]]) auto

lemma scan_closed: "shows_directory os p \<Longrightarrow> (\<And>l. \<exists>n. os l (Scandir p) = Fails n) \<Longrightarrow> ends os P (\<lambda>r. r = None) (scan p)"
  unfolding scan_def
  by (rule ends_seq_check, simp add: shows_directory_def, rule ends_seq [where R = "\<lambda>r. \<exists>e. r = Inl e"])
    (auto intro!: ends_ret simp: ends_def attempt_def catch_def seq_def ret_def sys_names_def answer_of_def logged_def
      split: answer.splits, metis answer.distinct)

lemma list_all2_map_eq: "list_all2 (\<lambda>x y. y = f x) xs ys \<longleftrightarrow> ys = map f xs"
  by (auto simp: list_all2_conv_all_nth intro: nth_equalityI)

lemma list_all2_maps: "list_all2 (\<lambda>x y. m y = f x) xs ys \<Longrightarrow> map m ys = map f xs"
  by (induction xs ys rule: list_all2_induct) auto

definition listing :: "(pystr \<times> node) list \<Rightarrow> (pystr \<times> bool) list" where
  "listing es = map (\<lambda>(n, c). (n, is_folder c)) es"

lemma scan_folder:
  assumes "serves os p (Folder es)"
  shows "ends os P (\<lambda>r. r = Some (listing es)) (scan p)"
proof -
  have names: "filter entry_name (map fst es) = map fst es"
    using assms by (auto simp: filter_id_conv)
  have each: "ends os P (list_all2 (\<lambda>n e. e = (n, is_folder (the (map_of es n)))) (map fst es))
      (each (\<lambda>n. seq (asked (Is_directory (slash p n))) (\<lambda>d. ret (n, d))) (map fst es))"
  proof (rule ends_each)
    fix n assume "n \<in> set (map fst es)"
    then obtain c where c: "(n, c) \<in> set es" by auto
    then have "map_of es n = Some c" "serves os (slash p n) c" using assms by auto
    then show "ends os P (\<lambda>e. e = (n, is_folder (the (map_of es n)))) (seq (asked (Is_directory (slash p n))) (\<lambda>d. ret (n, d)))"
      by (intro ends_seq [OF ends_asked [OF serves_directory]] ends_ret) (auto split: if_splits)
  qed
  have eq: "map (\<lambda>n. (n, is_folder (the (map_of es n)))) (map fst es) = listing es"
    using assms by (auto simp: listing_def)
  from each have each: "ends os P (\<lambda>es'. es' = listing es)
      (each (\<lambda>n. seq (asked (Is_directory (slash p n))) (\<lambda>d. ret (n, d))) (map fst es))"
    by (rule ends_mono) (use eq in \<open>auto simp: list_all2_map_eq\<close>)
  have listed: "ends os P (\<lambda>r. r = Inr (map fst es)) (attempt is_os_error (sys_names (Scandir p)))"
    using assms by (simp add: ends_def attempt_def catch_def seq_def ret_def sys_names_def answer_of_def logged_def)
  show ?thesis
    unfolding scan_def
    by (rule ends_seq_check) (use assms in \<open>auto simp: shows_directory_def names intro!: ends_seq [OF listed] ends_seq [OF each] ends_ret\<close>)
qed

lemma sum_list_sort: "sum_list (map f (sort xs)) = sum_list (map f (xs :: 'a :: linorder list) :: 'b :: comm_monoid_add list)"
  by (metis mset_map mset_sort sum_mset_sum_list)

text \<open>What a directory adds, split into its files and its subdirectories.\<close>

lemma contents_split:
  "mset (map f (contents rel (Folder es))) =
     (\<Sum>(n, c)\<leftarrow>filter (\<lambda>(n, c). \<not> is_folder c \<and> \<not> ignored_file n) es. {#case c of Plain b \<Rightarrow> f (rel @ [n], b) | _ \<Rightarrow> undefined#}) +
     (\<Sum>(n, c)\<leftarrow>filter (\<lambda>(n, c). is_folder c \<and> \<not> excluded n) es. mset (map f (contents (rel @ [n]) c)))"
  by (induction es) (auto split: node.splits)

lemma folder_names:
  assumes "distinct (map fst es)" "\<forall>(n, c)\<in>set es. entry_name n"
  shows "sum_list (map F (plain_files (listing es))) =
      (\<Sum>(n, c)\<leftarrow>filter (\<lambda>(n, c). \<not> is_folder c \<and> \<not> ignored_file n) es. F n :: 'b :: comm_monoid_add)"
    and "sum_list (map F (subdirectories (listing es))) = (\<Sum>(n, c)\<leftarrow>filter (\<lambda>(n, c). is_folder c \<and> \<not> excluded n) es. F n)"
proof -
  have "plain_files (listing es) = sort (filter (\<lambda>n. \<not> ignored_file n) (map fst (filter (\<lambda>e. \<not> snd e) (listing es))))"
    by (simp add: plain_files_def ignored_file_def filter_sort)
  then show "sum_list (map F (plain_files (listing es))) =
      (\<Sum>(n, c)\<leftarrow>filter (\<lambda>(n, c). \<not> is_folder c \<and> \<not> ignored_file n) es. F n)"
    by (simp add: sum_list_sort listing_def filter_map o_def split_def conj_commute)
  have "map fst (filter snd (listing es)) = map fst (filter (is_folder \<circ> snd) es)"
    by (simp add: listing_def filter_map o_def split_def)
  then have "subdirectories (listing es) = sort (filter (\<lambda>n. \<not> excluded n) (map fst (filter (is_folder \<circ> snd) es)))"
    using assms(2) by (fastforce simp: subdirectories_def intro!: arg_cong [where f = sort] filter_cong)
  then show "sum_list (map F (subdirectories (listing es))) = (\<Sum>(n, c)\<leftarrow>filter (\<lambda>(n, c). is_folder c \<and> \<not> excluded n) es. F n)"
    by (simp add: sum_list_sort filter_map o_def split_def conj_commute)
qed

lemma sum_map_of:
  assumes "distinct (map fst es)"
  shows "(\<Sum>(n, c)\<leftarrow>filter P es. G n (the (map_of es n))) = (\<Sum>(n, c)\<leftarrow>filter P es. G n c)"
  by (rule arg_cong [where f = sum_list], rule map_cong) (use assms in auto)

lemma zip_all_false: "length xs = length ys \<Longrightarrow> list_all Not ys \<Longrightarrow> map fst (filter (\<lambda>e. \<not> snd e) (zip xs ys)) = xs"
  by (induction xs ys rule: list_induct2) auto

lemma contents_below:
  assumes "(n, c) \<in> set es" "is_folder c" "\<not> excluded n"
  shows "set (contents (rel @ [n]) c) \<subseteq> set (contents rel (Folder es))"
proof -
  have "set (case (n, c) of (n, c) \<Rightarrow> case c of
      Plain b \<Rightarrow> if ignored_file n then [] else [(rel @ [n], b)]
    | _ \<Rightarrow> if excluded n then [] else contents (rel @ [n]) c) \<subseteq> set (contents rel (Folder es))"
    using assms(1) unfolding contents.simps set_concat set_map by (intro Union_upper imageI)
  with assms(2,3) show ?thesis by (cases c) simp_all
qed

lemma os_walk_serves:
  "serves os p c \<Longrightarrow> is_folder c \<Longrightarrow> \<forall>(r, b)\<in>set (contents rel c). f r b = Inr (g r b) \<Longrightarrow>
   ends os (\<lambda>_. False) (\<lambda>xs. mset xs = mset (map (\<lambda>(r, b). g r b) (contents rel c))) (os_walk f rel p)"
proof (induction rel c arbitrary: p rule: contents.induct)
  case (1 rel es)
  let ?N = "\<lambda>n. the (map_of es n)" and ?D = "subdirectories (listing es)" and ?F = "plain_files (listing es)"
  from 1(3) have es: "distinct (map fst es)" "\<And>n c. (n, c) \<in> set es \<Longrightarrow> entry_name n \<and> serves os (slash p n) c"
    and short: "\<not> PATH_MAX \<le> length p" by auto
  have plain: "\<exists>b. ?N n = Plain b \<and> shows_file os (slash p n) b \<and> f (rel @ [n]) b = Inr (g (rel @ [n]) b)" if "n \<in> set ?F" for n
  proof -
    from that obtain c where c: "(n, c) \<in> set es" "\<not> is_folder c" and n: "\<not> ignored_file n"
      by (auto simp: plain_files_def listing_def ignored_file_def)
    then obtain b where b: "c = Plain b" by (cases c) auto
    with c n have "(rel @ [n], b) \<in> set (contents rel (Folder es))" by force
    with 1(5) have "f (rel @ [n]) b = Inr (g (rel @ [n]) b)" by blast
    moreover have "?N n = Plain b" using es(1) c(1) b by simp
    moreover have "shows_file os (slash p n) b" using es(2) [OF c(1)] b by simp
    ultimately show ?thesis by blast
  qed
  have dir: "(n, ?N n) \<in> set es \<and> is_folder (?N n) \<and> \<not> excluded n" if "n \<in> set ?D" for n
    using that es(1) by (auto simp: subdirectories_def listing_def)
  have link: "encodable (slash p n) \<and> os l (Is_link (slash p n)) = Is_int 0" if "n \<in> set ?D" for n l
    using dir [OF that] es(2) serves_link by blast
  have links: "ends os (\<lambda>_. False) (\<lambda>_. True)
      (each (\<lambda>d. seq (is_symlink (slash p d)) (\<lambda>l. check (\<not> l) (Invalid ''directory link''))) ?D)"
    by (rule ends_mono [OF ends_each [where R = "\<lambda>_ _. True"]])
      (auto intro!: ends_seq [OF ends_is_symlink] ends_check simp: link)
  have files: "ends os (\<lambda>_. False) (\<lambda>xs. xs = map (\<lambda>n. case ?N n of Plain b \<Rightarrow> g (rel @ [n]) b | _ \<Rightarrow> undefined) ?F)
      (each (\<lambda>n. seq (read_regular (slash p n) READ_LIMIT) (\<lambda>b. lift (f (rel @ [n]) b))) ?F)"
    unfolding list_all2_map_eq [symmetric]
  proof (rule ends_each)
    fix n assume "n \<in> set ?F"
    then obtain b where b: "?N n = Plain b" "shows_file os (slash p n) b" "f (rel @ [n]) b = Inr (g (rel @ [n]) b)" using plain by blast
    then show "ends os (\<lambda>_. False) (\<lambda>y. y = (case ?N n of Plain b \<Rightarrow> g (rel @ [n]) b | _ \<Rightarrow> undefined))
        (seq (read_regular (slash p n) READ_LIMIT) (\<lambda>b. lift (f (rel @ [n]) b)))"
      by (intro ends_seq [where R = "\<lambda>x. x = b"] ends_lift) (auto simp: shows_file_def)
  qed
  have unlinked: "ends os (\<lambda>_. False) (list_all2 (\<lambda>d b. \<not> b) (rev ?D)) (each (\<lambda>d. asked (Is_link (slash p d))) (rev ?D))"
    by (rule ends_each, rule ends_mono [OF ends_asked [where i = 0]]) (auto simp: link)
  have zip: "map fst (filter (\<lambda>e. \<not> snd e) (zip ?D (rev bs))) = ?D" if "list_all2 (\<lambda>d b. \<not> b) (rev ?D) bs" for bs
    using that by (intro zip_all_false) (auto simp: list_all2_conv_all_nth list_all_length rev_nth)
  have below: "ends os (\<lambda>_. False) (list_all2 (\<lambda>d ys. mset ys = mset (map (\<lambda>(r, b). g r b) (contents (rel @ [d]) (?N d)))) ?D)
      (each (\<lambda>d. os_walk f (rel @ [d]) (slash p d)) ?D)"
  proof (rule ends_each)
    fix d assume d: "d \<in> set ?D"
    then obtain c where c: "(d, c) \<in> set es" "?N d = c" "is_folder c" "\<not> excluded d" using dir by blast
    then have "serves os (slash p d) c" using es(2) by blast
    moreover have "set (contents (rel @ [d]) c) \<subseteq> set (contents rel (Folder es))"
      using c by (intro contents_below)
    ultimately have "serves os (slash p d) c" "\<forall>(r, b)\<in>set (contents (rel @ [d]) c). f r b = Inr (g r b)"
      using 1(5) by blast+
    then show "ends os (\<lambda>_. False) (\<lambda>ys. mset ys = mset (map (\<lambda>(r, b). g r b) (contents (rel @ [d]) (?N d))))
        (os_walk f (rel @ [d]) (slash p d))"
      using "1.IH" c by (cases c) auto
  qed
  have F: "mset (map (\<lambda>n. case ?N n of Plain b \<Rightarrow> g (rel @ [n]) b | _ \<Rightarrow> undefined) ?F) + mset (concat yss) =
      mset (map (\<lambda>(r, b). g r b) (contents rel (Folder es)))"
    if "list_all2 (\<lambda>d ys. mset ys = mset (map (\<lambda>(r, b). g r b) (contents (rel @ [d]) (?N d)))) ?D yss" for yss
  proof -
    have "map mset yss = map (\<lambda>d. mset (map (\<lambda>(r, b). g r b) (contents (rel @ [d]) (?N d)))) ?D"
      using that by (rule list_all2_maps)
    then have "mset (concat yss) = (\<Sum>d\<leftarrow>?D. mset (map (\<lambda>(r, b). g r b) (contents (rel @ [d]) (?N d))))"
      by (simp only: mset_concat)
    moreover have "mset (map G xs) = (\<Sum>n\<leftarrow>xs. {#G n#})" for G :: "pystr \<Rightarrow> 'a" and xs
      by (induction xs) auto
    moreover have "\<forall>(n, c)\<in>set es. entry_name n" using es(2) by auto
    ultimately show ?thesis
      by (simp only: folder_names [OF es(1)] contents_split
          sum_map_of [OF es(1), of "\<lambda>n c. {#case c of Plain b \<Rightarrow> g (rel @ [n]) b | _ \<Rightarrow> undefined#}"]
          sum_map_of [OF es(1), of "\<lambda>n c. mset (map (\<lambda>(r, b). g r b) (contents (rel @ [n]) c))"] prod.case)
  qed
  show ?case
    apply (subst os_walk.simps, simp only: short if_False)
    apply (rule ends_seq [OF scan_folder [OF 1(3)]], simp only: option.case)
    apply (rule ends_seq [OF links], rule ends_seq [OF files], rule ends_seq [OF unlinked], simp only: zip, rule ends_seq [OF below], rule ends_ret)
    using F by simp
next
  case "2_2"
  then show ?case
    by (subst os_walk.simps) (auto intro!: ends_ret ends_seq [OF scan_closed])
qed auto

lemma each_map: "each f (map h xs) = each (f \<circ> h) xs"
  by (induction xs) simp_all

section \<open>source_subject refines the digest of the listing\<close>

definition serves_root :: "os \<Rightarrow> pystr \<Rightarrow> node list \<Rightarrow> bool" where
  "serves_root os root cs \<longleftrightarrow> list_all2 (\<lambda>repo c. is_folder c \<and> serves os (slash root (str repo)) c) WORKTREES cs"

definition all_contents :: "node list \<Rightarrow> (pystr list \<times> bytes) list" where
  "all_contents cs = concat (map (\<lambda>(repo, c). contents [str repo] c) (zip WORKTREES cs))"

lemma regular_tree_serves:
  assumes "serves_root os root cs" and f: "\<forall>(r, b)\<in>set (all_contents cs). f r b = Inr (g r b)"
  shows "ends os (\<lambda>_. False) (\<lambda>xs. mset xs = mset (map (\<lambda>(r, b). g r b) (all_contents cs))) (regular_tree f root)"
proof -
  let ?R = "\<lambda>(repo, c) xs. mset xs = mset (map (\<lambda>(r, b). g r b) (contents [str repo] c))"
  let ?one = "\<lambda>repo. let base = slash root (str repo) in
       seq (is_symlink base) (\<lambda>linked.
       seq (if linked then ret False else seq (sys_int (Is_directory base)) (\<lambda>i. ret (i \<noteq> 0))) (\<lambda>there.
       seq (check there (Invalid ''missing ordinary repository'')) (\<lambda>_. os_walk f [str repo] base)))"
  have served: "is_folder c \<and> serves os (slash root (str repo)) c \<and> (\<forall>(r, b)\<in>set (contents [str repo] c). f r b = Inr (g r b))" if "(repo, c) \<in> set (zip WORKTREES cs)" for repo c
  proof -
    have "set (contents [str repo] c) \<subseteq> set (all_contents cs)" using that by (force simp: all_contents_def)
    with f have "\<forall>(r, b)\<in>set (contents [str repo] c). f r b = Inr (g r b)" by blast
    with assms that show ?thesis unfolding serves_root_def by (auto simp: list_all2_iff)
  qed
  have all: "ends os (\<lambda>_. False) (list_all2 ?R (zip WORKTREES cs)) (each (?one \<circ> fst) (zip WORKTREES cs))"
  proof (rule ends_each)
    fix x assume x: "x \<in> set (zip WORKTREES cs)"
    obtain repo c where rc: "x = (repo, c)" by (cases x)
    with served x have c: "is_folder c" "serves os (slash root (str repo)) c"
      "\<forall>(r, b)\<in>set (contents [str repo] c). f r b = Inr (g r b)" by auto
    show "ends os (\<lambda>_. False) (?R x) ((?one \<circ> fst) x)"
      unfolding rc Let_def comp_def fst_conv prod.case
      by (rule ends_seq [OF ends_is_symlink], use serves_link [OF c(2,1)] in simp,
          rule ends_seq [where R = "\<lambda>b. b"],
          use c in \<open>auto intro!: ends_seq [OF ends_int [OF serves_directory]] ends_ret ends_seq [OF ends_check [where Q = "\<lambda>_. True"]] os_walk_serves
            simp del: mset_map\<close>)
  qed
  have "map fst (zip WORKTREES cs) = WORKTREES"
    using assms(1) by (simp add: serves_root_def list_all2_lengthD)
  then have each: "each ?one WORKTREES = each (?one \<circ> fst) (zip WORKTREES cs)"
    using each_map [of ?one fst "zip WORKTREES cs"] by simp
  have concat: "mset (concat xss) = mset (map (\<lambda>(r, b). g r b) (all_contents cs))"
    if "list_all2 ?R (zip WORKTREES cs) xss" for xss
  proof -
    have "map mset xss = map (\<lambda>(repo, c). mset (map (\<lambda>(r, b). g r b) (contents [str repo] c))) (zip WORKTREES cs)"
      using that by (intro list_all2_maps) (simp add: split_def del: mset_map)
    then show ?thesis
      by (simp only: mset_concat all_contents_def map_concat map_map comp_def split_def)
  qed
  show ?thesis
    unfolding regular_tree_def each by (rule ends_seq [OF all], rule ends_ret, rule concat)
qed

lemma subject_mset: "mset xs = mset ys \<Longrightarrow> subject xs = subject ys"
  by (drule subject_lines_mset) (simp add: subject_def)

lemma source_subject_serves:
  assumes "serves_root os root cs"
  shows "ends os (\<lambda>e. subject_of (all_contents cs) = Inl e) (\<lambda>s. subject_of (all_contents cs) = Inr s) (source_subject root)"
proof -
  let ?all = "all_contents cs"
  have "ends os (\<lambda>e. subject_of ?all = Inl e) (\<lambda>xs. mset xs = mset (map tree_entry ?all)) (regular_tree (\<lambda>r b. Inr (tree_entry (r, b))) root)"
    by (rule ends_mono [OF regular_tree_serves [OF assms, where g = "\<lambda>r b. tree_entry (r, b)"]]) simp_all
  moreover have "ends os (\<lambda>e. subject_of ?all = Inl e) (\<lambda>s. subject_of ?all = Inr s) (lift (subject xs))"
    if "mset xs = mset (map tree_entry ?all)" for xs
    using subject_mset [OF that] by (intro ends_lift) (simp_all add: subject_of_def)
  ultimately show ?thesis
    unfolding source_subject_def tree_entry_def fst_conv snd_conv by (rule ends_seq)
qed

lemma source_subject_result:
  assumes "serves_root os root cs" "w_os w = os"
  shows "fst (source_subject root w) = subject_of (all_contents cs)"
proof -
  obtain r v where w: "source_subject root w = (r, v)" by fastforce
  with endsD [OF source_subject_serves [OF assms(1)] assms(2)] show ?thesis by (cases r) (simp_all add: end_post_def)
qed

section \<open>A tree\<close>

text \<open>Every checkout has one Ada source, and a directory \<open>shut\<close> that cannot be listed.\<close>

definition demo_source :: bytes where
  "demo_source = ascii_bytes (str ''procedure P is'')"

definition plain_stat :: stat where
  "plain_stat = \<lparr>st_dev = 1, st_ino = 1, st_size = 14, st_mtime_ns = 0, st_ctime_ns = 0, st_mode = 33188, st_uid = 0, st_gid = 0\<rparr>"

definition was_read :: "event list \<Rightarrow> bool" where
  "was_read l \<longleftrightarrow> l \<noteq> [] \<and> (case fst (last l) of Read fd n \<Rightarrow> True | _ \<Rightarrow> False)"

definition tree_os :: os where
  "tree_os l c =
     (case c of
        Lstat p \<Rightarrow> Is_stat plain_stat
      | Fstat fd \<Rightarrow> Is_stat plain_stat
      | Read fd n \<Rightarrow> Is_bytes (if was_read l then [] else demo_source)
      | Is_link p \<Rightarrow> Is_int 0
      | Is_directory p \<Rightarrow> Is_int (if has_suffix (str ''p.adb'') p then 0 else 1)
      | Scandir p \<Rightarrow>
          if has_suffix (str ''shut'') p then Fails 13
          else if has_suffix (str ''src'') p then Is_names [str ''p.adb'']
          else Is_names [str ''src'', str ''shut'']
      | _ \<Rightarrow> Done)"

definition demo_checkout :: node where
  "demo_checkout = Folder [(str ''src'', Folder [(str ''p.adb'', Plain demo_source)]), (str ''shut'', Closed)]"

lemma tree_reads: "encodable p \<Longrightarrow> ends tree_os P (\<lambda>x. x = demo_source) (read_regular p READ_LIMIT)"
  unfolding ends_def read_regular_def
  by (intro allI impI, subst read_chunks.simps, subst read_chunks.simps)
    (simp add: sys_read_def sys_bytes_def sys_stat_def sys_open_def sys_fd_def sys_close_def always_def check_def seq_def ret_def
      answer_of_def logged_def tree_os_def was_read_def READ_LIMIT_def plain_stat_def S_ISREG_def Let_def demo_source_def
      ascii_bytes_def str_def)

lemma demo_serves_at:
  assumes "encodable p" "length p < 4000" "\<not> has_suffix (str ''shut'') p" "\<not> has_suffix (str ''src'') p" "\<not> has_suffix (str ''p.adb'') p"
  shows "serves tree_os p demo_checkout"
proof -
  have "encodable (slash q n)" if "encodable q" "encodable n" for q n
    using that by (auto simp: encodable_def slash_def str_def)
  moreover have "encodable (str ''p.adb'')" "encodable (str ''shut'')" "encodable (str ''src'')"
    by (simp_all add: encodable_def str_def)
  moreover have "has_suffix (str ''p.adb'') (slash q (str ''p.adb''))" "has_suffix (str ''shut'') (slash q (str ''shut''))"
    "has_suffix (str ''src'') (slash q (str ''src''))" "\<not> has_suffix (str ''p.adb'') (slash q (str ''shut''))"
    "\<not> has_suffix (str ''p.adb'') (slash q (str ''src''))" "\<not> has_suffix (str ''shut'') (slash q (str ''src''))"
    "length (slash q n) \<le> length q + length n + 1" for q n
    by (auto simp: has_suffix_def slash_def str_def)
  moreover have "length (slash p (str ''src'')) < 4096"
    using assms(2) by (simp add: slash_def str_def)
  ultimately show ?thesis
    using assms tree_reads
    by (auto simp: demo_checkout_def shows_directory_def shows_file_def tree_os_def PATH_MAX_def entry_name_def str_def)
qed

lemma demo_serves: "serves_root tree_os (str ''/srv'') (replicate 8 demo_checkout)"
  unfolding serves_root_def
proof (rule list_all2_all_nthI)
  fix i assume "i < length WORKTREES"
  then have "i < 8" by (simp add: WORKTREES_def REPOS_def)
  have "\<forall>r\<in>set WORKTREES. encodable (slash (str ''/srv'') (str r)) \<and> length (slash (str ''/srv'') (str r)) < 4000 \<and>
      \<not> has_suffix (str ''shut'') (slash (str ''/srv'') (str r)) \<and> \<not> has_suffix (str ''src'') (slash (str ''/srv'') (str r)) \<and>
      \<not> has_suffix (str ''p.adb'') (slash (str ''/srv'') (str r))"
    by (simp add: WORKTREES_def REPOS_def encodable_def slash_def has_suffix_def str_def)
  then have "serves tree_os (slash (str ''/srv'') (str (WORKTREES ! i))) demo_checkout"
    using \<open>i < length WORKTREES\<close> by (intro demo_serves_at) auto
  with \<open>i < 8\<close> show "is_folder (replicate 8 demo_checkout ! i) \<and>
      serves tree_os (slash (str ''/srv'') (str (WORKTREES ! i))) (replicate 8 demo_checkout ! i)"
    by (simp add: demo_checkout_def)
qed (simp add: WORKTREES_def REPOS_def)

lemma demo_contents: "all_contents (replicate 8 demo_checkout) = map (\<lambda>r. ([str r, str ''src'', str ''p.adb''], demo_source)) WORKTREES"
proof -
  have "contents [r] demo_checkout = [([r, str ''src'', str ''p.adb''], demo_source)]" for r
    by (simp add: demo_checkout_def ignored_file_def excluded_def EXCLUDED_def has_suffix_def str_def)
  moreover have "replicate 8 demo_checkout = map (\<lambda>_. demo_checkout) WORKTREES"
    by (simp add: map_replicate_const) (simp add: WORKTREES_def REPOS_def)
  ultimately show ?thesis
    by (simp add: all_contents_def zip_map2 zip_same_conv_map comp_def split_def del: contents.simps)
qed

lemma demo_names: "plain_names (all_contents (replicate 8 demo_checkout))"
  unfolding demo_contents by (simp add: plain_names_def WORKTREES_def REPOS_def str_def)

text \<open>All of it is ASCII.\<close>

lemma sha_scalar: "list_all scalar (sha b)"
proof -
  have "scalar c" if "is_hex c" for c using that by (auto simp: is_hex_def is_digit_def scalar_def)
  then show ?thesis using is_digest_sha [of b] by (auto simp: is_digest_def list_all_iff)
qed

lemma demo_subject: "\<exists>s. subject_of (all_contents (replicate 8 demo_checkout)) = Inr s"
proof -
  have "list_all scalar (posix [str r, str ''src'', str ''p.adb''])" if "r \<in> set WORKTREES" for r
    using that by (auto simp: posix_def WORKTREES_def REPOS_def str_def scalar_def)
  then have "list_all scalar (subject_lines (map tree_entry (all_contents (replicate 8 demo_checkout))))"
    unfolding demo_contents
    using sha_scalar by (fastforce simp: subject_lines_def tree_entry_def list_all_iff str_def scalar_def)
  then show ?thesis by (simp add: subject_of_def subject_def encode_def)
qed

end
