(* ===== verification/Validate_Spec.thy ===== *)
theory Validate_Spec
  imports Validate Source_Tree_Spec Audit_Spec
begin

text \<open>
  What the walk over the sources, the inventory and the whole of \<open>validate\<close> do and raise; the inventory of a tree of
  files; and what it means that \<open>validate\<close> accepts.
\<close>

section \<open>Behaviour\<close>

lemma checker_attempt [checker_rules]:
  assumes "checker good (\<lambda>e. C e \<or> P e) m"
  shows "checker good P (attempt C m)"
proof (rule checkerI)
  show "only observes (attempt C m)" using checkerD(1) [OF assms] by (intro only_rules)
  show "balanced os s (attempt C m)" if "good os" for os s
    using checkerD(2) [OF assms that] by (rule balanced_attempt)
  show "ends os P (\<lambda>_. True) (attempt C m)" if "good os" for os
    by (rule ends_mono [OF ends_attempt [OF checkerD(3) [OF assms that]]]) auto
qed

lemma looks_asked: "observes c \<Longrightarrow> looks (asked c)"
  unfolding asked_def by (intro checker_rules) simp_all

lemma looks_is_symlink: "looks (is_symlink p)"
  unfolding is_symlink_def by (intro checker_rules) simp_all

lemma looks_scan: "looks (scan p)"
  unfolding scan_def
  by (intro checker_rules) (auto split: sum.splits intro!: checker_rules looks_asked)

lemma looks_os_walk:
  assumes "\<And>r b. raises expected_error (f r b)"
  shows "looks (os_walk f rel p)"
  using assms
proof (induction f rel p rule: os_walk.induct)
  case (1 f rel here)
  show ?case
    by (subst os_walk.simps)
      (auto split: option.splits intro!: checker_rules looks_scan looks_is_symlink looks_read_regular looks_asked 1)
qed

lemma looks_regular_tree: "(\<And>r b. raises expected_error (f r b)) \<Longrightarrow> looks (regular_tree f root)"
  unfolding regular_tree_def Let_def by (intro checker_rules looks_is_symlink looks_os_walk) simp_all

lemma raises_subject: "raises expected_error (subject files)"
  by (auto simp: raises_def subject_def encode_def)

lemma looks_source_subject: "looks (source_subject root)"
  unfolding source_subject_def by (intro checker_rules looks_regular_tree raises_subject) (simp add: raises_def)

lemma looks_modules_of: "looks (modules_of u root)"
  unfolding modules_of_def
  by (intro checker_rules looks_regular_tree) (auto simp: raises_def module_of_def decoded_def split: option.splits)

lemma looks_inventory: "looks (inventory_of u root)"
  unfolding inventory_of_def by (intro checker_rules looks_modules_of)

interpretation sources: observer source_subject quiet expected_error
  by unfold_locales (rule looks_source_subject)

interpretation components: observer "modules_of u" quiet expected_error for u
  by unfold_locales (rule looks_modules_of)

lemma checks_catalog: "checker quiet check_error (catalog u depth root)"
  unfolding catalog_def
  by (intro checker_seq checker_ret checks_load_json looks_modules_of [THEN looks_checks] looks_read_regular [THEN looks_checks]
      checker_lift checker_check) (auto simp: raises_def decoded_def check_error_def split: option.splits)

lemma checks_validate: "checker quiet check_error (validate u depth root)"
  unfolding validate_def
  by (intro checker_seq checker_ret checks_validate_registers checks_catalog checks_validate_plan
      looks_source_subject [THEN looks_checks])

section \<open>The inventory of a tree\<close>

definition listed_module :: "unicode \<Rightarrow> pystr list \<times> bytes \<Rightarrow> module option" where
  "listed_module u x = (case module_of u (fst x) (snd x) of Inl _ \<Rightarrow> None | Inr m \<Rightarrow> m)"

text \<open>The sources among the files are UTF-8.\<close>

definition readable_sources :: "(pystr list \<times> bytes) list \<Rightarrow> bool" where
  "readable_sources xs \<longleftrightarrow> (\<forall>(r, b)\<in>set xs. is_module r \<longrightarrow> utf8_decode b \<noteq> None)"

lemma module_of_listed: "is_module r \<longrightarrow> utf8_decode b \<noteq> None \<Longrightarrow> module_of u r b = Inr (listed_module u (r, b))"
  by (auto simp: listed_module_def module_of_def decoded_def)

lemma map_filter_mset: "mset xs = mset ys \<Longrightarrow> mset (List.map_filter f xs) = mset (List.map_filter f ys)"
  by (simp only: map_filter_def mset_map mset_filter)

lemma modules_of_serves:
  assumes "serves_root os root cs" "readable_sources (all_contents cs)"
  shows "ends os (\<lambda>_. False) (\<lambda>ms. sorted (map m_path ms) \<and> mset ms = mset (List.map_filter (listed_module u) (all_contents cs)))
    (modules_of u root)"
proof -
  have f: "\<forall>(r, b)\<in>set (all_contents cs). module_of u r b = Inr (listed_module u (r, b))"
    using assms(2) by (auto simp: readable_sources_def intro!: module_of_listed)
  have "List.map_filter id (map (listed_module u) xs) = List.map_filter (listed_module u) xs" for xs
    by (simp add: map_filter_def filter_map comp_def)
  then have "mset (List.map_filter id ys) = mset (List.map_filter (listed_module u) (all_contents cs))"
    if "mset ys = mset (map (\<lambda>(r, b). listed_module u (r, b)) (all_contents cs))" for ys
    using map_filter_mset [OF that, of id] by simp
  then show ?thesis
    unfolding modules_of_def
    by (intro ends_seq [OF regular_tree_serves [OF assms(1) f]] ends_ret) simp
qed

section \<open>A line feed in a name\<close>

text \<open>
  Two trees with the same digest: one file \<open>b\<close> after another \<open>a\<close>, and one file whose name ends with what would be
  the line of the second.
\<close>

lemma subject_confused:
  assumes "length h = 64" "length h' = 64"
  shows "subject [(str ''a'', h), (str ''b'', h')] = subject [(str ''a'' @ [10] @ h' @ str ''  b'', h)]"
  by (simp add: subject_def subject_lines_def str_def)

lemma demo_readable: "readable_sources (all_contents (replicate 8 demo_checkout))"
  unfolding demo_contents
  by (simp add: readable_sources_def WORKTREES_def REPOS_def demo_source_def ascii_bytes_def utf8_decode_def str_def)

end
