(* ===== verification/Check_Runner_Spec.thy ===== *)
theory Check_Runner_Spec
  imports Check_Runner Runner_Spec Validate_Spec
begin

text \<open>
  What exit code 0 of the check runner means: the sources were checked and are unchanged, every command of the mode was
  run, and for each there is a stretch of the conversation with the system in which its process, and no other, was
  started and ended with code 0.
\<close>

section \<open>Evidence\<close>

text \<open>The conversation holds the run of a passed command.\<close>

definition ran :: "(rcall \<times> ranswer) list \<Rightarrow> run_record \<Rightarrow> bool" where
  "ran l u \<longleftrightarrow> (\<exists>l1 l2 l3 b env p. l = l1 @ l2 @ l3 \<and> list_all (\<lambda>e. starts_only (u_argv u) (u_cwd u) env (fst e)) l2 \<and>
     reacts start_view l2 = Some b \<and> v_phase b = Reaped p 0 \<and> v_ended b \<and> v_wrote b = v_read b)"

definition evidenced :: "(rcall \<times> ranswer) list \<Rightarrow> checked \<Rightarrow> bool" where
  "evidenced l k \<longleftrightarrow> (case k_run k of None \<Rightarrow> True | Some u \<Rightarrow> pass k \<longrightarrow> ran l u)"

lemma ran_mono: "ran l u \<Longrightarrow> ran (a @ l @ c) u"
proof -
  assume "ran l u"
  then obtain l1 l2 l3 b env p where "l = l1 @ l2 @ l3" "list_all (\<lambda>e. starts_only (u_argv u) (u_cwd u) env (fst e)) l2"
    "reacts start_view l2 = Some b" "v_phase b = Reaped p 0" "v_ended b" "v_wrote b = v_read b"
    by (auto simp: ran_def)
  then show ?thesis unfolding ran_def by (intro exI [of _ "a @ l1"] exI [of _ l2] exI [of _ "l3 @ c"]) auto
qed

lemma evidenced_mono: "evidenced l k \<Longrightarrow> evidenced (a @ l @ c) k"
  by (auto simp: evidenced_def ran_mono split: option.splits)

lemma evidenced_mono': "evidenced l k \<Longrightarrow> evidenced (a @ l) k" "evidenced l k \<Longrightarrow> evidenced (l @ c) k"
  using evidenced_mono [of l k a "[]"] evidenced_mono [of l k "[]" c] by simp_all

definition is_run_of :: "step \<Rightarrow> checked \<Rightarrow> bool" where
  "is_run_of p k \<longleftrightarrow> k_name k = p_name p \<and> k_layer k = p_layer p \<and>
     (\<exists>u. k_run k = Some u \<and> u_argv u = p_argv p \<and> u_cwd u = p_cwd p)"

text \<open>A command of the list was run and passed.\<close>

definition done_in :: "checked list \<Rightarrow> step \<Rightarrow> bool" where
  "done_in ks p \<longleftrightarrow> (\<exists>k\<in>set ks. is_run_of p k \<and> pass k)"

lemma done_in_append: "done_in ks p \<Longrightarrow> done_in (a @ ks @ c) p"
  by (auto simp: done_in_def)

section \<open>Stages\<close>

text \<open>
  \<open>does m s Q\<close>: the stage \<open>m\<close> adds entries to those of \<open>s\<close>, each with its evidence; when it comes to its end and all of
  them are passes, they satisfy \<open>Q\<close>.
\<close>

definition added :: "session \<Rightarrow> session \<Rightarrow> checked list \<Rightarrow> bool" where
  "added s s' new \<longleftrightarrow> z_checks s' = z_checks s @ new \<and> z_before s' = z_before s \<and> z_verdict s' = z_verdict s \<and>
     z_error s' = z_error s"

definition does :: "staged \<Rightarrow> session \<Rightarrow> ((rcall \<times> ranswer) list \<Rightarrow> checked list \<Rightarrow> bool) \<Rightarrow> bool" where
  "does m s Q \<longleftrightarrow> (\<forall>w. \<exists>s' st v l new. m w = (Inr (s', st), v) \<and> w_log v = w_log w @ l \<and> added s s' new \<and>
     list_all (evidenced l) new \<and> (st = Finished \<longrightarrow> list_all pass new \<longrightarrow> Q l new))"

abbreviation grows :: "'a run \<Rightarrow> bool" where
  "grows \<equiv> only (\<lambda>_. True)"

lemma does_ret: "added s s' new \<Longrightarrow> list_all (evidenced []) new \<Longrightarrow> (list_all pass new \<Longrightarrow> Q [] new) \<Longrightarrow> does (ret (s', Finished)) s Q"
  by (auto simp: does_def ret_def)

lemma does_mono: "does m s P \<Longrightarrow> (\<And>l new. list_all pass new \<Longrightarrow> P l new \<Longrightarrow> Q l new) \<Longrightarrow> does m s Q"
  unfolding does_def by meson

lemma does_under:
  assumes m: "grows m" "\<And>x w v l. m w = (Inr x, v) \<Longrightarrow> w_log v = w_log w @ l \<Longrightarrow> R l x"
    and k: "\<And>l x. R l x \<Longrightarrow> does (k x) s (\<lambda>l'. Q (l @ l'))"
  shows "does (under s m k) s Q"
  unfolding does_def
proof
  fix w
  obtain r u where mw: "m w = (r, u)" by (cases "m w")
  then obtain l where l: "w_log u = w_log w @ l" using onlyE [OF m(1), of w] by auto
  show "\<exists>s' st v l new. under s m k w = (Inr (s', st), v) \<and> w_log v = w_log w @ l \<and> added s s' new \<and>
     list_all (evidenced l) new \<and> (st = Finished \<longrightarrow> list_all pass new \<longrightarrow> Q l new)"
  proof (cases r)
    case (Inl e)
    with mw l show ?thesis by (auto simp: under_def added_def)
  next
    case (Inr x)
    from k [OF m(2) [OF mw [unfolded Inr] l]] obtain s' st v l' new where "k x u = (Inr (s', st), v)" "w_log v = w_log u @ l'"
      "added s s' new" "list_all (evidenced l') new" "st = Finished \<longrightarrow> list_all pass new \<longrightarrow> Q (l @ l') new"
      unfolding does_def by metis
    with mw l Inr show ?thesis
      by (intro exI [of _ s'] exI [of _ st] exI [of _ v] exI [of _ "l @ l'"] exI [of _ new])
        (auto simp: under_def list_all_iff evidenced_mono')
  qed
qed

lemma does_go_on:
  assumes m: "does m s P" and k: "\<And>s' l new. added s s' new \<Longrightarrow> (list_all pass new \<Longrightarrow> P l new) \<Longrightarrow>
    does (k s') s' (\<lambda>l' new'. list_all pass new \<longrightarrow> Q (l @ l') (new @ new'))"
  shows "does (go_on m k) s Q"
  unfolding does_def
proof
  fix w
  from m obtain s1 st u l new where mw: "m w = (Inr (s1, st), u)" "w_log u = w_log w @ l" "added s s1 new"
    "list_all (evidenced l) new" "st = Finished \<longrightarrow> list_all pass new \<longrightarrow> P l new"
    unfolding does_def by metis
  show "\<exists>s' st v l new. go_on m k w = (Inr (s', st), v) \<and> w_log v = w_log w @ l \<and> added s s' new \<and>
     list_all (evidenced l) new \<and> (st = Finished \<longrightarrow> list_all pass new \<longrightarrow> Q l new)"
  proof (cases st)
    case (Raised e)
    with mw show ?thesis by (auto simp: go_on_def seq_def ret_def)
  next
    case Finished
    with mw k [of s1 new l] obtain s' st' v l' new' where "k s1 u = (Inr (s', st'), v)" "w_log v = w_log u @ l'" "added s1 s' new'"
      "list_all (evidenced l') new'" "st' = Finished \<longrightarrow> list_all pass new' \<longrightarrow> list_all pass new \<longrightarrow> Q (l @ l') (new @ new')"
      unfolding does_def by (metis (no_types, lifting))
    with mw Finished show ?thesis
      by (intro exI [of _ s'] exI [of _ st'] exI [of _ v] exI [of _ "l @ l'"] exI [of _ "new @ new'"])
        (auto simp: go_on_def seq_def added_def list_all_iff evidenced_mono')
  qed
qed

lemma does_if: "(b \<Longrightarrow> does m s Q) \<Longrightarrow> (\<not> b \<Longrightarrow> does n s Q) \<Longrightarrow> does (if b then m else n) s Q"
  by simp

section \<open>Commands\<close>

lemma conclude_record: "conclude grace start argv cwd log s w = (Inr u, v) \<Longrightarrow> u_argv u = argv \<and> u_cwd u = cwd"
  unfolding conclude_def by (auto simp: runs)

lemma run_command_record: "run_command argv cwd log env timeout grace w = (Inr u, v) \<Longrightarrow> u_argv u = argv \<and> u_cwd u = cwd"
  unfolding run_command_def Let_def
  by (auto simp: runs case_prod_unfold split: option.splits dest: conclude_record)

lemma grows_run_command: "grows (run_command argv cwd log env timeout grace)"
  using starts_run_command [of argv cwd env log timeout grace] unfolding only_def by fast

lemma does_invoke: "does (invoke c p s) s (\<lambda>_ new. \<exists>k. new = [k] \<and> is_run_of p k)"
  unfolding does_def
proof
  fix w
  let ?m = "run_command (p_argv p) (p_cwd p) (slash (y_output c) (p_name p @ str ''.log'')) (y_env c) (y_timeout c * SECOND)
                (if p_layer p = str ''proof'' then 6 * SECOND else 0)"
  obtain r u where mw: "?m w = (r, u)" by (cases "?m w")
  with run_tells [of "p_argv p" "p_cwd p" "slash (y_output c) (p_name p @ str ''.log'')" "y_env c" "y_timeout c * SECOND"
      "if p_layer p = str ''proof'' then 6 * SECOND else 0" w]
  obtain l b where l: "w_log u = w_log w @ l" "reacts start_view l = Some b" "promise r b" by (auto simp: wp_def)
  have only: "list_all (\<lambda>e. starts_only (p_argv p) (p_cwd p) (y_env c) (fst e)) l"
    using onlyE [OF starts_run_command, of "p_argv p" "p_cwd p" "slash (y_output c) (p_name p @ str ''.log'')" "y_env c"
        "y_timeout c * SECOND" "if p_layer p = str ''proof'' then 6 * SECOND else 0" w] mw l(1) by (auto simp: list_all_iff)
  show "\<exists>s' st v l new. invoke c p s w = (Inr (s', st), v) \<and> w_log v = w_log w @ l \<and> added s s' new \<and>
     list_all (evidenced l) new \<and> (st = Finished \<longrightarrow> list_all pass new \<longrightarrow> (\<exists>k. new = [k] \<and> is_run_of p k))"
  proof (cases r)
    case (Inl e)
    with mw l show ?thesis by (auto simp: invoke_def under_def added_def)
  next
    case (Inr t)
    let ?k = "\<lparr>k_name = p_name p, k_layer = p_layer p, k_result = u_result t, k_run = Some t\<rparr>"
    have t: "u_argv t = p_argv p" "u_cwd t = p_cwd p" using run_command_record mw Inr by blast+
    have "ran l t" if passed: "u_result t = Pass"
    proof -
      obtain pid where "v_phase b = Reaped pid 0" "v_ended b" "v_wrote b = v_read b"
        using l(3) Inr passed by (auto simp: promise_def)
      with l(2) only t show ?thesis
        unfolding ran_def by (intro exI [of _ "[]"] exI [of _ l] exI [of _ b] exI [of _ "y_env c"] exI [of _ pid]) simp
    qed
    then have "evidenced l ?k" by (simp add: evidenced_def pass_def)
    with mw l Inr t show ?thesis
      by (intro exI [of _ "noted ?k s"] exI [of _ Finished] exI [of _ u] exI [of _ l] exI [of _ "[?k]"])
        (auto simp: invoke_def under_def ret_def added_def noted_def is_run_of_def)
  qed
qed

text \<open>A program on files makes the calls on files that it makes.\<close>

lemma only_files: "only observes m \<Longrightarrow> (\<And>c. observes c \<Longrightarrow> C (File c)) \<Longrightarrow> only C (on_files m)"
proof -
  assume m: "only observes m" and C: "\<And>c. observes c \<Longrightarrow> C (File c)"
  show "only C (on_files m)"
    unfolding only_def
  proof
    fix w :: "(rcall, ranswer) machine"
    let ?w = "\<lparr>w_os = (\<lambda>l c. as_reply (w_os w (w_log w @ map (\<lambda>(c, a). (File c, Reply a)) l) (File c))),
      w_log = [], w_fds = w_fds w, w_cwd = w_cwd w, w_time = w_time w\<rparr>"
    from onlyE [OF m, of ?w] obtain l where "w_log (snd (m ?w)) = l" "\<forall>e\<in>set l. observes (fst e)" by auto
    then show "\<exists>l. w_log (snd (on_files m w)) = w_log w @ l \<and> (\<forall>e\<in>set l. C (fst e))"
      using C by (intro exI [of _ "map (\<lambda>(c, a). (File c, Reply a)) l"]) (auto simp: on_files_def split: prod.splits)
  qed
qed

section \<open>Lists of commands\<close>

lemma added_refl: "added s s []"
  by (simp add: added_def)

lemma does_finished: "Q [] [] \<Longrightarrow> does (ret (s, Finished)) s Q"
  by (rule does_ret [OF added_refl]) simp_all

lemma does_invoke_all: "does (invoke_all c ps s) s (\<lambda>_ new. list_all2 is_run_of ps new)"
proof (induction ps arbitrary: s)
  case (Cons p ps)
  have "does (go_on (invoke c p s) (invoke_all c ps)) s (\<lambda>_ new. list_all2 is_run_of (p # ps) new)"
    by (rule does_go_on [OF does_invoke], rule does_mono [OF Cons]) auto
  then show ?case by simp
qed (simp add: does_finished)

lemma does_invoke_each: "does (invoke_each c ps s) s (\<lambda>_ new. list_all2 (\<lambda>p k. \<exists>x. p = Inr x \<and> is_run_of x k) ps new)"
proof (induction ps arbitrary: s)
  case (Cons p ps)
  have "does (under s (lift p) (\<lambda>p. go_on (invoke c p s) (invoke_each c ps))) s
      (\<lambda>_ new. list_all2 (\<lambda>p k. \<exists>x. p = Inr x \<and> is_run_of x k) (p # ps) new)"
  proof (rule does_under [where R = "\<lambda>_ x. p = Inr x"])
    fix x assume p: "p = Inr x"
    show "does (go_on (invoke c x s) (invoke_each c ps)) s (\<lambda>_ new. list_all2 (\<lambda>p k. \<exists>x. p = Inr x \<and> is_run_of x k) (p # ps) new)"
      by (rule does_go_on [OF does_invoke], rule does_mono [OF Cons]) (auto simp: p)
  qed (auto intro: only_rules simp: runs)
  then show ?case by simp
qed (simp add: does_finished)

lemma last_passed_added: "added s s' [k] \<Longrightarrow> last_passed s' \<longleftrightarrow> pass k"
  by (simp add: last_passed_def added_def)

lemma does_invoke_while:
  assumes "\<And>s. does (k s) s Q"
  shows "does (invoke_while c ps k s) s
    (\<lambda>l new. \<exists>k l' a b. l = k @ l' \<and> new = a @ b \<and> list_all2 is_run_of ps a \<and> Q l' b)"
proof (induction ps arbitrary: s)
  case Nil
  show ?case by simp (rule does_mono [OF assms], metis append_Nil)
next
  case (Cons p ps)
  show ?case
    unfolding invoke_while.simps
  proof (rule does_go_on [where P = "\<lambda>_ new. \<exists>k. new = [k] \<and> is_run_of p k"], rule does_invoke, goal_cases)
    case (1 s' l new)
    show ?case
    proof (cases "last_passed s'")
      case True
      have "does (invoke_while c ps k s') s' (\<lambda>m new'. list_all pass new \<longrightarrow>
          (\<exists>k l' a b. l @ m = k @ l' \<and> new @ new' = a @ b \<and> list_all2 is_run_of (p # ps) a \<and> Q l' b))"
      proof (rule does_mono [OF Cons], clarify)
        fix k l' a b assume "list_all pass new" "list_all2 is_run_of ps a" "Q l' b"
        with 1(2) obtain e where "new = [e]" "is_run_of p e" by blast
        with \<open>list_all2 is_run_of ps a\<close> \<open>Q l' b\<close>
        show "\<exists>k' l'' a' b'. l @ k @ l' = k' @ l'' \<and> new @ a @ b = a' @ b' \<and> list_all2 is_run_of (p # ps) a' \<and> Q l'' b'"
          by (intro exI [of _ "l @ k"] exI [of _ l'] exI [of _ "e # a"] exI [of _ b]) simp
      qed
      with True show ?thesis by simp
    next
      case False
      have "\<not> list_all pass new"
      proof
        assume all: "list_all pass new"
        with 1(2) obtain k where "new = [k]" by blast
        with 1(1) all False show False by (simp add: last_passed_added)
      qed
      with False show ?thesis by (simp add: does_finished)
    qed
  qed
qed

lemma list_all2_done: "list_all2 is_run_of ps new \<Longrightarrow> list_all pass new \<Longrightarrow> p \<in> set ps \<Longrightarrow> done_in (a @ new @ b) p"
  by (fastforce simp: done_in_def list_all2_conv_all_nth list_all_length in_set_conv_nth)

lemma grows_which: "grows (which c n)"
  unfolding which_def by (intro only_rules) simp

lemma does_source_checks: "does (source_checks c s) s (\<lambda>_ new. \<forall>p\<in>set (source_steps c). done_in new p)"
  unfolding source_checks_def
proof (rule does_go_on [OF does_invoke_all], rule does_under [where R = "\<lambda>_ _. True"], goal_cases)
  case (3 s' _ new _ x)
  then show ?case
    using list_all2_done [of "source_steps c" new _ "[]" "[]"] by (intro does_finished) simp
qed (auto intro: only_rules)

lemma does_tool_versions: "does (tool_versions c tools s) s (\<lambda>_ _. True)"
proof (induction tools arbitrary: s)
  case (Cons tool tools)
  have "does (if p = None then ret (s, Finished)
            else invoke c (a_step c (tool @ ''-version'') (map str [tool, ''--version'']) [] ''tool-identification'') s) s (\<lambda>_ _. True)" for p
    by (intro does_if does_finished does_mono [OF does_invoke]) simp_all
  then have "does (tool_versions c (tool # tools) s) s (\<lambda>_ _. True)"
    unfolding tool_versions.simps
    by (intro does_under [where R = "\<lambda>_ _. True"] grows_which does_go_on [where P = "\<lambda>_ _. True"] does_mono [OF Cons]) blast+
  then show ?case .
qed (simp add: does_finished)

section \<open>Builds and tests\<close>

text \<open>A registered test was run with its arguments, in a directory of its own.\<close>

definition expanded :: "json \<Rightarrow> pystr \<Rightarrow> pystr list \<Rightarrow> bool" where
  "expanded test place args \<longleftrightarrow> (\<exists>vs. item test ''arguments'' iterate = Inr vs \<and>
     for_each (\<lambda>v. rbind (text_value v) (expand_argument place)) vs = Inr args)"

definition test_done :: "settings \<Rightarrow> string \<Rightarrow> checked list \<Rightarrow> json \<Rightarrow> bool" where
  "test_done c repo ks test \<longleftrightarrow> (\<forall>main. getitem test ''main'' = Inr (JStr main) \<longrightarrow> take (length repo + 1) main = str (repo @ ''/'') \<longrightarrow>
     (\<exists>tier place args. getitem test ''tier'' = Inr (JStr tier) \<and> expanded test place args \<and>
        done_in ks (test_step c repo (stem_of main) tier args)))"

lemma test_done_append: "test_done c repo ks t \<Longrightarrow> test_done c repo (a @ ks @ b) t"
  unfolding test_done_def using done_in_append by blast

lemma text_value_Inr: "text_value v = Inr s \<longleftrightarrow> v = JStr s" "as_text v = Inr s \<longleftrightarrow> v = JStr s"
  by (cases v; auto simp: text_value_def as_text_def)+

lemma grows_expand: "grows (expand_test_args t place)" "grows (make_temp p d)"
  unfolding expand_test_args_def prepare_directory_def make_temp_def
  by (auto intro!: only_rules)

lemma expand_expanded: "expand_test_args t place w = (Inr args, v) \<Longrightarrow> expanded t place args"
  by (auto simp: expand_test_args_def expanded_def runs)

lemma does_run_test: "does (run_test c repo t s) s (\<lambda>_ new. test_done c repo new t)"
  unfolding run_test_def Let_def
proof (rule does_under [where R = "\<lambda>_ main. getitem t ''main'' = Inr (JStr main)"], goal_cases)
  case (3 _ main)
  show ?case
  proof (rule does_if, goal_cases)
    case 1
    with 3 show ?case by (intro does_finished) (simp add: test_done_def)
  next
    case 2
    show ?case
    proof (rule does_under [where R = "\<lambda>_ tier. getitem t ''tier'' = Inr tier"], goal_cases)
      case (3 _ tier)
      show ?case
      proof (rule does_if, goal_cases)
        case 1
        show ?case
          by (rule does_ret [where new = "[skipped (stem_of main) (str ''ada-host-observation'')]"])
            (simp_all add: added_def noted_def evidenced_def skipped_def pass_def)
      next
        case 2
        show ?case
        proof (rule does_under [where R = "\<lambda>_ _. True"], rule grows_expand, simp,
            rule does_under [OF grows_expand(1) expand_expanded], assumption,
            rule does_under [where R = "\<lambda>_ x. tier = JStr x"], goal_cases)
          case (3 _ place _ args _ x)
          show ?case
            by (rule does_go_on [OF does_invoke], rule does_mono [OF does_invoke_each])
              (use 3 \<open>getitem t ''tier'' = Inr tier\<close> \<open>getitem t ''main'' = Inr (JStr main)\<close>
                in \<open>fastforce simp: test_done_def done_in_def\<close>)
        qed (auto intro: only_rules simp: runs text_value_Inr)
      qed
    qed (auto intro: only_rules simp: runs)
  qed
qed (auto intro: only_rules simp: runs text_value_Inr)

lemma does_run_tests: "does (run_tests c repo ts s) s (\<lambda>_ new. \<forall>t\<in>set ts. test_done c repo new t)"
proof (induction ts arbitrary: s)
  case (Cons t ts)
  have "does (run_tests c repo (t # ts) s) s (\<lambda>_ new. \<forall>t'\<in>set (t # ts). test_done c repo new t')"
    unfolding run_tests.simps
    by (rule does_go_on [OF does_run_test], rule does_mono [OF Cons])
      (use test_done_append [of c repo _ _ "[]"] test_done_append [of c repo _ _ _ "[]"] in auto)
  then show ?case .
qed (simp add: does_finished)

text \<open>Every test of a plan that was loaded in the conversation.\<close>

definition loaded :: "pystr \<Rightarrow> nat \<Rightarrow> (rcall \<times> ranswer) list \<Rightarrow> json \<Rightarrow> bool" where
  "loaded root depth l plan \<longleftrightarrow> (\<exists>w v l1 l2 l3. on_files (load_json depth (engineering_file root ''test-plan.json'')) w = (Inr plan, v) \<and>
     w_log v = w_log w @ l2 \<and> l = l1 @ l2 @ l3)"

definition tested :: "settings \<Rightarrow> nat \<Rightarrow> (rcall \<times> ranswer) list \<Rightarrow> checked list \<Rightarrow> string \<Rightarrow> bool" where
  "tested c depth l ks repo \<longleftrightarrow>
     (\<exists>plan tests. loaded (y_root c) depth l plan \<and> item plan ''ada_tests'' iterate = Inr tests \<and>
        (\<forall>t\<in>set tests. test_done c repo ks t))"

lemma loaded_append: "loaded root depth l plan \<Longrightarrow> loaded root depth (a @ l @ b) plan"
proof -
  assume "loaded root depth l plan"
  then obtain w v l1 l2 l3 where "on_files (load_json depth (engineering_file root ''test-plan.json'')) w = (Inr plan, v)"
    "w_log v = w_log w @ l2" "l = l1 @ l2 @ l3"
    unfolding loaded_def by blast
  then show ?thesis
    unfolding loaded_def by (intro exI [of _ w] exI [of _ v] exI [of _ "a @ l1"] exI [of _ l2] exI [of _ "l3 @ b"]) simp
qed

lemma tested_append: "tested c depth l ks repo \<Longrightarrow> tested c depth (x @ l @ y) (a @ ks @ b) repo"
  unfolding tested_def using test_done_append loaded_append by blast

definition built :: "settings \<Rightarrow> nat \<Rightarrow> (rcall \<times> ranswer) list \<Rightarrow> checked list \<Rightarrow> string \<Rightarrow> bool" where
  "built c depth l ks repo \<longleftrightarrow> (\<forall>p\<in>set (build_steps c repo). done_in ks p) \<and>
     tested c depth l ks repo \<and>
     (repo = ''pkgcore'' \<longrightarrow> (\<forall>p\<in>set (publications c). done_in ks p))"

lemma built_append: "built c depth l ks repo \<Longrightarrow> built c depth (x @ l @ y) (a @ ks @ b) repo"
  unfolding built_def using done_in_append tested_append by blast

lemma does_built_tests:
  "does (built_tests c depth repo s) s (\<lambda>l new. tested c depth l new repo \<and>
     (repo = ''pkgcore'' \<longrightarrow> (\<forall>p\<in>set (publications c). done_in new p)))"
  unfolding built_tests_def
proof (rule does_under [where R = "loaded (y_root c) depth"], goal_cases)
  case (2 plan w v l)
  then show ?case
    unfolding loaded_def by (intro exI [of _ w] exI [of _ v] exI [of _ "[]"] exI [of _ l]) simp
next
  case (3 l plan)
  show ?case
  proof (rule does_under [where R = "\<lambda>_ tests. item plan ''ada_tests'' iterate = Inr tests"], goal_cases)
    case (3 k tests)
    show ?case
    proof (rule does_go_on [OF does_run_tests], rule does_mono [OF does_invoke_all], intro impI conjI ballI, goal_cases)
      case (1 s' _ new l' new')
      then have "tested c depth l new repo" using \<open>loaded (y_root c) depth l plan\<close> 3 unfolding tested_def by blast
      then show ?case using tested_append [of c depth l new repo "[]" _ "[]" new'] by simp
    next
      case (2 s' _ new l' new' p)
      then show ?case using list_all2_done [of "publications c" new' p new "[]"] by simp
    qed
  qed (auto intro: only_rules simp: runs)
qed (auto intro: only_rules)

lemma does_build_repo: "does (build_repo c depth available repo s) s (\<lambda>l new. built c depth l new repo)"
  unfolding build_repo_def
proof (rule does_if, goal_cases)
  case 1
  show ?case
    by (rule does_ret [where new = "[skipped (str (repo @ ''-ada-build'')) (str ''ada-build'')]"])
      (simp_all add: added_def noted_def evidenced_def skipped_def pass_def)
next
  case 2
  show ?case
  proof (rule does_mono [OF does_invoke_while [OF does_built_tests]], clarify)
    fix k l' a b assume *: "list_all pass (a @ b)" "list_all2 is_run_of (build_steps c repo) a" "tested c depth l' b repo"
      "repo = ''pkgcore'' \<longrightarrow> (\<forall>p\<in>set (publications c). done_in b p)"
    then show "built c depth (k @ l') (a @ b) repo"
      unfolding built_def
      using list_all2_done [of "build_steps c repo" a _ "[]" b] tested_append [of c depth l' b repo k "[]" a "[]"]
        done_in_append [of b _ a "[]"]
      by simp
  qed
qed

lemma does_build_repos: "does (build_repos c depth available repos s) s (\<lambda>l new. \<forall>repo\<in>set repos. built c depth l new repo)"
proof (induction repos arbitrary: s)
  case (Cons repo repos)
  have "does (build_repos c depth available (repo # repos) s) s (\<lambda>l new. \<forall>r\<in>set (repo # repos). built c depth l new r)"
    unfolding build_repos.simps
    by (rule does_go_on [OF does_build_repo], rule does_mono [OF Cons])
      (use built_append [of c depth _ _ _ "[]" _ "[]"] built_append [of c depth _ _ _ _ "[]" _ "[]"] in auto)
  then show ?case .
qed (simp add: does_finished)

text \<open>What a mode adds to the checks of the sources.\<close>

definition mode_done :: "settings \<Rightarrow> nat \<Rightarrow> (rcall \<times> ranswer) list \<Rightarrow> checked list \<Rightarrow> bool" where
  "mode_done c depth l ks \<longleftrightarrow>
     (case y_mode c of
        Source \<Rightarrow> True
      | Build \<Rightarrow> \<forall>repo\<in>set REPOS. built c depth l ks repo
      | Proof \<Rightarrow> \<forall>repo\<in>set REPOS. \<forall>p\<in>set (proof_steps c repo). done_in ks p)"

lemma mode_done_append: "mode_done c depth l ks \<Longrightarrow> mode_done c depth (x @ l @ y) (a @ ks @ b)"
  unfolding mode_done_def using built_append done_in_append by (auto split: mode.splits)

lemma does_at: "does m s Q \<Longrightarrow> z_checks s' = z_checks s \<Longrightarrow> z_before s' = z_before s \<Longrightarrow> z_verdict s' = z_verdict s \<Longrightarrow>
  z_error s' = z_error s \<Longrightarrow> does m s' Q"
  by (simp add: does_def added_def)

lemma does_mode_checks: "does (mode_checks c depth s) s (mode_done c depth)"
proof (cases "y_mode c")
  case Source
  then show ?thesis by (simp add: mode_checks_def mode_done_def does_finished)
next
  case Build
  have "does (build_repos c depth available REPOS (s\<lparr>z_ada := Ada_requested\<rparr>)) s (\<lambda>l new. \<forall>repo\<in>set REPOS. built c depth l new repo)" for available
    by (rule does_at [OF does_build_repos]) simp_all
  then have "does (build_checks c depth s) s (\<lambda>l new. \<forall>repo\<in>set REPOS. built c depth l new repo)"
    unfolding build_checks_def Let_def
  proof (intro does_under [where R = "\<lambda>_ _. True"] grows_which, goal_cases)
    case (2 l p)
    have "built c depth (l @ l') new repo" if "built c depth l' new repo" for l' new repo
      using built_append [OF that, of l "[]" "[]" "[]"] by simp
    then show ?case
      by (intro does_go_on [OF 2(1)], intro does_ret [where new = "[]"]) (simp_all add: added_def)
  qed simp
  with Build show ?thesis by (auto simp: mode_checks_def mode_done_def elim: does_mono)
next
  case Proof
  have "does (proof_checks c s) s (\<lambda>_ new. \<forall>repo\<in>set REPOS. \<forall>p\<in>set (proof_steps c repo). done_in new p)"
    unfolding proof_checks_def
  proof (intro does_under [where R = "\<lambda>_ _. True"] grows_which does_if, goal_cases)
    case (2 p)
    show ?case
      by (rule does_ret [where new = "[skipped (str ''gnatprove'') (str ''proof'')]"])
        (simp_all add: added_def noted_def evidenced_def skipped_def pass_def)
  next
    case (3 p)
    have run: "does (invoke_while c ps (\<lambda>s. ret (s, Finished)) s) s (\<lambda>_ new. \<forall>p\<in>set ps. done_in new p)" for ps
      by (rule does_mono [OF does_invoke_while [where Q = "\<lambda>_ new. new = []"]])
        (use list_all2_done [of ps _ _ "[]" "[]"] in \<open>auto intro: does_finished\<close>)
    show ?case
      by (rule does_go_on [OF run], rule does_ret [where new = "[]"]) (simp_all add: added_def)
  qed simp
  with Proof show ?thesis by (auto simp: mode_checks_def mode_done_def elim: does_mono)
qed

section \<open>The whole run\<close>

text \<open>A stage that came to its end did so through all of its parts.\<close>

lemma under_Finished:
  "under s m k w = (Inr (s', Finished), v) \<longleftrightarrow> (\<exists>x u. m w = (Inr x, u) \<and> k x u = (Inr (s', Finished), v))"
  by (cases "m w"; cases "fst (m w)") (auto simp: under_def)

lemma go_on_Finished:
  "go_on m k w = (Inr (s', Finished), v) \<longleftrightarrow> (\<exists>t u. m w = (Inr (t, Finished), u) \<and> k t u = (Inr (s', Finished), v))"
  by (cases "m w"; cases "fst (m w)") (auto simp: go_on_def seq_def ret_def split: status.splits)

lemma does_Finished:
  assumes "does m s Q" "m w = (Inr (s', Finished), v)"
  obtains l new where "w_log v = w_log w @ l" "added s s' new" "list_all (evidenced l) new" "list_all pass new \<Longrightarrow> Q l new"
  using assms unfolding does_def by (metis Pair_inject sum.inject(2))

text \<open>
  The sources had one digest before the checks and after them, and were accepted in between; all commands that the mode
  asks for were run between the two digests, and passed.
\<close>

definition complete_pass :: "unicode \<Rightarrow> nat \<Rightarrow> settings \<Rightarrow> session \<Rightarrow> (rcall \<times> ranswer) list \<Rightarrow> bool" where
  "complete_pass u depth c s conversation \<longleftrightarrow>
     list_all pass (z_checks s) \<and> (\<forall>p\<in>set (source_steps c). done_in (z_checks s) p) \<and>
     (\<exists>digest verdict w1 w2 w3 w4 w5 l rest.
        on_files (source_subject (y_root c)) w1 = (Inr digest, w2) \<and>
        on_files (validate u depth (y_root c)) w2 = (Inr verdict, w3) \<and>
        w_log w4 = w_log w3 @ l \<and> list_all (evidenced l) (z_checks s) \<and> mode_done c depth l (z_checks s) \<and>
        on_files (source_subject (y_root c)) w4 = (Inr digest, w5) \<and> conversation = w_log w5 @ rest \<and>
        z_before s = Some digest \<and> z_verdict s = Some verdict \<and> z_after s = Some digest)"

lemma r_unit_grows: "grows (r_unit q)"
  unfolding r_unit_def by (intro only_rules) simp

lemma grows_log: "grows m \<Longrightarrow> m w = (r, v) \<Longrightarrow> \<exists>l. w_log v = w_log w @ l"
  by (metis onlyE snd_conv)

lemma all_checks_Finished:
  assumes run: "all_checks u depth c fresh_session w = (Inr (s, Finished), v)" and pass: "list_all pass (z_checks s)"
  shows "complete_pass u depth c s (w_log v)"
proof -
  let ?first = "\<lparr>k_name = str ''traceability'', k_layer = str ''source'', k_result = Pass, k_run = None\<rparr>"
  let ?s = "\<lambda>before val. (noted ?first (fresh_session\<lparr>z_before := Some before\<rparr>))\<lparr>z_verdict := Some val\<rparr>"
  from run obtain before val s1 s2 s3 w1 w2 w3 w3' a b d w5 where
    w1: "on_files (source_subject (y_root c)) w1 = (Inr before, w2)" and
    w2: "on_files (validate u depth (y_root c)) w2 = (Inr val, w3)" and
    put: "r_unit (Put (in_output c (str ''traceability.json''))) w3 = (Inr (), w3')" and
    a: "tool_versions c [''gprbuild'', ''gnatprove''] (?s before val) w3' = (Inr (s1, Finished), a)" and
    b: "source_checks c s1 a = (Inr (s2, Finished), b)" and
    d: "mode_checks c depth s2 b = (Inr (s3, Finished), d)" and
    w5: "on_files (source_subject (y_root c)) d = (Inr before, w5)" and
    s: "s = s3\<lparr>z_after := Some before\<rparr>" "v = w5"
    unfolding all_checks_def Let_def by (auto simp: under_Finished go_on_Finished runs simp del: tool_versions.simps each.simps)
  obtain l0 where l0: "w_log w3' = w_log w3 @ l0" using grows_log [OF r_unit_grows put] by blast
  obtain l1 n1 where 1: "w_log a = w_log w3' @ l1" "added (?s before val) s1 n1" "list_all (evidenced l1) n1"
    using does_Finished [OF does_tool_versions a] by blast
  obtain l2 n2 where 2: "w_log b = w_log a @ l2" "added s1 s2 n2" "list_all (evidenced l2) n2"
    "list_all pass n2 \<Longrightarrow> \<forall>p\<in>set (source_steps c). done_in n2 p"
    using does_Finished [OF does_source_checks b] by blast
  obtain l3 n3 where 3: "w_log d = w_log b @ l3" "added s2 s3 n3" "list_all (evidenced l3) n3"
    "list_all pass n3 \<Longrightarrow> mode_done c depth l3 n3"
    using does_Finished [OF does_mode_checks d] by blast
  let ?l = "l0 @ l1 @ l2 @ l3"
  have checks: "z_checks s = ?first # n1 @ n2 @ n3"
    using 1(2) 2(2) 3(2) s by (simp add: added_def noted_def fresh_session_def)
  have "list_all (evidenced ?l) (z_checks s)"
    using 1(3) 2(3) 3(3) evidenced_mono [of l1 _ l0 "l2 @ l3"] evidenced_mono [of l2 _ "l0 @ l1" l3]
      evidenced_mono [of l3 _ "l0 @ l1 @ l2" "[]"]
    by (auto simp: checks list_all_iff evidenced_def [of _ ?first])
  moreover have "mode_done c depth ?l (z_checks s)"
    using 3(4) pass mode_done_append [of c depth l3 n3 "l0 @ l1 @ l2" "[]" "?first # n1 @ n2" "[]"] by (simp add: checks)
  moreover have "\<forall>p\<in>set (source_steps c). done_in (z_checks s) p"
    using 2(4) pass done_in_append [of n2 _ "?first # n1" n3] by (simp add: checks)
  moreover have "w_log d = w_log w3 @ ?l" using l0 1(1) 2(1) 3(1) by simp
  moreover have "z_before s = Some before" "z_verdict s = Some val" "z_after s = Some before"
    using 1(2) 2(2) 3(2) s by (simp_all add: added_def noted_def)
  ultimately show ?thesis
    unfolding complete_pass_def using pass w1 w2 w5 s(2) by (metis append_Nil2)
qed

text \<open>Only the handler sets the error of the report.\<close>

definition no_error :: "staged \<Rightarrow> bool" where
  "no_error m \<longleftrightarrow> (\<forall>w s st v. m w = (Inr (s, st), v) \<longrightarrow> z_error s = None)"

lemma no_error_does: "does m s Q \<Longrightarrow> z_error s = None \<Longrightarrow> no_error m"
  unfolding does_def no_error_def added_def by (metis Pair_inject sum.inject(2))

lemma no_error_under: "z_error s = None \<Longrightarrow> (\<And>x. no_error (k x)) \<Longrightarrow> no_error (under s m k)"
  by (auto simp: no_error_def under_def split: prod.splits sum.splits)

lemma no_error_go_on: "does m s Q \<Longrightarrow> z_error s = None \<Longrightarrow> (\<And>s'. z_error s' = None \<Longrightarrow> no_error (k s')) \<Longrightarrow> no_error (go_on m k)"
proof -
  assume m: "does m s Q" "z_error s = None" and k: "\<And>s'. z_error s' = None \<Longrightarrow> no_error (k s')"
  have "no_error m" by (rule no_error_does [OF m])
  show "no_error (go_on m k)"
    unfolding no_error_def
  proof (intro allI impI)
    fix w t st v assume "go_on m k w = (Inr (t, st), v)"
    then obtain s' st' x where "m w = (Inr (s', st'), x)" "(case st' of Finished \<Rightarrow> k s' | Raised e \<Rightarrow> ret (s', Raised e)) x = (Inr (t, st), v)"
      unfolding go_on_def by (auto simp: runs)
    moreover from this have "z_error s' = None" using \<open>no_error m\<close> unfolding no_error_def by blast
    moreover from this have "no_error (k s')" by (rule k)
    ultimately show "z_error t = None"
      by (cases st') (simp_all add: no_error_def runs, blast)
  qed
qed

lemma no_error_all_checks: "z_error s = None \<Longrightarrow> no_error (all_checks u depth c s)"
  unfolding all_checks_def Let_def
  by (intro no_error_under no_error_go_on [OF does_tool_versions] no_error_go_on [OF does_source_checks]
      no_error_go_on [OF does_mode_checks]) (simp_all add: noted_def no_error_def ret_def)

lemma grows_finish: "grows (finish_checks c)"
  unfolding finish_checks_def evidence_manifest_def by (intro only_rules r_unit_grows) simp_all

text \<open>What the exit codes mean: 0 is a complete pass, every other run has an error or an entry that is not a pass.\<close>

definition meaning :: "unicode \<Rightarrow> nat \<Rightarrow> settings \<Rightarrow> check_exit \<Rightarrow> (rcall \<times> ranswer) list \<Rightarrow> bool" where
  "meaning u depth c r conversation \<longleftrightarrow>
     (case r of
        Misused \<Rightarrow> True
      | Ended code s \<Rightarrow> code = (if z_error s = None \<and> list_all pass (z_checks s) then 0 else 1) \<and>
          (z_error s = None \<and> list_all pass (z_checks s) \<longrightarrow>
             (\<exists>out temporary env. clean_env (y_path c) temporary = Inr env \<and>
                complete_pass u depth (c\<lparr>y_output := out, y_temporary := temporary, y_env := env\<rparr>) s conversation)))"

lemma complete_pass_append: "complete_pass u depth c s l \<Longrightarrow> complete_pass u depth c s (l @ l')"
  unfolding complete_pass_def by (metis append_assoc)

lemma meaning_checks_with:
  assumes "checks_with u depth c w = (Inr r, v)"
  shows "\<exists>code s. r = Ended code s \<and> code = (if z_error s = None \<and> list_all pass (z_checks s) then 0 else 1) \<and>
    (z_error s = None \<and> list_all pass (z_checks s) \<longrightarrow>
      (\<exists>env. clean_env (y_path c) (y_temporary c) = Inr env \<and> complete_pass u depth (c\<lparr>y_env := env\<rparr>) s (w_log v)))"
proof -
  let ?body = "under fresh_session (lift (clean_env (y_path c) (y_temporary c)))
    (\<lambda>env. all_checks u depth (c\<lparr>y_env := env\<rparr>) fresh_session)"
  from assms obtain s st x y where body: "?body w = (Inr (s, st), x)" and fin: "finish_checks c x = (Inr (), y)" and
    exit: "(case st of Finished \<Rightarrow> ret (Ended (run_code s st) s)
       | Raised e \<Rightarrow> if reported e then ret (Ended 1 (s\<lparr>z_error := Some e\<rparr>)) else raise e) y = (Inr r, v)"
    unfolding checks_with_def by (auto simp: runs)
  show ?thesis
  proof (cases st)
    case (Raised e)
    with exit have "r = Ended 1 (s\<lparr>z_error := Some e\<rparr>)" by (auto simp: runs split: if_splits)
    then show ?thesis by simp
  next
    case Finished
    have "no_error ?body" by (intro no_error_under no_error_all_checks) (simp_all add: fresh_session_def)
    with body have none: "z_error s = None" unfolding no_error_def by blast
    from exit Finished have r: "r = Ended (run_code s Finished) s" "v = y" by (auto simp: runs)
    have "\<exists>env. clean_env (y_path c) (y_temporary c) = Inr env \<and> complete_pass u depth (c\<lparr>y_env := env\<rparr>) s (w_log v)"
      if pass: "list_all pass (z_checks s)"
    proof -
      from body Finished obtain env where env: "clean_env (y_path c) (y_temporary c) = Inr env"
        and all: "all_checks u depth (c\<lparr>y_env := env\<rparr>) fresh_session w = (Inr (s, Finished), x)"
        by (auto simp: under_Finished runs)
      obtain l where "w_log y = w_log x @ l" using grows_log [OF grows_finish fin] by blast
      with all_checks_Finished [OF all pass] env r show ?thesis by (auto intro: complete_pass_append)
    qed
    with r none show ?thesis by (simp add: run_code_def)
  qed
qed

lemma meaning_run_checks: "run_checks u depth c w = (Inr r, v) \<Longrightarrow> meaning u depth c r (w_log v)"
proof -
  assume run: "run_checks u depth c w = (Inr r, v)"
  show "meaning u depth c r (w_log v)"
  proof (cases "r = Misused")
    case False
    with run obtain out temporary x where "checks_with u depth (c\<lparr>y_output := out, y_temporary := temporary\<rparr>) x = (Inr r, v)"
      unfolding run_checks_def Let_def by (auto simp: runs split: if_splits)
    from meaning_checks_with [OF this] show ?thesis
      unfolding meaning_def by fastforce
  qed (simp add: meaning_def)
qed

end
