(* ===== verification/Component_Ci_Spec.thy ===== *)
theory Component_Ci_Spec
  imports Component_Ci Check_Runner_Spec
begin

text \<open>
  The generated test runners hand each test what the check runner hands it, whatever characters its arguments hold; and
  the comparison accepts only files that are exactly the generated ones.
\<close>

section \<open>Words of the shell\<close>

text \<open>
  What POSIX says of the words of a simple command without operators: they are split at spaces outside quotes, quotes are
  removed, and \<open>$NAME\<close> is replaced in double quotes. Everything else that is special to the shell gives \<open>None\<close>.
\<close>

datatype quoting = Bare | Single | Double

definition name_char :: "nat \<Rightarrow> bool" where
  "name_char c \<longleftrightarrow> is_alnum c \<or> c = 95"

definition so_far :: "pystr option \<Rightarrow> pystr" where
  "so_far w = (case w of None \<Rightarrow> [] | Some x \<Rightarrow> x)"

function (sequential) sh :: "(pystr \<Rightarrow> pystr) \<Rightarrow> quoting \<Rightarrow> pystr option \<Rightarrow> pystr \<Rightarrow> pystr list option" where
  "sh env Bare w [] = Some (case w of None \<Rightarrow> [] | Some x \<Rightarrow> [x])"
| "sh env _ w [] = None"
| "sh env Bare w (c # cs) =
     (if c = 32 then (case w of None \<Rightarrow> sh env Bare None cs | Some x \<Rightarrow> map_option ((#) x) (sh env Bare None cs))
      else if c = 39 then sh env Single (Some (so_far w)) cs
      else if c = 34 then sh env Double (Some (so_far w)) cs
      else if sh_safe c then sh env Bare (Some (so_far w @ [c])) cs
      else None)"
| "sh env Single w (c # cs) =
     (if c = 39 then sh env Bare w cs else sh env Single (Some (so_far w @ [c])) cs)"
| "sh env Double w (c # cs) =
     (if c = 34 then sh env Bare w cs
      else if c = 36 then
        (if takeWhile name_char cs = [] \<or> is_digit (hd cs) then None
         else sh env Double (Some (so_far w @ env (takeWhile name_char cs))) (dropWhile name_char cs))
      else if c \<in> {92, 96} then None
      else sh env Double (Some (so_far w @ [c])) cs)"
  by pat_completeness auto
termination
  by (relation "measure (\<lambda>(env, q, w, s). length s)") (auto simp: le_imp_less_Suc length_dropWhile_le)

lemma so_far_Some [simp]: "so_far (Some x) = x"
  by (simp add: so_far_def)

section \<open>Quoting\<close>

lemma sh_quoted_body:
  "sh env Single (Some w) (concat (map (\<lambda>c. if c = 39 then [39, 34, 39, 34, 39] else [c]) s) @ 39 # r) = sh env Bare (Some (w @ s)) r"
  by (induction s arbitrary: w) simp_all

lemma sh_safe_not: "sh_safe c \<Longrightarrow> c \<noteq> 32 \<and> c \<noteq> 39 \<and> c \<noteq> 34 \<and> c \<noteq> 36"
  by (auto simp: sh_safe_def is_alnum_def is_lower_def is_upper_def is_digit_def str_def)

lemma sh_plain: "list_all sh_safe s \<Longrightarrow> s \<noteq> [] \<Longrightarrow> sh env Bare w (s @ r) = sh env Bare (Some (so_far w @ s)) r"
proof (induction s arbitrary: w)
  case (Cons c s)
  then show ?case using sh_safe_not [of c] by (cases s) auto
qed simp

lemma sh_quote: "sh env Bare w (sh_quote s @ r) = sh env Bare (Some (so_far w @ s)) r"
  using sh_plain [of s env w r] sh_quoted_body [of env "so_far w" s r] by (simp add: sh_quote_def)

text \<open>Text in double quotes.\<close>

definition plain_text :: "pystr \<Rightarrow> bool" where
  "plain_text s \<longleftrightarrow> set s \<inter> {34, 36, 92, 96} = {}"

lemma sh_double: "plain_text s \<Longrightarrow> sh env Double (Some w) (s @ 34 # r) = sh env Bare (Some (w @ s)) r"
  by (induction s arbitrary: w) (simp_all add: plain_text_def)

lemma sh_double_part: "plain_text s \<Longrightarrow> sh env Double (Some w) (s @ r) = sh env Double (Some (w @ s)) r"
  by (induction s arbitrary: w) (simp_all add: plain_text_def)

lemma sh_variable:
  assumes "list_all name_char n" "n \<noteq> []" "\<not> is_digit (hd n)" "\<not> name_char c"
  shows "sh env Double (Some w) (36 # n @ c # r) = sh env Double (Some (w @ env n)) (c # r)"
proof -
  have "takeWhile name_char (n @ c # r) = n" "dropWhile name_char (n @ c # r) = c # r"
    using assms by (auto simp: takeWhile_append2 dropWhile_append2 list_all_iff)
  with assms show ?thesis by (simp add: hd_append)
qed

section \<open>The command of a test\<close>

text \<open>What the script makes of an argument: \<open>D\<close> is its temporary directory, \<open>PWD\<close> the checkout.\<close>

definition located :: "(pystr \<Rightarrow> pystr) \<Rightarrow> pystr \<Rightarrow> pystr \<Rightarrow> pystr" where
  "located env name v =
     (if in_temp v then env (str ''D'') @ str ''/'' @ name @ str ''/'' @ drop 6 v else env (str ''PWD'') @ str ''/'' @ v)"

lemma sh_argument: "sh env Bare None (ci_argument name v @ r) = sh env Bare (Some (located env name v)) r"
proof -
  have D: "sh env Bare None (str ''\"$D/\"'' @ t) = sh env Bare (Some (env (str ''D'') @ str ''/'')) t" for t
    by (simp add: str_def so_far_def name_char_def is_alnum_def is_lower_def is_upper_def is_digit_def)
  have P: "sh env Bare None (str ''\"$PWD/\"'' @ t) = sh env Bare (Some (env (str ''PWD'') @ str ''/'')) t" for t
    by (simp add: str_def so_far_def name_char_def is_alnum_def is_lower_def is_upper_def is_digit_def)
  show ?thesis by (simp add: ci_argument_def located_def D P sh_quote)
qed

lemma sh_arguments:
  "sh env Bare (Some x) (concat (map (\<lambda>a. str '' '' @ a) (map (ci_argument name) vs))) = Some (x # map (located env name) vs)"
proof (induction vs arbitrary: x)
  case (Cons v vs)
  have "str '' '' @ t = 32 # t" for t by (simp add: str_def)
  with Cons show ?case by (simp add: sh_argument)
qed simp

text \<open>The words before the test program.\<close>

definition wrapper :: "(pystr \<Rightarrow> pystr) \<Rightarrow> pystr list" where
  "wrapper env = [str ''timeout'', str ''--kill-after=5s'', str ''600s'', str ''env'', str ''-i'', str ''PATH='' @ env (str ''PATH''),
     str ''HOME='' @ env (str ''D''), str ''TMPDIR='' @ env (str ''D''), str ''LANG=C.UTF-8'', str ''LC_ALL=C.UTF-8'']"

lemma sh_command:
  assumes "plain_text name"
  shows "sh env Bare None (test_command name (map (ci_argument name) vs)) =
    Some (wrapper env @ (env (str ''PWD'') @ str ''/build/test-bin/'' @ name) # map (located env name) vs)"
proof -
  have "sh env Bare None (str ''timeout --kill-after=5s 600s env -i PATH=\"$PATH\" HOME=\"$D\" TMPDIR=\"$D\" LANG=C.UTF-8 LC_ALL=C.UTF-8 '' @ t) =
      map_option ((@) (wrapper env)) (sh env Bare None t)" for t
    by (simp add: str_def so_far_def name_char_def sh_safe_def is_alnum_def is_lower_def is_upper_def is_digit_def wrapper_def
        option.map_comp comp_def) (cases "sh env Bare None t"; simp)
  moreover have "sh env Bare None (str ''\"$PWD/build/test-bin/'' @ t) = sh env Double (Some (env (str ''PWD'') @ str ''/build/test-bin/'')) t" for t
    by (simp add: str_def so_far_def name_char_def is_alnum_def is_lower_def is_upper_def is_digit_def)
  moreover have "sh env Double (Some w) (name @ str ''\"'' @ t) = sh env Bare (Some (w @ name)) t" for w t
    using sh_double [OF assms] by (simp add: str_def)
  ultimately show ?thesis
    unfolding test_command_def by (simp add: sh_arguments del: map_map)
qed

text \<open>An accepted argument, and what the check runner makes of it in the directory \<open>place\<close>.\<close>

lemma slash_no_root: "p \<noteq> str ''/'' \<Longrightarrow> slash p n = p @ str ''/'' @ n"
  by (simp add: slash_def)

lemma slash_not_root: "n \<noteq> [] \<Longrightarrow> n \<noteq> str ''/'' \<Longrightarrow> slash p n \<noteq> str ''/''"
  by (cases p; cases n) (auto simp: slash_def str_def)

lemma foldl_slash:
  assumes "p \<noteq> str ''/''" "list_all (\<lambda>x. x \<noteq> [] \<and> 47 \<notin> set x) (q # qs)"
  shows "foldl slash p (q # qs) = p @ str ''/'' @ join_with 47 (q # qs)"
  using assms
proof (induction qs arbitrary: p q)
  case (Cons r qs)
  have "slash p q \<noteq> str ''/''" using Cons.prems by (intro slash_not_root) (auto simp: str_def)
  then have "foldl slash (slash p q) (r # qs) = slash p q @ str ''/'' @ join_with 47 (r # qs)" using Cons by simp
  then show ?case using Cons.prems by (simp add: slash_no_root str_def)
qed (simp add: slash_no_root)

lemma runner_argument:
  assumes "stays_below (JStr v)" "place \<noteq> str ''/''" "env (str ''PWD'') \<noteq> str ''/''" "place = env (str ''D'') @ str ''/'' @ name"
  shows "\<exists>x. expand_argument place v = Inr x \<and> located env name v = (if in_temp v then x else slash (env (str ''PWD'')) x)"
proof -
  from assms(1) obtain r where r: "v = r \<or> v = str ''$TEMP/'' @ r" "36 \<notin> set r"
    "list_all (\<lambda>p. p \<noteq> [] \<and> p \<noteq> str ''..'' \<and> p \<noteq> str ''.'' \<and> 47 \<notin> set p) (split_on 47 r)"
    by (auto simp: stays_below_def)
  have dollar: "36 \<in> set v" if "in_temp v" for v
    using that set_take_subset [of 6 v] by (auto simp: in_temp_def str_def)
  from r(1) show ?thesis
  proof
    assume v: "v = r"
    then have "\<not> in_temp v" using dollar r(2) by blast
    with stays_below_expand [OF assms(1), of place] have "expand_argument place v = Inr v"
      by (auto simp: in_temp_def str_def)
    with \<open>\<not> in_temp v\<close> assms(3) show ?thesis by (simp add: located_def slash_no_root)
  next
    assume v: "v = str ''$TEMP/'' @ r"
    obtain q qs where q: "split_on 47 r = q # qs" by (cases "split_on 47 r") auto
    have path: "foldl slash place (split_on 47 r) = place @ str ''/'' @ join_with 47 (split_on 47 r)"
      unfolding q using r(3) assms(2) by (intro foldl_slash) (auto simp: q list_all_iff)
    have "pure_parts r = split_on 47 r" using r(3) by (intro pure_parts_plain) (auto simp: list_all_iff)
    moreover obtain x where "expand_argument place v = Inr x" using stays_below_expand [OF assms(1), of place] by blast
    ultimately have "expand_argument place v = Inr (foldl slash place (split_on 47 r))"
      using v by (auto simp: expand_argument_def in_temp_def ensure_def str_def Let_def split: if_splits)
    with v path assms(4) show ?thesis by (simp add: located_def in_temp_def str_def)
  qed
qed

text \<open>The script and the check runner start the same program with the same arguments; a relative one is resolved in the checkout.\<close>

definition resolved :: "(pystr \<Rightarrow> pystr) \<Rightarrow> pystr \<Rightarrow> pystr \<Rightarrow> pystr" where
  "resolved env v x = (if in_temp v then x else slash (env (str ''PWD'')) x)"

lemma same_arguments:
  assumes "list_all (\<lambda>v. stays_below (JStr v)) vs" "place \<noteq> str ''/''" "env (str ''PWD'') \<noteq> str ''/''"
    "place = env (str ''D'') @ str ''/'' @ name"
  shows "\<exists>args. for_each (expand_argument place) vs = Inr args \<and> map (located env name) vs = map2 (resolved env) vs args"
  using assms(1)
proof (induction vs)
  case (Cons v vs)
  with runner_argument [of v place env name] assms(2-4) show ?case by (auto simp: resolved_def)
qed simp

lemma same_command:
  assumes "list_all (\<lambda>v. stays_below (JStr v)) vs" "plain_text name" "name \<noteq> []" "repo \<in> set REPOS"
    "env (str ''PWD'') = in_root c repo" "place = env (str ''D'') @ str ''/'' @ name"
  shows "\<exists>args program. for_each (expand_argument place) vs = Inr args \<and> p_argv (test_step c repo name tier args) = program # args \<and>
    sh env Bare None (test_command name (map (ci_argument name) vs)) = Some (wrapper env @ program # map2 (resolved env) vs args)"
proof -
  have "str repo \<noteq> []" "str repo \<noteq> str ''/''" using assms(4) by (auto simp: REPOS_def str_def)
  then have root: "in_root c repo \<noteq> str ''/''" unfolding in_root_def by (rule slash_not_root)
  have "place \<noteq> str ''/''" using assms(3,6) by (cases "env (str ''D'')") (auto simp: str_def)
  with same_arguments [OF assms(1), of place env name] root assms(5,6)
  obtain args where args: "for_each (expand_argument place) vs = Inr args" "map (located env name) vs = map2 (resolved env) vs args"
    by auto
  have "slash (in_root c repo) (str ''build/test-bin'') \<noteq> str ''/''" by (rule slash_not_root) (simp_all add: str_def)
  then have "p_argv (test_step c repo name tier args) = (env (str ''PWD'') @ str ''/build/test-bin/'' @ name) # args"
    using root assms(5) by (simp add: test_step_def slash_no_root) (simp add: str_def)
  with args sh_command [OF assms(2), of env vs] show ?thesis by auto
qed

text \<open>For a test of the plan.\<close>

lemma ci_arguments_text: "ci_arguments name test ''arguments'' = Inr (map (ci_argument name) vs)"
  if "getitem test ''arguments'' = Inr (JArr (map JStr vs))"
proof -
  have "for_each (\<lambda>v. rbind (text_value v) (\<lambda>s. Inr (ci_argument name s))) (map JStr vs) = Inr (map (ci_argument name) vs)"
    by (induction vs) (simp_all add: text_value_def)
  with that show ?thesis by (simp add: ci_arguments_def item_def)
qed

lemma expanded_text:
  assumes "getitem test ''arguments'' = Inr (JArr (map JStr vs))" "for_each (expand_argument place) vs = Inr args"
  shows "expanded test place args"
proof -
  have "for_each (\<lambda>v. rbind (text_value v) (expand_argument place)) (map JStr vs) = for_each (expand_argument place) vs"
    by (induction vs) (simp_all add: text_value_def)
  with assms show ?thesis by (simp add: expanded_def item_def)
qed

lemma stays_below_texts: "list_all stays_below js \<Longrightarrow> \<exists>vs. js = map JStr vs \<and> list_all (\<lambda>v. stays_below (JStr v)) vs"
proof (induction js)
  case (Cons j js)
  then obtain vs where "js = map JStr vs" "list_all (\<lambda>v. stays_below (JStr v)) vs" by auto
  moreover from Cons.prems obtain v where "j = JStr v" by (auto simp: stays_below_def)
  ultimately show ?case using Cons.prems by (intro exI [of _ "v # vs"]) simp
qed simp

lemma same_test:
  assumes "getitem test ''arguments'' = Inr (JArr js)" "list_all stays_below js" "plain_text name" "name \<noteq> []" "repo \<in> set REPOS"
    "env (str ''PWD'') = in_root c repo" "place = env (str ''D'') @ str ''/'' @ name"
  shows "\<exists>vs words args program. js = map JStr vs \<and> ci_arguments name test ''arguments'' = Inr words \<and> expanded test place args \<and>
    p_argv (test_step c repo name tier args) = program # args \<and>
    sh env Bare None (test_command name words) = Some (wrapper env @ program # map2 (resolved env) vs args)"
proof -
  from stays_below_texts [OF assms(2)] obtain vs where vs: "js = map JStr vs" "list_all (\<lambda>v. stays_below (JStr v)) vs" by blast
  from same_command [OF vs(2) assms(3-7)] obtain args program where "for_each (expand_argument place) vs = Inr args"
    "p_argv (test_step c repo name tier args) = program # args"
    "sh env Bare None (test_command name (map (ci_argument name) vs)) = Some (wrapper env @ program # map2 (resolved env) vs args)"
    by blast
  with vs(1) assms(1) ci_arguments_text expanded_text show ?thesis by blast
qed

section \<open>The comparison\<close>

text \<open>\<open>says m Q\<close>: when \<open>m\<close> returns \<open>x\<close>, the conversation it had and \<open>x\<close> satisfy \<open>Q\<close>.\<close>

definition says :: "'a run \<Rightarrow> ('a \<Rightarrow> (rcall \<times> ranswer) list \<Rightarrow> bool) \<Rightarrow> bool" where
  "says m Q \<longleftrightarrow> (\<forall>w x v. m w = (Inr x, v) \<longrightarrow> (\<exists>l. w_log v = w_log w @ l \<and> Q x l))"

lemma says_mono: "says m P \<Longrightarrow> (\<And>x l. P x l \<Longrightarrow> Q x l) \<Longrightarrow> says m Q"
  unfolding says_def by blast

lemma says_ret: "Q x [] \<Longrightarrow> says (ret x) Q"
  by (simp add: says_def ret_def)

lemma says_lift: "(\<And>x. r = Inr x \<Longrightarrow> Q x []) \<Longrightarrow> says (lift r) Q"
  by (simp add: says_def lift_def)

lemma says_seq:
  assumes "says m P" "\<And>x l. P x l \<Longrightarrow> says (f x) (\<lambda>y l'. Q y (l @ l'))"
  shows "says (seq m f) Q"
  unfolding says_def
proof (intro allI impI)
  fix w y v assume "seq m f w = (Inr y, v)"
  then obtain x u where 1: "m w = (Inr x, u)" and 2: "f x u = (Inr y, v)" by (auto simp: runs)
  from assms(1) 1 obtain l where l: "w_log u = w_log w @ l" "P x l" unfolding says_def by blast
  from assms(2) [OF l(2)] 2 obtain l' where "w_log v = w_log u @ l'" "Q y (l @ l')" unfolding says_def by blast
  with l show "\<exists>l. w_log v = w_log w @ l \<and> Q y l" by (intro exI [of _ "l @ l'"]) simp
qed

lemma says_call: "(\<And>x a. f a = Inr x \<Longrightarrow> Q x [(c, a)]) \<Longrightarrow> says (r_call c f) Q"
  by (auto simp: says_def r_call_def logged_def split: ranswer.splits)

lemma says_each:
  assumes "\<And>x. x \<in> set xs \<Longrightarrow> says (f x) (P x)"
  shows "says (each f xs) (\<lambda>ys l. list_all2 (\<lambda>x y. \<exists>a b c. l = a @ b @ c \<and> P x y b) xs ys)"
  using assms
proof (induction xs)
  case (Cons x xs)
  show ?case
    unfolding each.simps
  proof (rule says_seq [OF Cons.prems], simp, rule says_seq [OF Cons.IH], simp add: Cons.prems, rule says_ret)
    fix y l ys l'
    assume y: "P x y l" and ys: "list_all2 (\<lambda>x y. \<exists>a b c. l' = a @ b @ c \<and> P x y b) xs ys"
    have "list_all2 (\<lambda>x y. \<exists>a b c. l @ l' @ [] = a @ b @ c \<and> P x y b) xs ys"
      using ys by (rule list_all2_mono) (metis append_assoc append_Nil2)
    moreover have "\<exists>a b c. l @ l' @ [] = a @ b @ c \<and> P x y b" using y by (metis append_Nil)
    ultimately show "list_all2 (\<lambda>x y. \<exists>a b c. l @ l' @ [] = a @ b @ c \<and> P x y b) (x # xs) (y # ys)" by simp
  qed
qed (simp add: says_ret)

text \<open>What holds of a part of the conversation for each element holds of all of it.\<close>

lemma all_parts:
  assumes "list_all2 (\<lambda>x y. \<exists>a b c. l = a @ b @ c \<and> (R y \<longrightarrow> P x b)) xs ys" "\<forall>y\<in>set ys. R y"
    "\<And>x b. P x b \<Longrightarrow> set b \<subseteq> set l \<Longrightarrow> P x l"
  shows "\<forall>x\<in>set xs. P x l"
  using assms(1,2)
proof (induction xs ys rule: list_all2_induct)
  case (Cons x xs y ys)
  from Cons(1,4) obtain a b c where "l = a @ b @ c" "P x b" by auto
  with assms(3) [of x b] Cons(3,4) show ?case by auto
qed simp

lemma says_files:
  "says (on_files m) (\<lambda>x l. \<exists>w v. on_files m w = (Inr x, v) \<and> w_log v = w_log w @ l)"
  unfolding says_def by (metis grows_log only_on_files TrueI)

text \<open>In the conversation \<open>l\<close> the path was a file, with these bytes and these permissions.\<close>

definition in_place :: "(rcall \<times> ranswer) list \<Rightarrow> pystr \<Rightarrow> pystr list \<Rightarrow> bytes \<Rightarrow> nat \<Rightarrow> bool" where
  "in_place l root path data mode \<longleftrightarrow>
     (Is_file (placed_at root path), Yes_no True) \<in> set l \<and> (Read_all (placed_at root path), Data data) \<in> set l \<and>
     (\<exists>m. (Mode_of (placed_at root path), Count m) \<in> set l \<and> m mod 512 = int mode)"

definition text_in_place :: "(rcall \<times> ranswer) list \<Rightarrow> pystr \<Rightarrow> string list \<Rightarrow> pystr \<Rightarrow> nat \<Rightarrow> bool" where
  "text_in_place l root path text mode \<longleftrightarrow> (\<exists>b. encode text = Inr b \<and> in_place l root (map str path) b mode)"

definition copy_in_place :: "(rcall \<times> ranswer) list \<Rightarrow> pystr \<Rightarrow> string \<Rightarrow> string \<Rightarrow> bool" where
  "copy_in_place l root repo name \<longleftrightarrow>
     (\<exists>b. (Read_all (slash root (str (''assurance/ci/'' @ name))), Data b) \<in> set l \<and> in_place l root (map str [repo, ''ci'', name]) b 420)"

definition component_in_step :: "pystr \<Rightarrow> json \<Rightarrow> pystr list \<Rightarrow> (rcall \<times> ranswer) list \<Rightarrow> string \<Rightarrow> bool" where
  "component_in_step root tests packages l repo \<longleftrightarrow>
     (\<exists>script. script_text repo tests = Inr script \<and> text_in_place l root [repo, ''ci'', ''test-all.sh''] script 493) \<and>
     (repo \<noteq> ''assurance'' \<longrightarrow> list_all (copy_in_place l root repo) COPIED) \<and>
     text_in_place l root [repo, ''ci'', ''proof.mk''] (lines_text PROOF_MK) 420 \<and>
     text_in_place l root [repo, ''ci'', ''setup-container.sh''] (setup_text packages) 493 \<and>
     text_in_place l root [repo, ''.github'', ''workflows'', ''ci.yml''] (workflow_text repo) 420"

lemma in_place_mono: "in_place l root path data mode \<Longrightarrow> set l \<subseteq> set l' \<Longrightarrow> in_place l' root path data mode"
  by (auto simp: in_place_def)

lemma text_in_place_mono: "text_in_place l root path text mode \<Longrightarrow> set l \<subseteq> set l' \<Longrightarrow> text_in_place l' root path text mode"
  unfolding text_in_place_def using in_place_mono by blast

lemma copy_in_place_mono: "copy_in_place l root repo name \<Longrightarrow> set l \<subseteq> set l' \<Longrightarrow> copy_in_place l' root repo name"
  unfolding copy_in_place_def using in_place_mono by blast

lemma component_in_step_mono:
  "component_in_step root tests packages l repo \<Longrightarrow> set l \<subseteq> set l' \<Longrightarrow> component_in_step root tests packages l' repo"
  unfolding component_in_step_def list_all_iff using text_in_place_mono copy_in_place_mono by blast

lemma says_check_file: "says (check_file root path data mode) (\<lambda>x l. x = [] \<longrightarrow> in_place l root path data mode)"
  unfolding check_file_def Let_def r_bool_def r_int_def read_all_def
  by (intro says_seq [OF says_call [where Q = "\<lambda>x l. \<exists>c. x \<longrightarrow> l = [(Is_file (placed_at root path), Yes_no True)]"]])
    (auto split: ranswer.splits if_splits intro!: says_ret says_seq [OF says_call [where Q = "\<lambda>x l. l = [(Read_all (placed_at root path), Data x)]"]]
      says_seq [OF says_call [where Q = "\<lambda>x l. l = [(Mode_of (placed_at root path), Count x)]"]] simp: in_place_def)

lemma says_text_file: "says (text_file (check_file root) path text mode) (\<lambda>x l. x = [] \<longrightarrow> text_in_place l root path text mode)"
  unfolding text_file_def
  by (rule says_seq [OF says_lift [where Q = "\<lambda>b l. encode text = Inr b \<and> l = []"]])
    (auto intro!: says_mono [OF says_check_file] simp: text_in_place_def)

lemma says_copies:
  "says (copies root (check_file root) repo) (\<lambda>xs l. (\<forall>x\<in>set xs. x = []) \<longrightarrow> repo \<noteq> ''assurance'' \<longrightarrow> list_all (copy_in_place l root repo) COPIED)"
proof (cases "repo = ''assurance''")
  case False
  let ?f = "\<lambda>name. seq (read_all (slash root (str (''assurance/ci/'' @ name))))
    (\<lambda>b. check_file root (map str [repo, ''ci'', name]) b 420)"
  have "says (?f name) (\<lambda>x l. x = [] \<longrightarrow> copy_in_place l root repo name)" for name
    unfolding read_all_def
    by (rule says_seq [OF says_call [where Q = "\<lambda>b l. l = [(Read_all (slash root (str (''assurance/ci/'' @ name))), Data b)]"]])
      (auto intro!: says_mono [OF says_check_file] simp: copy_in_place_def in_place_def split: ranswer.splits)
  note each = says_each [of COPIED ?f, OF this]
  have "says (each ?f COPIED) (\<lambda>xs l. (\<forall>x\<in>set xs. x = []) \<longrightarrow> repo \<noteq> ''assurance'' \<longrightarrow> list_all (copy_in_place l root repo) COPIED)"
  proof (rule says_mono [OF each], intro impI)
    fix xs l
    assume "list_all2 (\<lambda>name x. \<exists>a b c. l = a @ b @ c \<and> (x = [] \<longrightarrow> copy_in_place b root repo name)) COPIED xs"
      and "\<forall>x\<in>set xs. x = []"
    from all_parts [OF this] copy_in_place_mono show "list_all (copy_in_place l root repo) COPIED"
      unfolding list_all_iff by blast
  qed
  with False show ?thesis by (simp add: copies_def)
qed (simp add: says_def copies_def ret_def)

lemma says_component:
  "says (component_files root (check_file root) tests packages repo)
    (\<lambda>xs l. (\<forall>x\<in>set xs. x = []) \<longrightarrow> component_in_step root tests packages l repo)"
  unfolding component_files_def
proof (rule says_seq [OF says_lift [where Q = "\<lambda>t l. script_text repo tests = Inr t \<and> l = []"]], simp,
    rule says_seq [OF says_text_file], rule says_seq [OF says_copies], rule says_seq [OF says_text_file],
    rule says_seq [OF says_text_file], rule says_seq [OF says_text_file], rule says_ret, goal_cases)
  case (1 script l0 a la bs lb c lc d ld e le)
  show ?case
  proof
    assume "\<forall>x\<in>set ([a] @ bs @ [c, d, e]). x = []"
    then have "text_in_place la root [repo, ''ci'', ''test-all.sh''] script 493"
      "repo \<noteq> ''assurance'' \<longrightarrow> list_all (copy_in_place lb root repo) COPIED"
      "text_in_place lc root [repo, ''ci'', ''proof.mk''] (lines_text PROOF_MK) 420"
      "text_in_place ld root [repo, ''ci'', ''setup-container.sh''] (setup_text packages) 493"
      "text_in_place le root [repo, ''.github'', ''workflows'', ''ci.yml''] (workflow_text repo) 420"
      using 1 by auto
    moreover have "set la \<subseteq> set (l0 @ la @ lb @ lc @ ld @ le @ [])" "set lb \<subseteq> set (l0 @ la @ lb @ lc @ ld @ le @ [])"
      "set lc \<subseteq> set (l0 @ la @ lb @ lc @ ld @ le @ [])" "set ld \<subseteq> set (l0 @ la @ lb @ lc @ ld @ le @ [])"
      "set le \<subseteq> set (l0 @ la @ lb @ lc @ ld @ le @ [])"
      by auto
    ultimately show "component_in_step root tests packages (l0 @ la @ lb @ lc @ ld @ le @ []) repo"
      using 1(1) unfolding component_in_step_def list_all_iff using text_in_place_mono copy_in_place_mono by blast
  qed
qed

text \<open>Everything that is generated from the plan and the packages that were read.\<close>

definition in_step :: "nat \<Rightarrow> pystr \<Rightarrow> (rcall \<times> ranswer) list \<Rightarrow> bool" where
  "in_step depth root l \<longleftrightarrow>
     (\<exists>plan tests b text. loaded root depth l plan \<and> getitem plan ''ada_tests'' = Inr tests \<and>
        (Read_all (slash root (str ''dev/packages.txt'')), Data b) \<in> set l \<and> decoded b = Inr text \<and>
        list_all (component_in_step root tests (split_space [] text) l) REPOS)"

lemma in_step_append: "in_step depth root l \<Longrightarrow> in_step depth root (a @ l @ b)"
proof -
  assume "in_step depth root l"
  then obtain plan tests bs t where *: "loaded root depth l plan" "getitem plan ''ada_tests'' = Inr tests"
    "(Read_all (slash root (str ''dev/packages.txt'')), Data bs) \<in> set l" "decoded bs = Inr t"
    "list_all (component_in_step root tests (split_space [] t) l) REPOS"
    unfolding in_step_def by blast
  have "list_all (component_in_step root tests (split_space [] t) (a @ l @ b)) REPOS"
    using *(5) component_in_step_mono [of root tests "split_space [] t" l _ "a @ l @ b"] by (auto simp: list_all_iff)
  with * loaded_append show ?thesis unfolding in_step_def by fastforce
qed

lemma says_generated:
  "says (generated depth root (check_file root)) (\<lambda>xs l. concat xs = [] \<longrightarrow> in_step depth root l)"
  unfolding generated_def
proof (rule says_seq [OF says_files], goal_cases)
  case (1 plan l0)
  then have plan: "loaded root depth l0 plan" unfolding loaded_def by (metis append_Nil append_Nil2)
  show ?case
  proof (rule says_seq [OF says_lift [where Q = "\<lambda>t l. getitem plan ''ada_tests'' = Inr t \<and> l = []"]], simp, goal_cases)
    case (1 tests l1)
    then have tests: "getitem plan ''ada_tests'' = Inr tests" "l1 = []" by simp_all
    show ?case
    proof (rule says_seq [where P = "\<lambda>b l. l = [(Read_all (slash root (str ''dev/packages.txt'')), Data b)]"], goal_cases)
      case 1
      show ?case unfolding read_all_def by (rule says_call) (auto split: ranswer.splits)
    next
      case (2 b l2)
      show ?case
      proof (rule says_seq [OF says_lift [where Q = "\<lambda>t l. decoded b = Inr t \<and> l = []"]], simp,
          rule says_seq [OF says_each [OF says_component]], rule says_ret, intro impI, goal_cases)
        case (1 t l3 xss l4)
        let ?l = "l0 @ l1 @ l2 @ l3 @ l4 @ []"
        have "\<forall>xs\<in>set xss. \<forall>x\<in>set xs. x = []" using 1(3) by simp
        from all_parts [OF 1(2) this] component_in_step_mono have "\<forall>repo\<in>set REPOS. component_in_step root tests (split_space [] t) l4 repo"
          by blast
        then have "\<forall>repo\<in>set REPOS. component_in_step root tests (split_space [] t) ?l repo"
          using component_in_step_mono [of root tests "split_space [] t" l4 _ ?l] by auto
        moreover have "loaded root depth ?l plan" using loaded_append [OF plan, of "[]" "l1 @ l2 @ l3 @ l4"] by simp
        moreover have "(Read_all (slash root (str ''dev/packages.txt'')), Data b) \<in> set ?l" using 2 by simp
        ultimately show ?case using tests(1) 1(1) unfolding in_step_def list_all_iff by blast
      qed
    qed
  qed
qed

section \<open>sync_ci\<close>

text \<open>The sources were accepted in the conversation.\<close>

definition sources_accepted :: "unicode \<Rightarrow> nat \<Rightarrow> pystr \<Rightarrow> (rcall \<times> ranswer) list \<Rightarrow> bool" where
  "sources_accepted u depth root l \<longleftrightarrow> (\<exists>w v verdict. on_files (validate u depth root) w = (Inr verdict, v) \<and> w_log v = w_log w @ l)"

lemma says_sync_ci:
  "says (sync_ci u depth False root) (\<lambda>x l. x = In_step \<longrightarrow> (\<exists>l1 l2. l = l1 @ l2 \<and> sources_accepted u depth root l1 \<and> in_step depth root l2))"
  unfolding sync_ci_def
proof (rule says_seq [OF says_files], goal_cases)
  case (1 verdict l)
  then have accepted: "sources_accepted u depth root l" unfolding sources_accepted_def by blast
  show ?case
    by (simp, rule says_seq [OF says_generated], rule says_ret) (use accepted in auto)
qed

text \<open>The files it may write.\<close>

definition component_paths :: "string \<Rightarrow> pystr list list" where
  "component_paths repo = map (map str) ([[repo, ''ci'', ''test-all.sh''], [repo, ''ci'', ''proof.mk''], [repo, ''ci'', ''setup-container.sh''],
     [repo, ''.github'', ''workflows'', ''ci.yml'']] @ (if repo = ''assurance'' then [] else map (\<lambda>name. [repo, ''ci'', name]) COPIED))"

definition generated_paths :: "pystr list list" where
  "generated_paths = concat (map component_paths REPOS)"

fun sync_call :: "bool \<Rightarrow> pystr \<Rightarrow> rcall \<Rightarrow> bool" where
  "sync_call write root (File c) \<longleftrightarrow> observes c"
| "sync_call write root (Is_file p) \<longleftrightarrow> True"
| "sync_call write root (Read_all p) \<longleftrightarrow> True"
| "sync_call write root (Mode_of p) \<longleftrightarrow> True"
| "sync_call write root (Make_dirs p) \<longleftrightarrow> write \<and> (\<exists>path\<in>set generated_paths. p = placed_at root (butlast path))"
| "sync_call write root (Put_bytes p b) \<longleftrightarrow> write \<and> (\<exists>path\<in>set generated_paths. p = placed_at root path)"
| "sync_call write root (Chmod p m) \<longleftrightarrow> write \<and> (\<exists>path\<in>set generated_paths. p = placed_at root path)"
| "sync_call write root _ \<longleftrightarrow> False"

lemma only_read_all [only_rules]: "C (Read_all p) \<Longrightarrow> only C (read_all p)"
  unfolding read_all_def by (rule only_rules)

lemma only_generated:
  assumes handle: "\<And>path b m. path \<in> set generated_paths \<Longrightarrow> only (sync_call write root) (handle path b m)"
  shows "only (sync_call write root) (generated depth root handle)"
proof -
  have path: "path \<in> set (component_paths repo) \<Longrightarrow> repo \<in> set REPOS \<Longrightarrow> path \<in> set generated_paths" for path repo
    by (auto simp: generated_paths_def)
  have "only (sync_call write root) (component_files root handle tests packages repo)" if "repo \<in> set REPOS" for tests packages repo
    unfolding component_files_def text_file_def copies_def
    by (intro only_rules handle path [OF _ that] impI) (auto simp: component_paths_def COPIED_def)
  then show ?thesis
    unfolding generated_def by (intro only_rules only_files [OF checkerD(1) [OF checks_load_json]]) auto
qed

lemma only_sync_ci: "only (sync_call write root) (sync_ci u depth write root)"
proof -
  have "only (sync_call write root) (if write then write_file root path b m else check_file root path b m)"
    if "path \<in> set generated_paths" for path b m
    using that unfolding write_file_def check_file_def Let_def by (auto intro!: only_rules)
  then have "only (sync_call write root) (generated depth root (if write then write_file root else check_file root))"
    by (intro only_generated) (auto split: if_splits)
  moreover have "only observes (validate u depth root)" using checks_validate checkerD(1) by blast
  ultimately show ?thesis
    unfolding sync_ci_def by (intro only_rules only_files) auto
qed

text \<open>A test name is not quoted: the shell would expand what follows a dollar sign in it.\<close>

lemma name_unquoted:
  "sh env Bare None (test_command (str ''a$D'') []) =
     Some (wrapper env @ [env (str ''PWD'') @ str ''/build/test-bin/a'' @ env (str ''D'')])"
  by (simp add: test_command_def str_def so_far_def name_char_def sh_safe_def is_alnum_def is_lower_def is_upper_def is_digit_def
      wrapper_def)

section \<open>An example\<close>

definition demo_env :: "pystr \<Rightarrow> pystr" where
  "demo_env n = (if n = str ''D'' then str ''/tmp/nia-tests.x'' else if n = str ''PWD'' then str ''/srv/pkgcore'' else str ''/usr/bin:/bin'')"

definition demo_settings :: settings where
  "demo_settings = \<lparr>y_mode = Build, y_host = False, y_timeout = 600, y_python = str ''/usr/bin/python3'', y_path = None,
     y_root = str ''/srv'', y_output = str ''/srv/out'', y_temporary = str ''/tmp/t'', y_env = []\<rparr>"

text \<open>An argument with a quote, a space and a command separator.\<close>

definition demo_words :: "json list" where
  "demo_words = [JStr (str ''$TEMP/it'' @ [39] @ str ''s; rm *''), JStr (str ''tests/fixtures'')]"

definition demo_test :: json where
  "demo_test = JObj [(str ''main'', JStr (str ''pkgcore/tests/run_a.adb'')), (str ''arguments'', JArr demo_words)]"

lemma demo_words_below: "list_all stays_below demo_words"
proof -
  have "stays_below (JStr (str ''$TEMP/it'' @ [39] @ str ''s; rm *''))"
    unfolding stays_below_def
    by (intro exI [of _ "str ''$TEMP/it'' @ [39] @ str ''s; rm *''"] exI [of _ "str ''it'' @ [39] @ str ''s; rm *''"])
      (simp add: str_def)
  moreover have "stays_below (JStr (str ''tests/fixtures''))"
    unfolding stays_below_def by (intro exI [of _ "str ''tests/fixtures''"]) (simp add: str_def)
  ultimately show ?thesis by (simp add: demo_words_def)
qed

end
