(* ===== verification/Rebind.thy ===== *)
theory Rebind
  imports Check_Runner
begin

text \<open>
  \<open>ci/rebind-development.py\<close>: the fixed list of commands that regenerate the locks of the sources and the public test
  fixtures, checked, printed as a plan, and run one after the other on an explicit request. It runs them with the
  \<open>run_command\<close> of the check runner, so the settings, the record of a command and the report are those of theory
  \<open>Check_Runner\<close>.
\<close>

section \<open>plan\<close>

record planned =
  d_name :: pystr
  d_argv :: "pystr list"
  d_cwd :: "pystr option"

definition COMMANDS :: "(string \<times> string list) list" where
  "COMMANDS = [
     (''shared-contract'', [''assurance/ci/refresh-contract.py'', ''--write'', ''--acknowledge-interface-change'', ''--sync-sibling-vendors'']),
     (''resolver-profile'', [''resolvercore/ci/profile.py'', ''--write'', ''--acknowledge-incompatible-change'', ''--sync-pkgcore'']),
     (''manager-profile'', [''controlcore/ci/manager-profile.py'', ''--write'', ''--acknowledge-interface-change'']),
     (''public-shared-fixtures'', [''assurance/ci/regenerate-public-fixtures.py'', ''--public-test-only'']),
     (''public-manager-fixtures'', [''controlcore/ci/generate-test-fixtures.py'', ''--public-test-only'']),
     (''source-inventory'', [''assurance/ci/engineering.py'', ''inventory'', ''--write'']),
     (''traceability'', [''assurance/ci/engineering.py'', ''check'']),
     (''resolver-check'', [''resolvercore/ci/profile.py'']),
     (''native-resolver-check'', [''pkgcore/ci/check-resolver.py'']),
     (''manager-check'', [''controlcore/ci/manager-profile.py''])]"

definition plan :: "pystr \<Rightarrow> planned list" where
  "plan executable =
     map (\<lambda>(name, argv). \<lparr>d_name = str name, d_argv = executable # map str (''-B'' # argv), d_cwd = None\<rparr>) COMMANDS @
     map (\<lambda>repo. \<lparr>d_name = str (repo @ ''-contract''), d_argv = map str [''/bin/sh'', repo @ ''/ci/check-contract.sh''], d_cwd = Some (str repo)\<rparr>) REPOS"

section \<open>checked_plan\<close>

text \<open>\<open>p.is_symlink() or not p.is_dir()\<close> refuses.\<close>

definition ordinary_directory :: "string \<Rightarrow> pystr \<Rightarrow> unit io" where
  "ordinary_directory what p =
     seq (is_symlink p) (\<lambda>linked.
     seq (if linked then ret False else seq (sys_int (Is_directory p)) (\<lambda>i. ret (i \<noteq> 0))) (\<lambda>there.
     check there (Invalid what)))"

fun tool_unlinked :: "pystr \<Rightarrow> pystr list \<Rightarrow> unit io" where
  "tool_unlinked current [] = ret ()"
| "tool_unlinked current (part # parts) =
     seq (is_symlink (slash current part)) (\<lambda>linked.
     seq (check (\<not> linked) (Invalid ''linked tool path'')) (\<lambda>_.
     tool_unlinked (slash current part) parts))"

definition checked_step :: "pystr \<Rightarrow> pystr \<Rightarrow> planned \<Rightarrow> planned io" where
  "checked_step executable root d =
     seq (lift (rbind (argument (d_argv d) 0) (\<lambda>a. argument (d_argv d) (if a = executable then 2 else 1)))) (\<lambda>tool.
     seq (tool_unlinked root (pure_parts tool)) (\<lambda>_.
     seq (read_regular (slash root tool) READ_LIMIT) (\<lambda>_.
     ret (if d_cwd d = None then d else d\<lparr>d_argv := map str [''/bin/sh'', ''ci/check-contract.sh'']\<rparr>))))"

definition checked_plan :: "pystr \<Rightarrow> pystr \<Rightarrow> planned list io" where
  "checked_plan executable root =
     seq (ordinary_directory ''ordinary root required'' root) (\<lambda>_.
     seq (each (\<lambda>repo. ordinary_directory ''seven ordinary repositories and distribution required'' (slash root (str repo))) WORKTREES) (\<lambda>_.
     each (checked_step executable root) (plan executable)))"

section \<open>main\<close>

definition authorize_write :: "bool \<Rightarrow> bool \<Rightarrow> bool \<Rightarrow> int \<Rightarrow> unit res" where
  "authorize_write write ack public euid =
     (if \<not> write then ensure (\<not> (ack \<or> public)) (Invalid ''acknowledgements require --write'')
      else rbind (ensure (ack \<and> public) (Invalid ''both explicit acknowledgements required'')) (\<lambda>_.
        ensure (euid \<noteq> 0) (Invalid ''run only as an unprivileged developer in an isolated checkout'')))"

text \<open>\<open>BASE / step.get('cwd', '.')\<close>\<close>

definition as_step :: "settings \<Rightarrow> planned \<Rightarrow> step" where
  "as_step c d = \<lparr>p_name = d_name d, p_argv = d_argv d,
     p_cwd = (case d_cwd d of None \<Rightarrow> y_root c | Some repo \<Rightarrow> slash (y_root c) repo), p_layer = []\<rparr>"

fun run_plan :: "settings \<Rightarrow> step list \<Rightarrow> session \<Rightarrow> staged" where
  "run_plan c [] s = ret (s, Finished)"
| "run_plan c (p # ps) s =
     go_on (invoke c p s) (\<lambda>s.
     under s (check (last_passed s) (Invalid ''stopped after failed step'')) (\<lambda>_. run_plan c ps s))"

datatype rebind_exit = Plan_only "planned list" | Rebound session

text \<open>The \<open>try\<close> statement: the report is written and the temporary directory removed in any case.\<close>

definition rebind_with :: "settings \<Rightarrow> planned list \<Rightarrow> rebind_exit run" where
  "rebind_with c steps =
     seq (on_files (source_subject (y_root c))) (\<lambda>before.
     let s = fresh_session\<lparr>z_before := Some before\<rparr> in
     seq (under s (lift (clean_env (y_path c) (y_temporary c))) (\<lambda>env.
       let c = c\<lparr>y_env := env\<rparr> in run_plan c (map (as_step c) steps) s)) (\<lambda>(s, st).
     seq (on_files (source_subject (y_root c))) (\<lambda>after.
     seq (r_unit (Put (in_output c (str ''report.json'')))) (\<lambda>_.
     seq (r_unit (Remove_tree (y_temporary c))) (\<lambda>_.
     case st of
       Finished \<Rightarrow> ret (Rebound (s\<lparr>z_after := Some after\<rparr>))
     | Raised e \<Rightarrow> raise e)))))"

definition rebind :: "settings \<Rightarrow> bool \<Rightarrow> bool \<Rightarrow> bool \<Rightarrow> rebind_exit run" where
  "rebind c write ack public =
     seq (r_int Effective_user) (\<lambda>euid.
     seq (lift (authorize_write write ack public euid)) (\<lambda>_.
     seq (on_files (checked_plan (y_python c) (y_root c))) (\<lambda>steps.
     if \<not> write then ret (Plan_only steps)
     else
       let evidence = in_root c ''assurance/evidence'' in
       seq (on_files (is_symlink evidence)) (\<lambda>linked.
       seq (check (\<not> linked) (Invalid ''linked evidence directory'')) (\<lambda>_.
       seq (r_unit (Make_dir evidence)) (\<lambda>_.
       seq (make_temp (str ''development-rebind-'') (Some evidence)) (\<lambda>output.
       seq (make_temp (str ''nia-public-fixture-home-'') None) (\<lambda>home.
       rebind_with (c\<lparr>y_timeout := 120, y_output := output, y_temporary := home\<rparr>) steps))))))))"

end
