(* ===== verification/Rebind_Spec.thy ===== *)
theory Rebind_Spec
  imports Rebind Check_Runner_Spec
begin

text \<open>
  Without a request nothing is run. With one, an unprivileged user has all commands of the plan run in order, each as a
  process of its own that ended with code 0, or the first failure ends it.
\<close>

section \<open>The plan\<close>

text \<open>The directories and tools were looked at; the commands are those of the plan.\<close>

definition runs_as :: "planned \<Rightarrow> planned" where
  "runs_as d = (if d_cwd d = None then d else d\<lparr>d_argv := map str [''/bin/sh'', ''ci/check-contract.sh'']\<rparr>)"

lemma checked_stepD: "checked_step executable root d w = (Inr d', v) \<Longrightarrow> d' = runs_as d"
  by (auto simp: checked_step_def runs_as_def runs)

lemma each_results: "each f xs w = (Inr ys, v) \<Longrightarrow> (\<And>x w y v. f x w = (Inr y, v) \<Longrightarrow> y = g x) \<Longrightarrow> ys = map g xs"
proof (induction xs arbitrary: w ys)
  case (Cons x xs)
  from Cons.prems(1) obtain y u ys' where "f x w = (Inr y, u)" "each f xs u = (Inr ys', v)" "ys = y # ys'"
    by (auto simp: runs)
  with Cons.IH [of u ys'] Cons.prems(2) show ?case by auto
qed (auto simp: runs)

lemma checked_planD: "checked_plan executable root w = (Inr steps, v) \<Longrightarrow> steps = map runs_as (plan executable)"
  unfolding checked_plan_def by (auto simp: runs simp del: each.simps dest!: each_results [OF _ checked_stepD])

lemma on_files_Inr: "on_files m w = (Inr x, v) \<Longrightarrow> \<exists>w' v'. m w' = (Inr x, v')"
  by (auto simp: on_files_def split: prod.splits)

lemma observes_tool: "only observes (tool_unlinked p parts)"
  by (induction parts arbitrary: p) (auto intro!: only_rules looks_is_symlink [THEN checkerD(1)])

lemma observes_checked_plan: "only observes (checked_plan executable root)"
  unfolding checked_plan_def checked_step_def ordinary_directory_def
  by (intro only_rules looks_is_symlink [THEN checkerD(1)] observes_tool looks_read_regular [THEN checkerD(1)]) simp_all

section \<open>The commands\<close>

lemma invoke_adds: "invoke c p s w = (Inr (s', Finished), v) \<Longrightarrow> \<exists>k. z_checks s' = z_checks s @ [k]"
  by (auto simp: invoke_def under_Finished runs noted_def)

text \<open>The commands that were run, in the order of the plan, with the evidence for each in the conversation.\<close>

definition all_ran :: "step list \<Rightarrow> checked list \<Rightarrow> (rcall \<times> ranswer) list \<Rightarrow> bool" where
  "all_ran ps new l \<longleftrightarrow> list_all2 is_run_of ps new \<and> list_all pass new \<and> list_all (evidenced l) new"

lemma all_ran_append: "all_ran ps new l \<Longrightarrow> all_ran ps new (a @ l @ b)"
  by (auto simp: all_ran_def list_all_iff evidenced_mono)

lemma run_plan_Finished:
  "run_plan c ps s w = (Inr (s', Finished), v) \<Longrightarrow> \<exists>l new. w_log v = w_log w @ l \<and> added s s' new \<and> all_ran ps new l"
proof (induction ps arbitrary: s w)
  case Nil
  then show ?case by (auto simp: runs added_def all_ran_def intro!: exI [of _ "[]"])
next
  case (Cons p ps)
  then obtain s1 u where 1: "invoke c p s w = (Inr (s1, Finished), u)" "last_passed s1" and 2: "run_plan c ps s1 u = (Inr (s', Finished), v)"
    by (auto simp: go_on_Finished under_Finished runs)
  from does_Finished [OF does_invoke 1(1)] obtain l new where l: "w_log u = w_log w @ l" "added s s1 new" "list_all (evidenced l) new"
    "list_all pass new \<Longrightarrow> \<exists>k. new = [k] \<and> is_run_of p k"
    by blast
  from invoke_adds [OF 1(1)] l(2) obtain k where k: "new = [k]" by (auto simp: added_def)
  with 1(2) l(2) have "pass k" using last_passed_added by blast
  with l(4) k have "is_run_of p k" by simp
  from Cons.IH [OF 2] obtain l' new' where "w_log v = w_log u @ l'" "added s1 s' new'" "all_ran ps new' l'" by blast
  with l k \<open>pass k\<close> \<open>is_run_of p k\<close> show ?case
    by (intro exI [of _ "l @ l'"] exI [of _ "k # new'"]) (auto simp: added_def all_ran_def list_all_iff evidenced_mono')
qed

section \<open>rebind\<close>

text \<open>
  What a finished run means: the digest of the sources was taken, then every command of the checked plan was run in the
  checkout or repository it names, and then the digest was taken again.
\<close>

definition rebound :: "settings \<Rightarrow> session \<Rightarrow> (rcall \<times> ranswer) list \<Rightarrow> bool" where
  "rebound c s conversation \<longleftrightarrow>
     (\<exists>w1 w2 w3 w4 before after l rest.
        on_files (source_subject (y_root c)) w1 = (Inr before, w2) \<and> w_log w3 = w_log w2 @ l \<and>
        all_ran (map (as_step c \<circ> runs_as) (plan (y_python c))) (z_checks s) l \<and>
        on_files (source_subject (y_root c)) w3 = (Inr after, w4) \<and> conversation = w_log w4 @ rest \<and>
        z_before s = Some before \<and> z_after s = Some after)"

lemma as_step_env: "as_step (c\<lparr>y_env := e\<rparr>) = as_step c" "as_step (c\<lparr>y_timeout := t, y_output := out, y_temporary := d\<rparr>) = as_step c"
  by (auto simp: as_step_def fun_eq_iff split: option.splits)

lemma rebind_with_rebound:
  assumes "rebind_with c (map runs_as (plan (y_python c))) w = (Inr r, v)"
  shows "\<exists>s. r = Rebound s \<and> rebound c s (w_log v)"
proof -
  let ?s = "\<lambda>b. fresh_session\<lparr>z_before := Some b\<rparr>"
  from assms obtain before w2 s st w3 after w4 w5 w6 where
    1: "on_files (source_subject (y_root c)) w = (Inr before, w2)" and
    2: "under (?s before) (lift (clean_env (y_path c) (y_temporary c))) (\<lambda>env.
       run_plan (c\<lparr>y_env := env\<rparr>) (map (as_step c) (map runs_as (plan (y_python c)))) (?s before)) w2 = (Inr (s, st), w3)" and
    3: "on_files (source_subject (y_root c)) w3 = (Inr after, w4)" and
    4: "r_unit (Put (in_output c (str ''report.json''))) w4 = (Inr (), w5)" and
    5: "r_unit (Remove_tree (y_temporary c)) w5 = (Inr (), w6)" and
    6: "(case st of Finished \<Rightarrow> ret (Rebound (s\<lparr>z_after := Some after\<rparr>)) | Raised e \<Rightarrow> raise e) w6 = (Inr r, v)"
    unfolding rebind_with_def Let_def as_step_env by (auto simp: runs)
  from 6 have st: "st = Finished" and r: "r = Rebound (s\<lparr>z_after := Some after\<rparr>)" "v = w6"
    by (auto simp: runs split: status.splits)
  obtain env where "run_plan (c\<lparr>y_env := env\<rparr>) (map (as_step c) (map runs_as (plan (y_python c)))) (?s before) w2 = (Inr (s, Finished), w3)"
    using 2 unfolding st under_Finished by (auto simp: runs)
  from run_plan_Finished [OF this] obtain l new where l: "w_log w3 = w_log w2 @ l" "added (?s before) s new"
    "all_ran (map (as_step c) (map runs_as (plan (y_python c)))) new l"
    by blast
  obtain l5 where "w_log w5 = w_log w4 @ l5" using grows_log [OF r_unit_grows 4] by blast
  moreover obtain l6 where "w_log w6 = w_log w5 @ l6" using grows_log [OF r_unit_grows 5] by blast
  ultimately have "w_log v = w_log w4 @ (l5 @ l6)" using r by simp
  then have "rebound c (s\<lparr>z_after := Some after\<rparr>) (w_log v)"
    unfolding rebound_def
    by (intro exI [of _ w] exI [of _ w2] exI [of _ w3] exI [of _ w4] exI [of _ before] exI [of _ after] exI [of _ l] exI [of _ "l5 @ l6"])
      (use 1 3 l in \<open>simp add: added_def fresh_session_def comp_def\<close>)
  with r show ?thesis by blast
qed

lemma rebound_settings: "rebound (c\<lparr>y_timeout := t, y_output := out, y_temporary := d\<rparr>) = rebound c"
  unfolding rebound_def fun_eq_iff as_step_env by simp

lemma rebindD:
  assumes "rebind c write ack public w = (Inr r, v)"
  shows "case r of
      Plan_only steps \<Rightarrow> \<not> write \<and> \<not> ack \<and> \<not> public \<and> steps = map runs_as (plan (y_python c))
    | Rebound s \<Rightarrow> write \<and> ack \<and> public \<and> (\<exists>n. answer_of Effective_user w = Count n \<and> n \<noteq> 0) \<and> rebound c s (w_log v)"
proof (cases "write")
  case False
  with assms obtain euid w1 steps w2 where "authorize_write False ack public euid = Inr ()"
    "on_files (checked_plan (y_python c) (y_root c)) w1 = (Inr steps, w2)" "r = Plan_only steps"
    unfolding rebind_def by (auto simp: runs)
  with False on_files_Inr checked_planD show ?thesis by (fastforce simp: authorize_write_def ensure_def split: if_splits)
next
  case True
  with assms obtain euid w0 w1 steps w2 out home x where
    uid: "r_int Effective_user w = (Inr euid, w0)" and auth: "authorize_write True ack public euid = Inr ()" and
    plan: "on_files (checked_plan (y_python c) (y_root c)) w1 = (Inr steps, w2)" and
    x: "rebind_with (c\<lparr>y_timeout := 120, y_output := out, y_temporary := home\<rparr>) steps x = (Inr r, v)"
    unfolding rebind_def Let_def by (auto simp: runs)
  have "steps = map runs_as (plan (y_python c))" using on_files_Inr [OF plan] checked_planD by blast
  with rebind_with_rebound [of "c\<lparr>y_timeout := 120, y_output := out, y_temporary := home\<rparr>" x r v] x
  obtain s where "r = Rebound s" "rebound c s (w_log v)" unfolding rebound_settings by auto
  moreover have "answer_of Effective_user w = Count euid"
    using uid by (auto simp: r_int_def r_call_def split: ranswer.splits)
  ultimately show ?thesis using True auth by (auto simp: authorize_write_def ensure_def split: if_splits)
qed

text \<open>Without the request nothing but looking.\<close>

fun looking :: "rcall \<Rightarrow> bool" where
  "looking (File c) \<longleftrightarrow> observes c"
| "looking Effective_user \<longleftrightarrow> True"
| "looking _ \<longleftrightarrow> False"

lemma rebind_looks: "only looking (rebind c False ack public)"
proof -
  have "only looking (on_files (checked_plan (y_python c) (y_root c)))"
    by (rule only_files [OF observes_checked_plan]) simp
  then show ?thesis unfolding rebind_def by (auto intro!: only_rules)
qed

end
