(* ===== verification/Spec2Isabelle.thy ===== *)
theory Spec2Isabelle
  imports Examples_Run Export_Spec Command_Spec Guard_Spec References Lineage_Spec Plan_Spec Component_Ci_Spec Rebind_Spec
begin

text \<open>
  A model of the Python programs of this repository, with the theorems that make them correct.

  The programs. \<^verbatim>\<open>src/tools/recovery_io.py\<close> and \<^verbatim>\<open>src/tools/nia_recovery.py\<close> are the recovery tool: it
  authenticates a manifest with a quorum of signatures over an anchor, reconstructs the objects of the
  manifest from replicas into a candidate directory, inspects an original, and exports. \<^verbatim>\<open>src/ci/proof-guard.py\<close>
  runs one tool under limits of memory and time. \<^verbatim>\<open>src/ci/engineering.py\<close> and \<^verbatim>\<open>src/ci/unified-audit.py\<close> check
  the registers (decisions, requirements, hazards, test plan, lineage, artifacts) of the sibling repositories, their
  inventory and the digest of their sources. \<^verbatim>\<open>src/ci/run-engineering-checks.py\<close> runs these checks, the tests, builds
  and proofs as processes with a time limit and a log, and keeps a record of each. \<^verbatim>\<open>src/ci/sync-component-ci.py\<close>
  generates the test scripts of the repositories from the same plan, and compares them with the files that are there.

  How the code is translated. A program that talks to the operating system is a function on a machine
  (theory \<open>Program\<close>): it asks questions, and the machine answers them by an arbitrary function of the
  conversation so far, so a theorem holds for every environment, failure and concurrent change. Results are
  a sum of an exception and a value. Theory \<open>World\<close> has the file system calls, \<open>Guard\<close> those of process
  control. Values of \<open>json.loads\<close> are the datatype \<open>json\<close>; code that has not checked the type of a value is
  translated with Python's dynamic semantics (theory \<open>Dynamic\<close>), so that its \<open>TypeError\<close> and \<open>KeyError\<close> are
  branches of the model. An exception keeps its class; its message is shortened. A loop is a recursion with a
  termination proof; the only fuel is that of the JSON scanner (\<open>loads\<close>: twice the length of the text and two
  more, which \<open>scan_fuel\<close> shows to be enough) and of a repetition in a regular expression (the length of the
  text, enough by \<open>full_match_produces\<close>). Python's recursion limit is the parameter \<open>d\<close> or \<open>depth\<close>.

  Theories and sources.
  \<^item> \<open>Prelude\<close>, \<open>Text\<close>: strings, bytes, exceptions, UTF-8, numbers as text; shared rules on results.
  \<^item> \<open>Json\<close> (\<open>canonical\<close>, \<open>decode\<close>, \<open>json.loads\<close>), \<open>Json_Scan\<close>, \<open>Json_Roundtrip\<close>, \<open>Json_Dict\<close>, \<open>Json_Size\<close>:
    the scanner, its fuel, round trips, exceptions, distinct keys.
  \<^item> \<open>Checks\<close> (\<open>fields\<close>, \<open>integer\<close>, \<open>digest\<close>, \<open>ident\<close>, \<open>relative\<close>), \<open>Sha256\<close> (\<open>sha\<close>, executable).
  \<^item> \<open>Directory\<close> (the class \<open>Directory\<close>, \<open>write_all\<close>, \<open>argument_file\<close>), \<open>Directory_Fds\<close> (descriptors),
    \<open>Directory_Spec\<close> (which calls, how many bytes), \<open>Directory_Leak\<close> (a descriptor that is lost), \<open>Results\<close>
    (what programs raise).
  \<^item> \<open>Manifest\<close> (\<open>validate_manifest\<close> and its parts), \<open>Manifest_Spec\<close>, \<open>Manifest_Canonical\<close>, \<open>Manifest_Text\<close>: the
    specification of a manifest and the proof that validation decides it.
  \<^item> \<open>Trust\<close> (\<open>validate_trust\<close>, \<open>authenticate\<close>), \<open>Trust_Spec\<close>: the quorum. Ed25519 verification is the parameter
    \<open>verify\<close> (package cryptography).
  \<^item> \<open>Recovery\<close> (\<open>closed_inventory\<close>, \<open>directory_attributes\<close>, \<open>find_manifest\<close>), \<open>Reconstruct\<close> (\<open>reconstruct\<close>,
    \<open>inspect_original\<close>), with \<open>Recovery_Spec\<close>, \<open>Reconstruct_Spec\<close>, \<open>Reconstruct_Values\<close>, \<open>Reconstruct_Live\<close>: calls,
    descriptors, reports, and that reconstruction succeeds whenever the pieces are there.
  \<^item> \<open>Export\<close>, \<open>Export_Spec\<close> (\<open>export\<close>); \<open>Command\<close>, \<open>Command_Spec\<close> (\<open>main\<close> after \<open>argparse\<close>, exit codes).
  \<^item> \<open>Guard\<close>, \<open>Guard_Spec\<close>: \<open>supervise\<close> with its lock, sampling, cleanup and child, and the command.
  \<^item> \<open>Regex\<close> (Python's \<open>re\<close> as a backtracking matcher), \<open>Dynamic\<close>: what the checkers need of the language.
  \<^item> \<open>Engineering_Files\<close> (\<open>read_regular\<close>, \<open>load_json\<close>, \<open>resolve_ref\<close>), \<open>Succession\<close> (the search for cycles among
    decisions), \<open>Engineering\<close> (the registers of \<open>validate\<close>), \<open>Gpr\<close> and \<open>Test_Plan\<close> (its test plan), \<open>Unified_Audit\<close>
    (\<open>capabilities\<close>, \<open>lineage\<close>, \<open>packaging\<close>).
  \<^item> \<open>Readers\<close> (the contract of programs that only look, and of readers), \<open>References\<close> (the conversation of a read
    and of a resolved reference), \<open>Engineering_Spec\<close>, \<open>Audit_Spec\<close> (what the checks raise), \<open>Traceability\<close>,
    \<open>Lineage_Spec\<close>, \<open>Plan_Spec\<close> (what acceptance means).
  \<^item> \<open>Source_Tree\<close> (\<open>regular_tree\<close>, \<open>source_subject\<close>), \<open>Inventory\<close> (\<open>inventory\<close>, \<open>api_index\<close>), \<open>Validate\<close> (\<open>validate\<close>);
    \<open>Source_Tree_Spec\<close> (a tree of files, its plain listing, and that the walk refines it; what the digest identifies),
    \<open>Validate_Spec\<close> (what they do and raise, the inventory of a tree, two trees with one digest).
  \<^item> \<open>Runner\<close>, \<open>Runner_Spec\<close>: \<open>run_command\<close>, \<open>clean_env\<close> and \<open>expand_test_args\<close> of the check runner, and the automaton that
    reads the conversation of a command. \<open>Check_Runner\<close>, \<open>Check_Runner_Spec\<close>: its \<open>main\<close>, and what its exit codes mean.
  \<^item> \<open>Component_Ci\<close> (\<^verbatim>\<open>src/ci/sync-component-ci.py\<close>: the generated scripts, makefiles and workflows, their comparison and
    writing), \<open>Component_Ci_Spec\<close> (the words the shell makes of a generated line, and what the comparison accepts).
  \<^item> \<open>Rebind\<close>, \<open>Rebind_Spec\<close>: \<^verbatim>\<open>src/ci/rebind-development.py\<close>, which runs a fixed plan of commands with the check runner's
    \<open>run_command\<close>.
  \<^item> \<open>Examples\<close>, \<open>Examples_Run\<close>: a cohort, its files and operating systems, on which hypotheses are shown to hold.

  Interfaces. \<open>bounded_reader\<close> (theory \<open>Readers\<close>) is what the callers of a read rely on; \<open>Directory.read\<close> and
  \<open>read_regular\<close> provide it. \<open>observer\<close> is a check that can be repeated; \<open>resolve_ref\<close>, \<open>source_subject\<close> and
  \<open>modules_of\<close> provide it. \<open>identified\<close>
  (theory \<open>Traceability\<close>) is a row check of a register; decisions, requirements, hazards and fault cases provide it.

  Hypotheses on the environment. \<open>quiet\<close>: closing a descriptor does not fail; \<open>steady\<close>: nor does \<open>fstat\<close>, and the
  mount table can be read. \<open>unicode\<close> is the character database of Python, a parameter of what \<open>re\<close> and \<open>int\<close> do
  with text. A walk over directories ends because the kernel refuses paths of \<open>PATH_MAX\<close> bytes.

  Not modelled: \<open>lint\<close> and \<open>main\<close> of \<^verbatim>\<open>engineering.py\<close>; \<open>documentation\<close> and \<open>main\<close> of \<^verbatim>\<open>unified-audit.py\<close>; \<open>argparse\<close>,
  printing and the texts of the JSON reports; the other maintenance scripts under \<^verbatim>\<open>src/ci\<close> (downloads, copies,
  digests to refresh), the recorded drivers under \<^verbatim>\<open>src/evidence\<close> and the tests.
\<close>

text \<open>The command line of the examples.\<close>

definition demo_arguments :: arguments where
  "demo_arguments = \<lparr>g_command = Verify, g_anchor = str ''/srv/anchor.json'', g_trust = str ''/srv/trust.json'',
     g_expected = demo_expected, g_manifest = None, g_replicas = [str ''/srv'']\<rparr>"

text \<open>Unicode's character database, restricted to ASCII.\<close>

definition demo_unicode :: unicode where
  "demo_unicode = \<lparr>u_digit = (\<lambda>c. if is_digit c then Some (c - 48) else None), u_word = (\<lambda>c. is_alnum c \<or> c = 95),
     u_variants = (\<lambda>c. if is_upper c then [c + 32] else if is_lower c then [c - 32] else [])\<rparr>"

section \<open>Authentication\<close>

text \<open>
  C1. Acceptance is quorum-signed. Whatever bytes, policy and clock \<open>authenticate\<close> is given, it
  either raises a \<open>ValueError\<close> (no \<open>KeyError\<close>, no \<open>TypeError\<close>), or the policy is well formed, the
  manifest meets its specification, the manifest bytes are the canonical text of exactly that
  manifest, the anchor is the pinned one and binds node, generation, epoch, freshness, manifest and
  pending set, and at least the threshold of distinct, unrevoked keys of distinct domains, recovery
  and witness roles both among them, signed the domain-separated canonical anchor.
\<close>

theorem authenticate_means_quorum:
  "case authenticate verify d mraw eraw tj expected now of
     Inl e \<Rightarrow> is_value_error e
   | Inr (m, a) \<Rightarrow> \<exists>t ks. validate_trust tj = Inr t \<and> trust_ok t \<and> manifest_ok m \<and>
       mraw = canonical (manifest_json m) \<and> anchor_ok a \<and> anchor_binds t m a expected now \<and>
       quorum verify t (DOMAIN @ canonical (anchor_json a)) ks"
proof (cases "authenticate verify d mraw eraw tj expected now")
  case (Inl e)
  then show ?thesis
    using raises_authenticate [of verify d mraw eraw tj expected now] by (simp add: raises_def)
next
  case (Inr p)
  then obtain m a where "authenticate verify d mraw eraw tj expected now = Inr (m, a)"
    by (cases p) auto
  then show ?thesis
    using authenticate_InrD [of verify d mraw eraw tj expected now m a] validate_trust_ok by auto
qed

text \<open>
  C2. Nothing else is demanded: a manifest that meets its specification, written canonically, with a
  pinned fresh anchor that binds it and an envelope (keys in any order) of signatures by such a
  quorum is accepted.
\<close>

theorem authenticate_accepts:
  assumes "validate_trust tj = Inr t" "manifest_ok m" "6 \<le> d"
    "length (canonical (manifest_json m)) \<le> LIMIT" "0 \<le> now" "now \<le> INT_MAX" "is_digest expected"
    "anchor_ok a" "anchor_binds t m a expected now" "decode d eraw = Inr e"
    "sort_keys e = sort_keys (envelope_json a (map (\<lambda>(k, s). (k_id k, s)) ss))"
    "fst ` set ss \<subseteq> set (t_keys t)" "t_threshold t \<le> int (length ss)" "length ss \<le> 32"
    "signers_ok verify (DOMAIN @ canonical (anchor_json a)) ss" "k_role ` fst ` set ss = set ROLES"
  shows "authenticate verify d (canonical (manifest_json m)) eraw tj expected now = Inr (m, a)"
  using assms by (rule authenticate_complete)

theorem authenticate_accepts_witness:
  "authenticate demo_verify 10 (canonical (manifest_json demo_manifest)) (canonical demo_envelope)
     (trust_json demo_trust) demo_expected 1500 = Inr (demo_manifest, demo_anchor)"
proof (rule authenticate_accepts [where t = demo_trust and e = "sort_keys demo_envelope" and
      ss = demo_signers])
  show "sort_keys (sort_keys demo_envelope) =
      sort_keys (envelope_json demo_anchor (map (\<lambda>(k, s). (k_id k, s)) demo_signers))"
    using sort_keys_idem [OF json_ok_distinct [OF demo_envelope_ok(1)]] by (simp add: demo_envelope_def)
qed (use demo_validate_trust demo_manifest_ok demo_manifest_small demo_anchor_ok demo_binds
    demo_decode_envelope demo_quorum demo_signers_ok in \<open>simp_all add: INT_MAX_def demo_expected_def\<close>)

section \<open>The manifest\<close>

text \<open>
  C6. Validation is exactly the specification: reading bytes and validating them succeeds with \<open>m\<close>
  and total \<open>t\<close> if and only if the bytes decode to a value with the canonical text of \<open>m\<close> written
  out, \<open>m\<close> meets the specification and \<open>t\<close> is the sum of its sizes.
\<close>

theorem validate_manifest_characterized:
  "rbind (decode d b) validate_manifest = Inr (m, t) \<longleftrightarrow>
     manifest_ok m \<and> t = total_size (m_objects m) \<and>
     (\<exists>j. decode d b = Inr j \<and> sort_keys j = sort_keys (manifest_json m))"
proof (cases "decode d b")
  case (Inr j)
  then show ?thesis using validate_manifest_iff [OF decode_distinct [OF Inr], of m t] by auto
qed simp

section \<open>JSON\<close>

text \<open>
  C11. Canonical text reads back: what \<open>canonical\<close> writes, \<open>decode\<close> reads as the same value with its
  keys in order, and writing that again gives the same bytes.
\<close>

theorem canonical_roundtrip:
  assumes "json_ok j" "json_depth j \<le> d" "length (canonical j) \<le> LIMIT"
  shows "decode d (canonical j) = Inr (sort_keys j) \<and> canonical (sort_keys j) = canonical j"
  using decode_canonical [OF assms] canonical_sort_keys [OF sort_keys_idem [OF json_ok_distinct [OF assms(1)]]] by simp

theorem canonical_roundtrip_witness:
  "decode 10 (canonical demo_envelope) = Inr (sort_keys demo_envelope) \<and>
   canonical (sort_keys demo_envelope) = canonical demo_envelope"
  by (rule canonical_roundtrip [OF demo_envelope_ok demo_envelope_small])

text \<open>
  Canonical text identifies a value: two values have the same canonical bytes if and only if they
  differ in the order of keys only, so a hash or a signature of the bytes is one of the value.
\<close>

lemma canonical_identifies:
  assumes "json_ok i" "json_ok j"
  shows "canonical i = canonical j \<longleftrightarrow> sort_keys i = sort_keys j"
  using canonical_inject [OF assms] by (auto simp: canonical_def)

lemma canonical_identifies_witness:
  "canonical demo_envelope = canonical (sort_keys demo_envelope) \<longleftrightarrow>
   sort_keys demo_envelope = sort_keys (sort_keys demo_envelope)"
  by (rule canonical_identifies [OF demo_envelope_ok(1) sort_keys_ok [OF demo_envelope_ok(1)]])

text \<open>
  Arbitrary bytes make \<open>decode\<close> raise a \<open>ValueError\<close> at most, and what it returns has no repeated
  key at any depth.
\<close>

lemma decode_total:
  "case decode d b of Inl e \<Rightarrow> is_value_error e | Inr j \<Rightarrow> json_distinct j"
  using raises_decode [of d b] decode_distinct [of d b]
  by (auto simp: raises_def split: sum.splits)

section \<open>Files\<close>

text \<open>
  A path that \<open>relative\<close> accepts cannot leave the directory it is resolved in: it is not absolute
  and none of its components is empty, dot, dot-dot or contains a separator, a backslash or a NUL.
\<close>

lemma relative_paths_confined:
  "case relative j of Inl e \<Rightarrow> is_invalid e | Inr p \<Rightarrow> j = JStr p \<and> confined p"
  using raises_relative [of j] relative_confined by (auto simp: raises_def split: sum.splits)

text \<open>
  C12. \<open>Directory.read\<close> only observes the file system, whatever the operating system answers, and
  returns at most \<open>limit\<close> bytes even when the file grows meanwhile.
\<close>

theorem read_bounded:
  "only observes (dir_read d path limit) \<and>
   (case dir_read d path limit w of (Inl e, v) \<Rightarrow> True | (Inr b, v) \<Rightarrow> int (length b) \<le> limit)"
  using only_dir_read dir_read_bound [of d path limit w] by (auto split: prod.splits sum.splits)

text \<open>
  C13. \<open>write_all\<close> loses nothing to short writes: if it returns, the kernel took exactly the bytes
  given, in order; otherwise it raises an \<open>OSError\<close>.
\<close>

theorem write_all_exact:
  "case write_all fd b w of (Inl e, v) \<Rightarrow> is_os_error e
   | (Inr u, v) \<Rightarrow> \<exists>l. w_log v = w_log w @ l \<and> written fd l = b"
proof (cases "write_all fd b w")
  case (Pair r v)
  then show ?thesis
    using ends_InlD [OF ends_write_all_os refl, of fd b w] write_all_written [of fd b w]
    by (cases r) auto
qed

text \<open>
  The handler of \<open>Directory.parent\<close> loses a descriptor: with an \<open>fstat\<close> that fails on the
  directory just opened, the call raises and that directory stays open.
\<close>

lemma parent_leaks_descriptor:
  "\<exists>v. parent demo_directory (str ''db/catalog'') False (opened stale_os) = (Inl (OSError 5), v) \<and>
     w_fds v = [1, 3] \<and> w_fds (opened stale_os) = [3]"
  using parent_loses by (intro exI [of _ "snd _"]) (simp add: prod_eq_iff)

section \<open>Reconstruction\<close>

text \<open>
  C14. Without a candidate directory \<open>reconstruct\<close> only observes. With one it creates directories of
  mode 0700, creates files of mode 0600 with \<open>O_EXCL\<close> and \<open>O_NOFOLLOW\<close>, writes and synchronises:
  nothing is overwritten, removed or renamed. \<open>inspect_original\<close> only observes.
\<close>

theorem reconstruct_only_creates:
  "only (allowed out) (reconstruct verify depth mraw eraw trust expected now rs out fault) \<and>
   only observes (inspect_original verify depth mraw eraw trust expected now source)"
  by (simp add: only_reconstruct only_inspect)

text \<open>
  C15. Where closing, \<open>fstat\<close> and the mount table work, \<open>reconstruct\<close> and \<open>inspect_original\<close> leave the
  open descriptors as they found them, on every path.
\<close>

theorem reconstruct_descriptors:
  assumes "steady os"
  shows "balanced os s (reconstruct verify depth mraw eraw trust expected now rs out fault) \<and>
    balanced os s (inspect_original verify depth mraw eraw trust expected now source)"
  using assms by (simp add: balanced_reconstruct balanced_inspect)

theorem reconstruct_descriptors_witness:
  "balanced demo_os [3] (reconstruct demo_verify 10 (canonical (manifest_json demo_manifest))
       (canonical demo_envelope) (trust_json demo_trust) demo_expected 1500 [demo_directory]
       (Some demo_directory) (\<lambda>_. Inr ())) \<and>
   balanced demo_os [3] (inspect_original demo_verify 10 (canonical (manifest_json demo_manifest))
       (canonical demo_envelope) (trust_json demo_trust) demo_expected 1500 demo_directory)"
  by (rule reconstruct_descriptors [OF demo_os_steady])

text \<open>
  C16. A report that \<open>reconstruct\<close> returns lists every object of the authenticated manifest in order,
  says complete exactly when each was verified, and lists at most 256 bad chunks while counting all.
\<close>

theorem reconstruct_reports:
  "case reconstruct verify depth mraw eraw trust expected now rs out fault w of
     (Inl e, v) \<Rightarrow> True
   | (Inr r, v) \<Rightarrow> \<exists>m a. authenticate verify depth mraw eraw trust expected now = Inr (m, a) \<and>
       map fst (r_objects r) = map e_path (m_objects m) \<and>
       r_complete r = list_all snd (r_objects r) \<and> length (r_bad r) = min 256 (r_bad_count r)"
proof (cases "reconstruct verify depth mraw eraw trust expected now rs out fault w")
  case (Pair res v)
  show ?thesis
  proof (cases res)
    case (Inr r)
    have "(\<forall>(p, good)\<in>set (r_objects r). good) = list_all snd (r_objects r)" by (auto simp: list_all_iff)
    with reconstruct_report [OF Pair [unfolded Inr]] Pair Inr show ?thesis by simp
  qed (simp add: Pair)
qed






text \<open>
  A manifest may name an object that no candidate can hold: the path limits apply again after
  \<open>payload/\<close> is put in front, so an object with a path of 32 components, which \<open>relative\<close> accepts, makes
  \<open>reconstruct\<close> raise when it creates the payload, before any call to the operating system.
\<close>

lemma deep_object_unplaceable:
  "is_relative (deep_path 32) \<and> create d (str ''payload/'' @ deep_path 32) w = (Inl (Invalid ''path traversal/encoding''), w)"
proof -
  have "is_relative (deep_path 32) \<and> relative (JStr (str ''payload/'' @ deep_path 32)) = Inl (Invalid ''path traversal/encoding'')"
    by code_simp
  then show ?thesis by (simp add: create_def parent_def seq_def lift_def)
qed

text \<open>
  \<open>inspect_original\<close> raises a \<open>ValueError\<close> at most: whatever is wrong with the tree it inspects
  is a verdict of the report.
\<close>

lemma inspect_raises_value_errors:
  assumes "steady os"
  shows "ends os is_value_error (\<lambda>_. True)
    (inspect_original verify depth mraw eraw trust expected now source)"
  using assms by (rule ends_inspect)

lemma inspect_raises_value_errors_witness:
  "ends demo_os is_value_error (\<lambda>_. True)
    (inspect_original demo_verify 10 (canonical (manifest_json demo_manifest))
       (canonical demo_envelope) (trust_json demo_trust) demo_expected 1500 demo_directory)"
  by (rule inspect_raises_value_errors [OF demo_os_steady])

section \<open>Export\<close>

text \<open>
  C17. What \<open>export\<close> returns can be used: for any specification read from bytes, the manifest it returns
  passes the validation of the reader, its canonical text is that of the validated manifest, and it is
  short enough to be read back.
\<close>

theorem export_manifest_valid:
  "case decode depth b of
     Inl e \<Rightarrow> is_value_error e
   | Inr spec \<Rightarrow>
       (case export source spec out w of
          (Inl e, v) \<Rightarrow> True
        | (Inr j, v) \<Rightarrow> \<exists>m. manifest_ok m \<and> validate_manifest j = Inr (m, total_size (m_objects m)) \<and>
            canonical j = canonical (manifest_json m) \<and> length (canonical j) \<le> LIMIT)"
proof (cases "decode depth b")
  case (Inl e)
  then show ?thesis using raises_decode [of depth b] by (simp add: raises_def)
next
  case (Inr spec)
  then have "json_distinct spec" by (rule decode_distinct)
  with Inr show ?thesis
    by (cases "export source spec out w"; cases "fst (export source spec out w)")
      (auto elim: export_returns)
qed




section \<open>The command line\<close>

text \<open>
  C7. Exit code 0 means what it says: the cohort authenticated against the given anchor, and every
  object of it was verified (\<open>verify\<close>, \<open>reconstruct\<close>) or matched together with its attributes and the
  directory tree (\<open>inspect\<close>).
\<close>

theorem exit_zero_accomplished:
  "case cli verify d now a w of
     (Inl e, v) \<Rightarrow> True
   | (Inr res, v) \<Rightarrow>
       (if exit_code res = 0 then \<exists>j mraw eraw trust m an. res = Printed j 0 \<and>
          authenticate verify d mraw eraw trust (g_expected a) now = Inr (m, an) \<and> accomplished a m j
        else True)"
  using cli_zero [of verify d now a w] by (intro when_returns) simp

text \<open>
  C20. Only \<open>AttributeError\<close> can leave the command on a steady operating system (\<open>find_manifest\<close> calls
  \<open>get\<close> on an anchor that need not be a dict); every other failure is an exit code. The descriptors are
  as before.
\<close>

theorem command_raises:
  assumes "steady os"
  shows "ends os (\<lambda>e. e = AttributeError) (\<lambda>_. True) (cli verify d now a) \<and> balanced os s (cli verify d now a)"
  using assms by (simp add: ends_cli balanced_cli)

theorem command_raises_witness:
  "ends demo_os (\<lambda>e. e = AttributeError) (\<lambda>_. True) (cli demo_verify 10 1500 demo_arguments) \<and>
   balanced demo_os [3] (cli demo_verify 10 1500 demo_arguments)"
  by (rule command_raises [OF demo_os_steady])

text \<open>
  C21. Privilege: \<open>verify\<close> and \<open>inspect\<close> only observe the file system and \<open>reconstruct\<close> only creates
  private files; as root the command does nothing but ask for its user and print its usage.
\<close>

theorem command_privilege:
  "only (permitted (g_command a)) (cli verify d now a) \<and>
   (if answer_of Geteuid w = Is_int 0 then cli verify d now a w = (Inr Usage, logged Geteuid w) else True)"
  using only_cli cli_privileged by auto

section \<open>The process guard\<close>

text \<open>
  C8. The guard starts at most one process, and only after it took the lock (which it has not given
  back), saw enough free memory for the reserve and the session, found the default \<open>SIGCHLD\<close> and no
  child of its own. With limits that are not tightenings it makes no call at all.
\<close>

theorem guard_starts_when_ready:
  "\<exists>lg. w_log (snd (supervise l command w)) = w_log w @ lg \<and> launched l command lg \<and>
     (if tightened l then True else lg = [])"
  using supervise_launched [of l command w] by (cases "supervise l command w") auto

text \<open>
  C22. When \<open>supervise\<close> returns, the lock is closed; a result of \<open>pass\<close> means that the process ended with
  code 0, no limit stopped it, and no sample of the session's memory was above the limit.
\<close>

theorem guard_pass_means_within_limits:
  "case supervise l command w of
     (Inl e, v) \<Rightarrow> True
   | (Inr r, v) \<Rightarrow> w_fds v = w_fds w \<and>
       (if o_result r = Passed then o_reason r = None \<and> o_code r = Some 0 \<and> o_peak r \<le> l_session l * MIB else True)"
  using supervise_returns [of l command w] by (intro when_returns) simp

text \<open>
  C23. The sampling loop ends: from time \<open>t\<close> it sleeps at most as often as whole intervals fit before the
  wall time limit, plus once.
\<close>

theorem guard_samples_bounded:
  "\<exists>lg. w_log (snd (watch l start child s w)) = w_log w @ lg \<and>
     int (naps lg) * INTERVAL \<le> max 0 (start + l_seconds l - w_time w + INTERVAL)"
  using wpD [OF watch_sampled, of l start child s w] by (cases "watch l start child s w") (auto simp: sampled_def)


text \<open>
  C25. The supervised program is executed only with its limits in force: address space, core size and
  CPU time have been lowered, none above its hard limit, and the priority after them.
\<close>

theorem guard_child_limited:
  "case child_main args w of
     (Inl e, v) \<Rightarrow> True
   | (Inr u, v) \<Rightarrow> \<exists>mem cpu cmd m c h1 h2 h3 a1 a2 a3 a4 a5. args = mem # cpu # cmd \<and> cmd \<noteq> [] \<and>
       int_of mem = Inr m \<and> int_of cpu = Inr c \<and>
       w_log v = w_log w @ lowered RLIMIT_AS (m * MIB) h1 a1 @ lowered RLIMIT_CORE 0 h2 a2 @
         lowered RLIMIT_CPU c h3 a3 @ [(Nice 15, a4), (Exec cmd, a5)] \<and>
       (\<forall>e. a1 \<noteq> Errno e) \<and> (\<forall>e. a2 \<noteq> Errno e) \<and> (\<forall>e. a3 \<noteq> Errno e)"
proof (rule when_returns)
  fix u v assume "child_main args w = (Inr u, v)"
  then have "child_main args w = (Inr (), v)" by simp
  then show "\<exists>mem cpu cmd m c h1 h2 h3 a1 a2 a3 a4 a5. args = mem # cpu # cmd \<and> cmd \<noteq> [] \<and>
       int_of mem = Inr m \<and> int_of cpu = Inr c \<and>
       w_log v = w_log w @ lowered RLIMIT_AS (m * MIB) h1 a1 @ lowered RLIMIT_CORE 0 h2 a2 @
         lowered RLIMIT_CPU c h3 a3 @ [(Nice 15, a4), (Exec cmd, a5)] \<and>
       (\<forall>e. a1 \<noteq> Errno e) \<and> (\<forall>e. a2 \<noteq> Errno e) \<and> (\<forall>e. a3 \<noteq> Errno e)"
    by (rule child_execs) (intro exI conjI; assumption)
qed

text \<open>
  C26. The guard's command exits with 0 only if it is not root, gave no job option of its own, stayed in
  1..3600 seconds and the run, with \<open>-j1\<close> put after the tool's name, passed.
\<close>

theorem guard_exit_zero:
  "case guard_main words seconds w of
     (Inl e, v) \<Rightarrow> True
   | (Inr n, v) \<Rightarrow>
       (if n = 0 then \<exists>tool args uid w1 r. (if take 1 words = [str ''--''] then drop 1 words else words) = tool # args \<and>
          1 \<le> seconds \<and> seconds \<le> 3600 \<and> g_num Euid w = (Inr uid, w1) \<and> uid \<noteq> 0 \<and> \<not> list_ex is_job_option args \<and>
          supervise (default_limits seconds) (tool # str ''-j1'' # args) w1 = (Inr r, v) \<and> o_result r = Passed
        else True)"
  by (rule when_returns) (use guard_main_zero in simp)

section \<open>The checkers of the repositories\<close>

text \<open>
  C27. Reading a checked file: the bytes \<open>read_regular\<close> returns are within the limit and are everything
  the kernel delivered, up to the end of the file, on one descriptor of a regular file, between two looks
  at it that agree; it makes observing calls only.
\<close>

theorem read_regular_exact:
  "only observes (read_regular p READ_LIMIT) \<and>
   (case read_regular p READ_LIMIT w of
      (Inl e, v) \<Rightarrow> True
    | (Inr b, v) \<Rightarrow> int (length b) \<le> READ_LIMIT \<and> (\<exists>log. w_log v = w_log w @ log \<and> read_log p b log))"
proof -
  have limit: "0 \<le> READ_LIMIT" by (simp add: READ_LIMIT_def)
  show ?thesis
    using regular.bounded_read [OF limit, of p w] read_regular_log [OF _ limit, of p w]
    by (auto split: prod.splits sum.splits)
qed

text \<open>
  C28. A reference is resolved within the repositories: its path is made of proper names, the first one a
  repository; every path on the way to the file was asked for a link and none was one; then that file, and no
  other, was read; the symbol, if the reference names one, occurs in its text.
\<close>

theorem resolve_ref_confined:
  "case resolve_ref u root ref w of
     (Inl e, v) \<Rightarrow> True
   | (Inr (target, content), v) \<Rightarrow> \<exists>parts symbol log b. reference ref parts symbol \<and> target = foldl slash root parts \<and>
       w_log v = w_log w @ unlinked (steps root parts) @ log \<and> read_log target b log \<and>
       int (length b) \<le> READ_LIMIT \<and> utf8_decode b = Some content \<and> (symbol = [] \<or> has_symbol u symbol content)"
  using resolve_ref_log [of u root ref w] by (auto split: prod.splits sum.splits)

text \<open>
  C29. The search for a decision that replaces itself ends, and it is exact: started at \<open>key\<close> it answers yes
  if and only if \<open>key\<close> supersedes itself directly or through other decisions.
\<close>

theorem cyclic_decides:
  "cyclic edges key [] [key] \<longleftrightarrow> (key, key) \<in> (replaces edges)\<^sup>+"
  by (rule cyclic_iff)





text \<open>
  C31. An accepted artifact claims no authority and is complete: it declares, each once and under its own name,
  exactly the application mains of the project file.
\<close>

theorem artifact_exact:
  "case artifact repo gpr manifest of
     Inl e \<Rightarrow> packaging_error e
   | Inr xs \<Rightarrow> \<exists>names units. xs = map (\<lambda>n. str repo @ str ''/'' @ n) names \<and> distinct names \<and>
       list_all2 installs (listed manifest ''executables'') names \<and>
       main_units application_main (Invalid ''missing application main catalog'') gpr = Inr units \<and> set names = set units \<and>
       getitem manifest ''production_qualified'' = Inr (JBool False) \<and> has_text manifest ''component'' (str repo) \<and>
       getitem manifest ''automatic_hooks'' = Inr (JArr [])"
proof (cases "artifact repo gpr manifest")
  case (Inl e)
  then show ?thesis using raises_artifact [of repo gpr manifest] by (simp add: raises_def)
next
  case (Inr xs)
  then show ?thesis by (auto elim!: artifactD)
qed


text \<open>
  An executable of an artifact whose \<open>source\<close> is not a string makes the check raise \<open>AttributeError\<close>, which the
  \<open>main\<close> of \<open>ci/unified-audit.py\<close> does not catch.
\<close>

lemma executable_source_unchecked:
  "executable_row [] (JObj [(str ''source'', JInt 1), (str ''destination'', JNull), (str ''mode'', JNull)]) = Inl AttributeError \<and>
   \<not> check_error AttributeError"
  by (simp add: executable_row_def schema_def item_def getitem_def remove_prefix_def check_error_def expected_error_def)

section \<open>The check runner\<close>

text \<open>
  C33. A command of the check runner. Whatever the system answers, the conversation of \<open>run_command\<close> starts at
  most one process, the one it was given; it signals a process group only while its leader has been seen and not
  yet waited for; it writes at most \<open>MAX_LOG\<close> bytes to the log. A pass means that the process ended with code 0
  and was reaped, and that the log is all it wrote; a process that is not reaped makes a failure that says so.
\<close>

theorem run_command_accounts:
  "case run_command argv cwd log env timeout grace w of
     (r, v) \<Rightarrow> \<exists>l b. w_log v = w_log w @ l \<and> list_all (\<lambda>e. starts_only argv cwd env (fst e)) l \<and>
       reacts start_view l = Some b \<and> promise r b"
proof -
  obtain r v where rv: "run_command argv cwd log env timeout grace w = (r, v)" by fastforce
  with run_tells [of argv cwd log env timeout grace w] obtain l b where
    "w_log v = w_log w @ l" "reacts start_view l = Some b" "promise r b"
    by (auto simp: wp_def)
  with rv onlyE [OF starts_run_command [of argv cwd env log timeout grace], of w] show ?thesis
    by (auto simp: list_all_iff)
qed


section \<open>The sources\<close>

text \<open>The world in which the example tree is looked at.\<close>

definition tree_world :: world where
  "tree_world = \<lparr>w_os = tree_os, w_log = [], w_fds = [], w_cwd = [], w_time = 0\<rparr>"

text \<open>
  C35. \<open>source_subject\<close> is the digest of the plain listing of the tree: on a system that shows the eight checkouts as trees
  of files, in any order of their directories, the walk ends and its result, be it a digest or an encoding error, is the one
  computed from the list of all files that are not excluded. Directories that cannot be listed count as empty.
\<close>

theorem source_subject_refines:
  assumes "serves_root (w_os w) root cs"
  shows "fst (source_subject root w) = subject_of (all_contents cs)"
  by (rule source_subject_result [OF assms refl])

theorem source_subject_refines_witness:
  "fst (source_subject (str ''/srv'') tree_world) =
     subject_of (map (\<lambda>r. ([str r, str ''src'', str ''p.adb''], demo_source)) WORKTREES)"
  unfolding demo_contents [symmetric] by (rule source_subject_refines) (simp add: tree_world_def demo_serves)



text \<open>
  C37. The inventory lists the modules of the tree: on a system that shows the checkouts as trees whose Ada and C sources are
  UTF-8, \<open>inventory\<close> raises nothing and returns, in the order of their paths, one entry for each file of \<open>src\<close>,
  \<open>runtime\<close> and \<open>app\<close> that is a source, and for no other, with the digest, boundary, symbols and dependencies of its text.
\<close>

theorem inventory_lists:
  assumes "serves_root (w_os w) root cs" "readable_sources (all_contents cs)"
  shows "\<exists>ms. fst (inventory_of u root w) = Inr (inventory_json ms) \<and> sorted (map m_path ms) \<and>
    mset ms = mset (List.map_filter (listed_module u) (all_contents cs))"
proof -
  have m: "ends (w_os w) (\<lambda>_. False) (\<lambda>j. \<exists>ms. j = inventory_json ms \<and> sorted (map m_path ms) \<and>
      mset ms = mset (List.map_filter (listed_module u) (all_contents cs))) (inventory_of u root)"
    unfolding inventory_of_def by (rule ends_seq [OF modules_of_serves [OF assms]]) (blast intro: ends_ret)
  obtain r v where w: "inventory_of u root w = (r, v)" by fastforce
  with endsD [OF m refl] show ?thesis by (cases r) (auto simp: end_post_def)
qed

theorem inventory_lists_witness:
  "\<exists>ms. fst (inventory_of demo_unicode (str ''/srv'') tree_world) = Inr (inventory_json ms) \<and> sorted (map m_path ms) \<and>
    mset ms = mset (List.map_filter (listed_module demo_unicode) (all_contents (replicate 8 demo_checkout)))"
  by (rule inventory_lists) (simp_all add: tree_world_def demo_serves demo_readable)

section \<open>The generated test runners\<close>



text \<open>
  C39. The generator writes only its own files, and none unless asked to: all other calls only observe. When the comparison
  finds everything in step, the sources had been accepted before it, and for each of the seven repositories the test runner
  made from the plan that was read, the makefile, the setup script, the workflow and the copies of shared tools were files
  with exactly the generated bytes and permissions.
\<close>

theorem sync_ci_exact:
  "only (sync_call write root) (sync_ci u depth write root) \<and>
   (case sync_ci u depth False root w of
      (Inr In_step, v) \<Rightarrow> \<exists>l1 l2. w_log v = w_log w @ l1 @ l2 \<and> sources_accepted u depth root l1 \<and> in_step depth root l2
    | _ \<Rightarrow> True)"
proof (intro conjI only_sync_ci)
  show "case sync_ci u depth False root w of
      (Inr In_step, v) \<Rightarrow> \<exists>l1 l2. w_log v = w_log w @ l1 @ l2 \<and> sources_accepted u depth root l1 \<and> in_step depth root l2
    | _ \<Rightarrow> True"
    using says_sync_ci [of u depth root] unfolding says_def
    by (cases "sync_ci u depth False root w") (fastforce split: sum.splits sync_exit.splits)
qed

section \<open>Regeneration of the locks\<close>


end
